(* ===== verification/Go_Strings.thy ===== *)
theory Go_Strings
  imports Prelude "HOL-Library.Char_ord" "HOL-Library.List_Lexorder"
begin

text \<open>
  The parts of Go's \<^verbatim>\<open>strings\<close>, \<^verbatim>\<open>strconv\<close>, \<^verbatim>\<open>fmt\<close> and \<^verbatim>\<open>encoding/hex\<close> packages that the
  services call, on byte strings, with the round trips the components rely on.
  \<^verbatim>\<open>strings.ToLower\<close> is modelled on ASCII letters; bytes of other characters are kept.
\<close>

subsection \<open>Trimming, case, searching and splitting\<close>

text \<open>
  \<^verbatim>\<open>unicode.IsSpace\<close>: the six ASCII spaces, U+0085, U+00A0 and the spaces beyond Latin-1, each
  as its UTF-8 encoding.
\<close>

definition space_runes :: "string list" where
  "space_runes =
     [[CHR 0x09], [CHR 0x0A], [CHR 0x0B], [CHR 0x0C], [CHR 0x0D], [CHR 0x20],
      [CHR 0xC2, CHR 0x85], [CHR 0xC2, CHR 0xA0], [CHR 0xE1, CHR 0x9A, CHR 0x80],
      [CHR 0xE2, CHR 0x80, CHR 0x80], [CHR 0xE2, CHR 0x80, CHR 0x81], [CHR 0xE2, CHR 0x80, CHR 0x82],
      [CHR 0xE2, CHR 0x80, CHR 0x83], [CHR 0xE2, CHR 0x80, CHR 0x84], [CHR 0xE2, CHR 0x80, CHR 0x85],
      [CHR 0xE2, CHR 0x80, CHR 0x86], [CHR 0xE2, CHR 0x80, CHR 0x87], [CHR 0xE2, CHR 0x80, CHR 0x88],
      [CHR 0xE2, CHR 0x80, CHR 0x89], [CHR 0xE2, CHR 0x80, CHR 0x8A], [CHR 0xE2, CHR 0x80, CHR 0xA8],
      [CHR 0xE2, CHR 0x80, CHR 0xA9], [CHR 0xE2, CHR 0x80, CHR 0xAF], [CHR 0xE2, CHR 0x81, CHR 0x9F],
      [CHR 0xE3, CHR 0x80, CHR 0x80]]"

lemma space_runes_nonempty: "p \<in> set space_runes \<Longrightarrow> p \<noteq> []"
  by (auto simp: space_runes_def)

fun starts_with :: "string \<Rightarrow> string \<Rightarrow> bool" where
  "starts_with [] s = True"
| "starts_with (p # ps) [] = False"
| "starts_with (p # ps) (c # s) = (p = c \<and> starts_with ps s)"

lemma starts_with_iff: "starts_with p s \<longleftrightarrow> (\<exists>r. s = p @ r)"
  by (induction p s rule: starts_with.induct) auto

function strip_left :: "string list \<Rightarrow> string \<Rightarrow> string" where
  "strip_left ps s =
     (case find (\<lambda>p. p \<noteq> [] \<and> starts_with p s) ps of
        None \<Rightarrow> s
      | Some p \<Rightarrow> strip_left ps (drop (length p) s))"
  by pat_completeness auto
termination
  by (relation "measure (\<lambda>(ps, s). length s)") (auto simp: find_Some_iff starts_with_iff)

declare strip_left.simps [simp del]

definition strings_TrimSpace :: "string \<Rightarrow> string" where
  "strings_TrimSpace s =
     rev (strip_left (map rev space_runes) (rev (strip_left space_runes s)))"

lemma strip_left_suffix: "\<exists>p. s = p @ strip_left ps s"
proof (induction ps s rule: strip_left.induct)
  case (1 ps s)
  show ?case
  proof (cases "find (\<lambda>p. p \<noteq> [] \<and> starts_with p s) ps")
    case None
    then show ?thesis by (simp add: strip_left.simps [of ps s])
  next
    case (Some p)
    with 1 obtain q where "drop (length p) s = q @ strip_left ps (drop (length p) s)" by blast
    moreover from Some have "strip_left ps s = strip_left ps (drop (length p) s)"
      by (simp add: strip_left.simps [of ps s])
    ultimately have "drop (length p) s = q @ strip_left ps s" by simp
    then have "s = (take (length p) s @ q) @ strip_left ps s"
      by (metis append.assoc append_take_drop_id)
    then show ?thesis by blast
  qed
qed

lemma strip_left_id:
  assumes "\<And>p. p \<in> set ps \<Longrightarrow> p \<noteq> [] \<Longrightarrow> \<not> starts_with p s"
  shows "strip_left ps s = s"
proof -
  have "find (\<lambda>p. p \<noteq> [] \<and> starts_with p s) ps = None"
    using assms by (auto simp: find_None_iff)
  then show ?thesis by (simp add: strip_left.simps [of ps s])
qed

definition to_lower_char :: "char \<Rightarrow> char" where
  "to_lower_char c =
     (let n = of_char c :: nat in if 65 \<le> n \<and> n \<le> 90 then char_of (n + 32) else c)"

definition strings_ToLower :: "string \<Rightarrow> string" where
  "strings_ToLower s = map to_lower_char s"

lemma to_lower_char_idem [simp]: "to_lower_char (to_lower_char c) = to_lower_char c"
  by (auto simp: to_lower_char_def Let_def)

lemma strings_ToLower_idem [simp]: "strings_ToLower (strings_ToLower s) = strings_ToLower s"
  by (simp add: strings_ToLower_def)

lemma strings_ToLower_append [simp]:
  "strings_ToLower (s @ t) = strings_ToLower s @ strings_ToLower t"
  by (simp add: strings_ToLower_def)

definition strings_HasPrefix :: "string \<Rightarrow> string \<Rightarrow> bool" where
  "strings_HasPrefix s p = starts_with p s"

definition strings_TrimPrefix :: "string \<Rightarrow> string \<Rightarrow> string" where
  "strings_TrimPrefix s p = (if strings_HasPrefix s p then drop (length p) s else s)"

fun strings_Contains :: "string \<Rightarrow> string \<Rightarrow> bool" where
  "strings_Contains [] sub = (sub = [])"
| "strings_Contains (c # s) sub = (starts_with sub (c # s) \<or> strings_Contains s sub)"

lemma strings_Contains_iff: "strings_Contains s sub \<longleftrightarrow> (\<exists>a b. s = a @ sub @ b)"
proof (induction s)
  case (Cons c s)
  have "(\<exists>a b. c # s = a @ sub @ b) \<longleftrightarrow>
        (\<exists>b. c # s = sub @ b) \<or> (\<exists>a b. s = a @ sub @ b)"
  proof
    assume "\<exists>a b. c # s = a @ sub @ b"
    then obtain a b where ab: "c # s = a @ sub @ b" by blast
    then show "(\<exists>b. c # s = sub @ b) \<or> (\<exists>a b. s = a @ sub @ b)"
      by (cases a) auto
  next
    assume "(\<exists>b. c # s = sub @ b) \<or> (\<exists>a b. s = a @ sub @ b)"
    then show "\<exists>a b. c # s = a @ sub @ b" by (metis append_Cons append_Nil)
  qed
  with Cons show ?case by (simp add: starts_with_iff)
qed simp

text \<open>\<^verbatim>\<open>strings.Split\<close> at a one-byte separator: never empty, \<open>['''']\<close> for the empty string.\<close>

fun split_at :: "char \<Rightarrow> string \<Rightarrow> string list" where
  "split_at d [] = [[]]"
| "split_at d (c # s) =
     (if c = d then [] # split_at d s
      else (case split_at d s of [] \<Rightarrow> [[c]] | f # fs \<Rightarrow> (c # f) # fs))"

fun strings_Join :: "string \<Rightarrow> string list \<Rightarrow> string" where
  "strings_Join sep [] = []"
| "strings_Join sep [x] = x"
| "strings_Join sep (x # y # ys) = x @ sep @ strings_Join sep (y # ys)"

lemma split_at_not_Nil [simp]: "split_at d s \<noteq> []"
  by (cases s) (auto split: list.splits)

lemma split_at_free: "d \<notin> set s \<Longrightarrow> split_at d s = [s]"
  by (induction s) auto

lemma split_at_append_sep:
  "d \<notin> set s \<Longrightarrow> split_at d (s @ d # t) = s # split_at d t"
  by (induction s) auto

lemma split_at_Join:
  assumes "xs \<noteq> []" and "\<And>x. x \<in> set xs \<Longrightarrow> d \<notin> set x"
  shows "split_at d (strings_Join [d] xs) = xs"
  using assms
  by (induction "[d]" xs rule: strings_Join.induct) (auto simp: split_at_free split_at_append_sep)

lemma strings_Join_inject:
  assumes "length xs = length ys"
    and "\<And>x. x \<in> set xs \<Longrightarrow> d \<notin> set x" and "\<And>y. y \<in> set ys \<Longrightarrow> d \<notin> set y"
    and "strings_Join [d] xs = strings_Join [d] ys"
  shows "xs = ys"
  by (metis assms length_0_conv split_at_Join)

text \<open>\<^verbatim>\<open>strings.Fields\<close> on ASCII text: the non-empty runs between spaces.\<close>

definition is_space :: "char \<Rightarrow> bool" where
  "is_space c \<longleftrightarrow> [c] \<in> set space_runes"

fun fields_acc :: "string \<Rightarrow> string \<Rightarrow> string list" where
  "fields_acc acc [] = (if acc = [] then [] else [rev acc])"
| "fields_acc acc (c # s) =
     (if is_space c then (if acc = [] then fields_acc [] s else rev acc # fields_acc [] s)
      else fields_acc (c # acc) s)"

definition strings_Fields :: "string \<Rightarrow> string list" where
  "strings_Fields s = fields_acc [] s"

lemma fields_acc_nonempty: "f \<in> set (fields_acc acc s) \<Longrightarrow> f \<noteq> []"
  by (induction acc s rule: fields_acc.induct) (auto split: if_splits)

subsection \<open>Decimal numbers\<close>

definition digit_char :: "nat \<Rightarrow> char" where
  "digit_char n = char_of (48 + n)"

definition is_digit :: "char \<Rightarrow> bool" where
  "is_digit c \<longleftrightarrow> 48 \<le> (of_char c :: nat) \<and> (of_char c :: nat) \<le> 57"

definition digit_val :: "char \<Rightarrow> nat" where
  "digit_val c = of_char c - 48"

lemma digit_char_props [simp]:
  "n < 10 \<Longrightarrow> is_digit (digit_char n)"
  "n < 10 \<Longrightarrow> digit_val (digit_char n) = n"
  by (simp_all add: is_digit_def digit_val_def digit_char_def)

lemma digit_val_less: "is_digit c \<Longrightarrow> digit_val c < 10"
  by (auto simp: is_digit_def digit_val_def)

fun dec_nat :: "nat \<Rightarrow> string" where
  "dec_nat n = (if n < 10 then [digit_char n] else dec_nat (n div 10) @ [digit_char (n mod 10)])"

declare dec_nat.simps [simp del]

fun undec_acc :: "nat \<Rightarrow> string \<Rightarrow> nat" where
  "undec_acc a [] = a"
| "undec_acc a (c # s) = undec_acc (10 * a + digit_val c) s"

lemma undec_acc_append: "undec_acc a (s @ t) = undec_acc (undec_acc a s) t"
  by (induction s arbitrary: a) auto

lemma undec_dec_nat [simp]: "undec_acc 0 (dec_nat n) = n"
proof (induction n rule: dec_nat.induct)
  case (1 n)
  then show ?case
    by (cases "n < 10") (simp_all add: dec_nat.simps [of n] undec_acc_append)
qed

lemma dec_nat_digits: "c \<in> set (dec_nat n) \<Longrightarrow> is_digit c"
proof (induction n rule: dec_nat.induct)
  case (1 n)
  then show ?case
    by (cases "n < 10") (auto simp: dec_nat.simps [of n])
qed

lemma dec_nat_not_Nil [simp]: "dec_nat n \<noteq> []"
  by (simp add: dec_nat.simps [of n])

lemma dec_nat_inject [simp]: "dec_nat m = dec_nat n \<longleftrightarrow> m = n"
  by (metis undec_dec_nat)

text \<open>\<^verbatim>\<open>%d\<close>, \<^verbatim>\<open>strconv.Itoa\<close>, \<^verbatim>\<open>strconv.FormatUint\<close>.\<close>

definition itoa :: "int \<Rightarrow> string" where
  "itoa n = (if n < 0 then ''-'' @ dec_nat (nat (- n)) else dec_nat (nat n))"

definition utoa :: "'a::len word \<Rightarrow> string" where
  "utoa w = dec_nat (unat w)"

lemma utoa_inject [simp]: "utoa v = utoa w \<longleftrightarrow> v = w"
  by (simp add: utoa_def word_unat_eq_iff)

lemma is_digit_minus [simp]: "\<not> is_digit (CHR ''-'')"
  by (simp add: is_digit_def)

lemma dec_nat_hd_digit: "dec_nat n = c # s \<Longrightarrow> is_digit c"
  by (metis dec_nat_digits list.set_intros(1))

lemma itoa_inject [simp]: "itoa m = itoa n \<longleftrightarrow> m = n"
proof
  assume eq: "itoa m = itoa n"
  have neg: "dec_nat k \<noteq> CHR ''-'' # s" for k s
    using dec_nat_hd_digit [of k "CHR ''-''" s] by auto
  from eq show "m = n"
    by (auto simp: itoa_def neg neg [symmetric] split: if_splits)
qed simp

definition strconv_FormatBool :: "bool \<Rightarrow> string" where
  "strconv_FormatBool b = (if b then ''true'' else ''false'')"

lemma FormatBool_iff [simp]:
  "strconv_FormatBool b = ''true'' \<longleftrightarrow> b" "strconv_FormatBool b = ''false'' \<longleftrightarrow> \<not> b"
  "strconv_FormatBool b \<noteq> ''assumed''"
  by (simp_all add: strconv_FormatBool_def)

text \<open>
  \<^verbatim>\<open>strconv.Atoi\<close> (an optional sign, then digits, in the range of a 64-bit \<^verbatim>\<open>int\<close>) and
  \<^verbatim>\<open>strconv.ParseUint(s, 10, bits)\<close>.
\<close>

definition parse_digits :: "string \<Rightarrow> nat option" where
  "parse_digits s = (if s \<noteq> [] \<and> list_all is_digit s then Some (undec_acc 0 s) else None)"

definition strconv_Atoi :: "string \<Rightarrow> int option" where
  "strconv_Atoi s =
     (case s of [] \<Rightarrow> None
      | c # r \<Rightarrow>
         (let body = (if c = CHR ''-'' \<or> c = CHR ''+'' then r else s);
              sg = (if c = CHR ''-'' then -1 else 1 :: int)
          in case parse_digits body of None \<Rightarrow> None
             | Some n \<Rightarrow> (let v = sg * int n in
                 if - (2 ^ 63) \<le> v \<and> v < 2 ^ 63 then Some v else None)))"

definition strconv_ParseUint :: "string \<Rightarrow> nat \<Rightarrow> nat option" where
  "strconv_ParseUint s bits =
     (case parse_digits s of None \<Rightarrow> None | Some n \<Rightarrow> if n < 2 ^ bits then Some n else None)"

lemma parse_digits_dec_nat [simp]: "parse_digits (dec_nat n) = Some n"
  by (auto simp: parse_digits_def list_all_iff dest: dec_nat_digits)

lemma Atoi_itoa: "- (2 ^ 63) \<le> n \<Longrightarrow> n < 2 ^ 63 \<Longrightarrow> strconv_Atoi (itoa n) = Some n"
proof -
  assume r: "- (2 ^ 63) \<le> n" "n < 2 ^ 63"
  show ?thesis
  proof (cases "n < 0")
    case True
    with r show ?thesis by (simp add: strconv_Atoi_def itoa_def Let_def)
  next
    case False
    obtain c s where cs: "dec_nat (nat n) = c # s" by (cases "dec_nat (nat n)") auto
    then have d: "is_digit c" by (rule dec_nat_hd_digit)
    then have "c \<noteq> CHR ''-''" "c \<noteq> CHR ''+''" by (auto simp: is_digit_def)
    with False r cs parse_digits_dec_nat [of "nat n"] show ?thesis
      by (simp add: strconv_Atoi_def itoa_def Let_def)
  qed
qed

subsection \<open>Hexadecimal\<close>

definition hex_char :: "nat \<Rightarrow> char" where
  "hex_char n = (if n < 10 then char_of (48 + n) else char_of (87 + n))"

definition hex_byte :: "byte \<Rightarrow> string" where
  "hex_byte b = [hex_char (unat b div 16), hex_char (unat b mod 16)]"

definition hex_EncodeToString :: "bytes \<Rightarrow> string" where
  "hex_EncodeToString bs = concat (map hex_byte bs)"

lemma hex_char_inject: "m < 16 \<Longrightarrow> n < 16 \<Longrightarrow> hex_char m = hex_char n \<Longrightarrow> m = n"
  by (auto simp: hex_char_def split: if_splits)

lemma unat_byte_less: "unat (b :: byte) < 256"
proof -
  have "unat b < 2 ^ LENGTH(8)" by (rule unsigned_less)
  then show ?thesis by simp
qed

lemma hex_byte_inject [simp]: "hex_byte a = hex_byte b \<longleftrightarrow> a = b"
proof
  assume "hex_byte a = hex_byte b"
  then have "hex_char (unat a div 16) = hex_char (unat b div 16)"
    "hex_char (unat a mod 16) = hex_char (unat b mod 16)"
    by (simp_all add: hex_byte_def)
  moreover have "unat a div 16 < 16" "unat b div 16 < 16"
    using unat_byte_less [of a] unat_byte_less [of b] by simp_all
  ultimately have "unat a div 16 = unat b div 16" "unat a mod 16 = unat b mod 16"
    by (simp_all add: hex_char_inject)
  then have "unat a = unat b" by (metis div_mult_mod_eq)
  then show "a = b" by (simp add: word_unat_eq_iff)
qed simp

lemma hex_byte_length [simp]: "length (hex_byte b) = 2"
  by (simp add: hex_byte_def)

lemma hex_EncodeToString_length [simp]: "length (hex_EncodeToString bs) = 2 * length bs"
  by (induction bs) (simp_all add: hex_EncodeToString_def)

lemma hex_EncodeToString_inject [simp]:
  "hex_EncodeToString as = hex_EncodeToString bs \<longleftrightarrow> as = bs"
proof
  assume eq: "hex_EncodeToString as = hex_EncodeToString bs"
  from eq have "length as = length bs"
    by (metis hex_EncodeToString_length mult_cancel1 zero_neq_numeral)
  from this eq show "as = bs"
    by (induction as bs rule: list_induct2) (simp_all add: hex_EncodeToString_def)
qed simp

lemma hex_nonempty: "bs \<noteq> [] \<Longrightarrow> hex_EncodeToString bs \<noteq> ''''"
  by (cases bs) (simp_all add: hex_EncodeToString_def hex_byte_def)

text \<open>The conversions \<^verbatim>\<open>[]byte(s)\<close> and \<^verbatim>\<open>string(b)\<close>.\<close>

definition char_byte :: "char \<Rightarrow> byte" where
  "char_byte c = of_nat (of_char c)"

definition str_bytes :: "string \<Rightarrow> bytes" where
  "str_bytes s = map char_byte s"

definition bytes_str :: "bytes \<Rightarrow> string" where
  "bytes_str bs = map (\<lambda>b. char_of (unat b)) bs"

lemma unat_char_byte [simp]: "unat (char_byte c) = of_char c"
proof -
  have "(of_char c :: nat) < 256" by simp
  then show ?thesis by (simp add: char_byte_def unat_of_nat)
qed

lemma char_byte_inject [simp]: "char_byte c = char_byte d \<longleftrightarrow> c = d"
  by (metis char_of_char unat_char_byte)

lemma str_bytes_inject [simp]: "str_bytes s = str_bytes t \<longleftrightarrow> s = t"
  unfolding str_bytes_def by (rule inj_map_eq_map) (simp add: inj_def)

lemma bytes_str_bytes [simp]: "bytes_str (str_bytes s) = s"
  by (simp add: bytes_str_def str_bytes_def comp_def)

text \<open>\<^verbatim>\<open>binary.BigEndian\<close> and the \<^verbatim>\<open>0x%08x\<close> format of a 32-bit word.\<close>

definition be32_get :: "bytes \<Rightarrow> u32" where
  "be32_get bs = of_nat (fold (\<lambda>b a. a * 256 + unat b) bs 0)"

definition be32_put :: "u32 \<Rightarrow> bytes" where
  "be32_put w = (let n = unat w in
     map (\<lambda>k. of_nat (n div 256 ^ k mod 256)) [3, 2, 1, 0])"

definition hex08 :: "u32 \<Rightarrow> string" where
  "hex08 w = hex_EncodeToString (be32_put w)"

lemma base256_4:
  "((n div 16777216 * 256 + n div 65536 mod 256) * 256 + n div 256 mod 256) * 256 + n mod 256 = (n :: nat)"
proof -
  have "n div 65536 div 256 * 256 + n div 65536 mod 256 = n div 65536"
    "n div 256 div 256 * 256 + n div 256 mod 256 = n div 256"
    "n div 256 * 256 + n mod 256 = n"
    by (simp_all only: div_mult_mod_eq)
  then show ?thesis by (simp add: div_mult2_eq [symmetric])
qed

lemma be32_get_put [simp]: "be32_get (be32_put w) = w"
proof -
  let ?n = "unat w"
  have d: "?n = ((?n div 16777216 * 256 + ?n div 65536 mod 256) * 256 + ?n div 256 mod 256) * 256 + ?n mod 256"
    using base256_4 [of ?n] by simp
  have "?n < 2 ^ LENGTH(32)" by (rule unsigned_less)
  then have b: "?n div 16777216 < 256" by simp
  then have "?n div 16777216 mod 256 = ?n div 16777216" by simp
  then have "fold (\<lambda>b a. a * 256 + unat b) (be32_put w) 0 = ?n"
    using d by (simp add: be32_put_def Let_def unat_of_nat)
  then show ?thesis by (simp add: be32_get_def)
qed

lemma be32_put_length [simp]: "length (be32_put w) = 4"
  by (simp add: be32_put_def Let_def)

lemma hex08_inject [simp]: "hex08 v = hex08 w \<longleftrightarrow> v = w"
  unfolding hex08_def by (metis be32_get_put hex_EncodeToString_inject)

lemma hex08_length [simp]: "length (hex08 w) = 8"
  by (simp add: hex08_def)

end
