(* ===== verification/Go_Base64.thy ===== *)
theory Go_Base64
  imports Go_Strings
begin

text \<open>
  \<^verbatim>\<open>base64.StdEncoding\<close>: padded encoding, and the non-strict decoder, which skips carriage
  returns and line feeds and ignores the unused bits of the last group.
\<close>

definition b64_char :: "nat \<Rightarrow> char" where
  "b64_char n =
     (if n < 26 then char_of (65 + n) else if n < 52 then char_of (71 + n)
      else if n < 62 then char_of (n - 4) else if n = 62 then CHR ''+'' else CHR ''/'')"

definition b64_val :: "char \<Rightarrow> nat option" where
  "b64_val c = (let n = of_char c :: nat in
     if 65 \<le> n \<and> n \<le> 90 then Some (n - 65) else if 97 \<le> n \<and> n \<le> 122 then Some (n - 71)
     else if 48 \<le> n \<and> n \<le> 57 then Some (n + 4) else if n = 43 then Some 62
     else if n = 47 then Some 63 else None)"

lemma b64_val_char [simp]: "n < 64 \<Longrightarrow> b64_val (b64_char n) = Some n"
  by (auto simp: b64_val_def b64_char_def Let_def)

lemma b64_val_pad [simp]: "b64_val (CHR ''='') = None"
  by (simp add: b64_val_def)

lemma b64_val_None [simp]: "b64_val (CHR 0x0A) = None" "b64_val (CHR 0x0D) = None"
  by (simp_all add: b64_val_def)

lemma b64_char_not [simp]:
  assumes "n < 64"
  shows "b64_char n \<noteq> CHR ''=''" "b64_char n \<noteq> CHR 0x0A" "b64_char n \<noteq> CHR 0x0D"
  using b64_val_char [OF assms] by (metis b64_val_pad b64_val_None option.distinct(1))+

lemma b64_bounds:
  assumes "a < 256" and "b < (256 :: nat)"
  shows "a div 4 < 64" "a mod 4 * 16 + b div 16 < 64" "a mod 16 * 4 + b div 64 < 64"
    "(a mod 4 * 16 + b div 16) div 16 = a mod 4" "(a mod 4 * 16 + b div 16) mod 16 = b div 16"
    "(a mod 16 * 4 + b div 64) div 4 = a mod 16" "(a mod 16 * 4 + b div 64) mod 4 = b div 64"
proof -
  have d: "b div 16 < 16" "b div 64 < 4" "a mod 4 < 4" "a mod 16 < 16" using assms by simp_all
  then show "a mod 4 * 16 + b div 16 < 64" "a mod 16 * 4 + b div 64 < 64" by linarith+
  show "a div 4 < 64" using assms by simp
  show "(a mod 4 * 16 + b div 16) div 16 = a mod 4" "(a mod 4 * 16 + b div 16) mod 16 = b div 16"
    "(a mod 16 * 4 + b div 64) div 4 = a mod 16" "(a mod 16 * 4 + b div 64) mod 4 = b div 64"
    using d by simp_all
qed

fun b64_enc :: "nat list \<Rightarrow> string" where
  "b64_enc [] = []"
| "b64_enc [a] = [b64_char (a div 4), b64_char (a mod 4 * 16), CHR ''='', CHR ''='']"
| "b64_enc [a, b] =
     [b64_char (a div 4), b64_char (a mod 4 * 16 + b div 16), b64_char (b mod 16 * 4), CHR ''='']"
| "b64_enc (a # b # c # r) =
     [b64_char (a div 4), b64_char (a mod 4 * 16 + b div 16), b64_char (b mod 16 * 4 + c div 64),
      b64_char (c mod 64)] @ b64_enc r"

fun b64_dec :: "string \<Rightarrow> nat list option" where
  "b64_dec [] = Some []"
| "b64_dec (w # x # y # z # r) =
     (case (b64_val w, b64_val x) of
        (Some a, Some b) \<Rightarrow>
          if y = CHR ''='' then (if z = CHR ''='' \<and> r = [] then Some [a * 4 + b div 16] else None)
          else (case b64_val y of
              None \<Rightarrow> None
            | Some c \<Rightarrow>
                if z = CHR ''='' then (if r = [] then Some [a * 4 + b div 16, b mod 16 * 16 + c div 4] else None)
                else (case (b64_val z, b64_dec r) of
                    (Some d, Some ds) \<Rightarrow>
                      Some ([a * 4 + b div 16, b mod 16 * 16 + c div 4, c mod 4 * 64 + d] @ ds)
                  | _ \<Rightarrow> None))
      | _ \<Rightarrow> None)"
| "b64_dec _ = None"

lemma b64_dec_enc: "\<forall>n \<in> set ns. n < 256 \<Longrightarrow> b64_dec (b64_enc ns) = Some ns"
proof (induction ns rule: b64_enc.induct)
  case (2 a)
  then have "a div 4 < 64" by simp
  then show ?case by simp
next
  case (3 a b)
  then have ab: "a < 256" "b < 256" by simp_all
  have "b div 16 * 16 + b mod 16 = b" by simp
  with ab b64_bounds [OF ab] show ?case by simp
next
  case (4 a b c r)
  then have lt: "a < 256" "b < 256" "c < 256" and IH: "b64_dec (b64_enc r) = Some r" by simp_all
  note ab = b64_bounds [OF lt(1,2)] and bc = b64_bounds [OF lt(2,3)]
  have v: "b64_val (b64_char (a div 4)) = Some (a div 4)"
    "b64_val (b64_char (a mod 4 * 16 + b div 16)) = Some (a mod 4 * 16 + b div 16)"
    "b64_val (b64_char (b mod 16 * 4 + c div 64)) = Some (b mod 16 * 4 + c div 64)"
    "b64_val (b64_char (c mod 64)) = Some (c mod 64)"
    using ab(1,2) bc(3) by simp_all
  have n: "b64_char (b mod 16 * 4 + c div 64) \<noteq> CHR ''=''" "b64_char (c mod 64) \<noteq> CHR ''=''"
    using bc(3) by simp_all
  have e: "a div 4 * 4 + a mod 4 = a" "b div 16 * 16 + b mod 16 = b" "c div 64 * 64 + c mod 64 = c"
    by (simp_all only: div_mult_mod_eq)
  show ?case
    by (simp only: b64_enc.simps append.simps b64_dec.simps v n prod.case option.case if_False
        IH ab(4,5) bc(6,7) e)
qed simp

lemma b64_enc_clean: "\<forall>n \<in> set ns. n < 256 \<Longrightarrow> c \<in> set (b64_enc ns) \<Longrightarrow> c = CHR ''='' \<or> b64_val c \<noteq> None"
proof (induction ns rule: b64_enc.induct)
  case (2 a)
  then show ?case by auto
next
  case (3 a b)
  then have "b64_val (b64_char (a mod 4 * 16 + b div 16)) \<noteq> None" using b64_bounds(2) [of a b] by simp
  with 3 show ?case by auto
next
  case (4 a b x r)
  then have "b64_val (b64_char (a mod 4 * 16 + b div 16)) \<noteq> None"
    "b64_val (b64_char (b mod 16 * 4 + x div 64)) \<noteq> None"
    using b64_bounds(2) [of a b] b64_bounds(3) [of b x] by simp_all
  with 4 show ?case by auto
qed simp

definition base64_EncodeToString :: "bytes \<Rightarrow> string" where
  "base64_EncodeToString bs = b64_enc (map unat bs)"

definition base64_DecodeString :: "string \<Rightarrow> bytes option" where
  "base64_DecodeString s =
     map_option (map of_nat) (b64_dec (filter (\<lambda>c. c \<noteq> CHR 0x0A \<and> c \<noteq> CHR 0x0D) s))"

lemma base64_Decode_Encode [simp]: "base64_DecodeString (base64_EncodeToString bs) = Some bs"
proof -
  have b: "\<forall>n \<in> set (map unat bs). n < 256" by (auto simp: unat_byte_less)
  have f: "filter (\<lambda>c. c \<noteq> CHR 0x0A \<and> c \<noteq> CHR 0x0D) (b64_enc (map unat bs)) = b64_enc (map unat bs)"
    using b64_enc_clean [OF b, of "CHR 0x0A"] b64_enc_clean [OF b, of "CHR 0x0D"]
    by (auto simp: filter_id_conv)
  show ?thesis
    unfolding base64_DecodeString_def base64_EncodeToString_def f b64_dec_enc [OF b]
    by (simp add: map_idI)
qed

lemma base64_Encode_nonempty: "bs \<noteq> [] \<Longrightarrow> base64_EncodeToString bs \<noteq> ''''"
  by (cases "map unat bs" rule: b64_enc.cases) (auto simp: base64_EncodeToString_def)

lemma base64_Encode_inject [simp]: "base64_EncodeToString as = base64_EncodeToString bs \<longleftrightarrow> as = bs"
  by (metis base64_Decode_Encode option.inject)

end
