(* ===== verification/Crypto.thy ===== *)
theory Crypto
  imports Go_Base64
begin

text \<open>
  The cryptographic primitives are a parameter: a record of functions that every definition using
  them takes as its first argument. Their documented behaviour is stated by the predicates below and
  appears as a named hypothesis of the theorems that need it; collision resistance and
  unforgeability are never assumed (theorems about hashes exhibit the colliding inputs instead).
  HMAC is not one of them: it is defined over the hash where it is used.
\<close>

record prims =
  sha256_Sum256 :: "bytes \<Rightarrow> bytes"
  ed25519_Sign :: "bytes \<Rightarrow> bytes \<Rightarrow> bytes" \<comment> \<open>private key, message\<close>
  ed25519_Verify :: "bytes \<Rightarrow> bytes \<Rightarrow> bytes \<Rightarrow> bool" \<comment> \<open>public key, message, signature\<close>
  curve25519_X25519 :: "bytes \<Rightarrow> bytes \<Rightarrow> bytes option" \<comment> \<open>scalar, point; an error on a low-order point\<close>
  gcm_Seal :: "bytes \<Rightarrow> bytes \<Rightarrow> bytes \<Rightarrow> bytes \<Rightarrow> bytes" \<comment> \<open>key, nonce, additional data, plaintext\<close>
  gcm_Open :: "bytes \<Rightarrow> bytes \<Rightarrow> bytes \<Rightarrow> bytes \<Rightarrow> bytes option" \<comment> \<open>key, nonce, additional data, ciphertext\<close>
  hkdf_Read :: "bytes \<Rightarrow> bytes \<Rightarrow> bytes \<Rightarrow> nat \<Rightarrow> bytes option" \<comment> \<open>secret, salt, info, bytes to read\<close>

definition ed25519_PublicKeySize :: nat where "ed25519_PublicKeySize = 32"
definition ed25519_PrivateKeySize :: nat where "ed25519_PrivateKeySize = 64"
definition ed25519_SignatureSize :: nat where "ed25519_SignatureSize = 64"

text \<open>A signature made with the private key has 64 bytes and verifies under the public key.\<close>

definition ed25519_pair :: "prims \<Rightarrow> bytes \<Rightarrow> bytes \<Rightarrow> bool" where
  "ed25519_pair P priv pub \<longleftrightarrow>
     (\<forall>m. length (ed25519_Sign P priv m) = ed25519_SignatureSize
        \<and> ed25519_Verify P pub m (ed25519_Sign P priv m))"

definition sha256_size :: "prims \<Rightarrow> bool" where
  "sha256_size P \<longleftrightarrow> (\<forall>m. length (sha256_Sum256 P m) = 32)"

text \<open>AES-GCM opens what it sealed under the same key, nonce and additional data.\<close>

definition gcm_correct :: "prims \<Rightarrow> bool" where
  "gcm_correct P \<longleftrightarrow> (\<forall>k n a m. gcm_Open P k n a (gcm_Seal P k n a m) = Some m
      \<and> length (gcm_Seal P k n a m) = length m + 16)"

text \<open>Diffie-Hellman: the two sides of an exchange compute the same shared secret.\<close>

definition dh_agree :: "prims \<Rightarrow> bytes \<Rightarrow> bytes \<Rightarrow> bytes \<Rightarrow> bytes \<Rightarrow> bool" where
  "dh_agree P a A b B \<longleftrightarrow>
     length A = 32 \<and> length B = 32 \<and> curve25519_X25519 P a B \<noteq> None
     \<and> curve25519_X25519 P a B = curve25519_X25519 P b A"

text \<open>
  A small instance for the examples: a checksum, constant signatures, and a seal that appends a
  constant tag. It satisfies the predicates above.
\<close>

definition demo_sum :: "bytes \<Rightarrow> byte" where
  "demo_sum m = foldl (\<lambda>a b. a * 3 + b) 7 m"

definition demo_prims :: prims where
  "demo_prims =
    \<lparr>sha256_Sum256 = (\<lambda>m. replicate 31 (of_nat (length m)) @ [demo_sum m]),
     ed25519_Sign = (\<lambda>k m. replicate 64 1),
     ed25519_Verify = (\<lambda>k m s. s = replicate 64 1),
     curve25519_X25519 = (\<lambda>a b. Some (replicate 32 1)),
     gcm_Seal = (\<lambda>k n a m. m @ replicate 16 9),
     gcm_Open = (\<lambda>k n a c. if 16 \<le> length c \<and> drop (length c - 16) c = replicate 16 9
                  then Some (take (length c - 16) c) else None),
     hkdf_Read = (\<lambda>s salt info n. Some (replicate n 5))\<rparr>"

lemma demo_prims_ok [simp]:
  "ed25519_pair demo_prims priv pub" "sha256_size demo_prims" "gcm_correct demo_prims"
  "length A = 32 \<Longrightarrow> length B = 32 \<Longrightarrow> dh_agree demo_prims a A b B"
  by (simp_all add: demo_prims_def ed25519_pair_def sha256_size_def gcm_correct_def dh_agree_def
      ed25519_SignatureSize_def)

end
