(* ===== verification/Go_Json.thy ===== *)
theory Go_Json
  imports Go_Strings
begin

text \<open>
  \<^verbatim>\<open>encoding/json\<close>: the encoder (\<^verbatim>\<open>json.Marshal\<close>) that the attestation code hashes and signs.
  A struct is printed as an object with its fields in declaration order, a map with its keys
  sorted; strings are escaped with the encoder's HTML escaping on and invalid UTF-8 replaced.
  The encoder is injective on ASCII text (\<open>json_print_inject\<close>), which is what makes a hash or a
  signature over the encoding cover every field.
\<close>

datatype json = JNull | JBool bool | JInt int | JStr string | JArr "json list"
  | JObj "(string \<times> json) list"

subsection \<open>Strings\<close>

definition esc_ascii :: "char \<Rightarrow> string" where
  "esc_ascii c =
     (if c = CHR 0x22 \<or> c = CHR 0x5C then [CHR 0x5C, c]
      else if c = CHR 0x08 then [CHR 0x5C, CHR ''b''] else if c = CHR 0x0C then [CHR 0x5C, CHR ''f'']
      else if c = CHR 0x0A then [CHR 0x5C, CHR ''n''] else if c = CHR 0x0D then [CHR 0x5C, CHR ''r'']
      else if c = CHR 0x09 then [CHR 0x5C, CHR ''t'']
      else if (of_char c :: nat) < 32 \<or> c = CHR ''<'' \<or> c = CHR ''>'' \<or> c = CHR ''&''
      then [CHR 0x5C, CHR ''u'', CHR ''0'', CHR ''0''] @ hex_byte (char_byte c)
      else [c])"

text \<open>\<^verbatim>\<open>utf8.DecodeRuneInString\<close>: the length of the encoded rune at the front, 0 where it is invalid.\<close>

definition in_range :: "nat \<Rightarrow> nat \<Rightarrow> char \<Rightarrow> bool" where
  "in_range lo hi c \<longleftrightarrow> lo \<le> of_char c \<and> of_char c \<le> hi"

definition utf8_len :: "string \<Rightarrow> nat" where
  "utf8_len s = (case s of [] \<Rightarrow> 0 | c # r \<Rightarrow>
     (let b = (of_char c :: nat);
          lo = (if b = 0xE0 then 0xA0 else if b = 0xF0 then 0x90 else 0x80);
          hi = (if b = 0xED then 0x9F else if b = 0xF4 then 0x8F else 0xBF);
          n = (if b < 0x80 then 1 else if 0xC2 \<le> b \<and> b \<le> 0xDF then 2
               else if 0xE0 \<le> b \<and> b \<le> 0xEF then 3 else if 0xF0 \<le> b \<and> b \<le> 0xF4 then 4 else 0 :: nat);
          t = take (n - 1) r
      in if n = 0 \<or> length t < n - 1 then 0
         else if t = [] then n
         else if in_range lo hi (hd t) \<and> list_all (in_range 0x80 0xBF) (tl t) then n else 0))"

fun json_escape :: "string \<Rightarrow> string" where
  "json_escape [] = []"
| "json_escape (c # s) =
     (if (of_char c :: nat) < 128 then esc_ascii c @ json_escape s
      else let n = utf8_len (c # s); rune = take n (c # s) in
        if n = 0 then [CHR 0x5C] @ ''ufffd'' @ json_escape s
        else (if rune = [CHR 0xE2, CHR 0x80, CHR 0xA8] then [CHR 0x5C] @ ''u2028''
              else if rune = [CHR 0xE2, CHR 0x80, CHR 0xA9] then [CHR 0x5C] @ ''u2029''
              else rune) @ json_escape (drop (n - 1) s))"

definition json_quote :: "string \<Rightarrow> string" where
  "json_quote s = [CHR 0x22] @ json_escape s @ [CHR 0x22]"

fun json_print :: "json \<Rightarrow> string" where
  "json_print JNull = ''null''"
| "json_print (JBool b) = strconv_FormatBool b"
| "json_print (JInt n) = itoa n"
| "json_print (JStr s) = json_quote s"
| "json_print (JArr xs) = ''['' @ strings_Join '','' (map json_print xs) @ '']''"
| "json_print (JObj kvs) =
     ''{'' @ strings_Join '','' (map (\<lambda>(k, v). json_quote k @ '':'' @ json_print v) kvs) @ ''}''"

subsection \<open>The encoder is injective on ASCII text\<close>

definition is_ascii :: "string \<Rightarrow> bool" where
  "is_ascii s \<longleftrightarrow> list_all (\<lambda>c. (of_char c :: nat) < 128) s"

lemma is_ascii_simps [simp]:
  "is_ascii []" "is_ascii (c # s) \<longleftrightarrow> (of_char c :: nat) < 128 \<and> is_ascii s"
  "is_ascii (s @ t) \<longleftrightarrow> is_ascii s \<and> is_ascii t"
  by (simp_all add: is_ascii_def)

lemma esc_ascii_inject:
  assumes "esc_ascii c @ u = esc_ascii d @ v"
  shows "c = d \<and> u = v"
proof -
  have hex: "hex_byte (char_byte c) @ u = hex_byte (char_byte d) @ v \<Longrightarrow> c = d \<and> u = v"
    by (metis append_eq_append_conv char_byte_inject hex_byte_inject hex_byte_length)
  from assms show ?thesis
    unfolding esc_ascii_def by (simp split: if_splits; blast dest: hex)
qed

lemma esc_ascii_not_quote: "esc_ascii c @ u \<noteq> CHR 0x22 # v"
  by (auto simp: esc_ascii_def)

lemma json_escape_inject:
  "is_ascii s \<Longrightarrow> is_ascii t \<Longrightarrow> json_escape s @ CHR 0x22 # u = json_escape t @ CHR 0x22 # v
    \<Longrightarrow> s = t \<and> u = v"
proof (induction s arbitrary: t)
  case Nil
  then show ?case
    by (cases t) (auto dest: esc_ascii_not_quote [symmetric, THEN notE, rotated])
next
  case (Cons c s)
  show ?case
  proof (cases t)
    case Nil
    with Cons.prems show ?thesis using esc_ascii_not_quote by auto
  next
    case (Cons d t')
    with Cons.prems have "esc_ascii c @ (json_escape s @ CHR 0x22 # u) = esc_ascii d @ (json_escape t' @ CHR 0x22 # v)"
      by simp
    from esc_ascii_inject [OF this] Cons.prems Cons.IH [of t'] Cons show ?thesis by simp
  qed
qed

lemma json_quote_inject:
  "is_ascii s \<Longrightarrow> is_ascii t \<Longrightarrow> json_quote s @ u = json_quote t @ v \<Longrightarrow> s = t \<and> u = v"
  by (auto simp: json_quote_def dest: json_escape_inject)

text \<open>A value in context is followed by nothing, a comma or a closing bracket.\<close>

definition stop :: "string \<Rightarrow> bool" where
  "stop r \<longleftrightarrow> r = [] \<or> hd r \<in> {CHR '','', CHR '']'', CHR ''}''}"

lemma stop_simps [simp]:
  "stop []" "stop (c # r) \<longleftrightarrow> c \<in> {CHR '','', CHR '']'', CHR ''}''}"
  by (simp_all add: stop_def)

definition num_char :: "char \<Rightarrow> bool" where
  "num_char c \<longleftrightarrow> is_digit c \<or> c = CHR ''-''"

lemma num_char_not [simp]:
  "\<not> num_char (CHR '','')" "\<not> num_char (CHR '']'')" "\<not> num_char (CHR ''}'')" "\<not> num_char (CHR 0x22)"
  "\<not> num_char (CHR ''n'')" "\<not> num_char (CHR ''t'')" "\<not> num_char (CHR ''f'')" "\<not> num_char (CHR ''['')"
  "\<not> num_char (CHR ''{'')"
  by (simp_all add: num_char_def is_digit_def)

lemma itoa_num_chars: "c \<in> set (itoa n) \<Longrightarrow> num_char c"
  by (auto simp: itoa_def num_char_def dest: dec_nat_digits split: if_splits)

lemma itoa_not_Nil [simp]: "itoa n \<noteq> []"
  by (simp add: itoa_def)

lemma itoa_stop_inject:
  assumes "itoa m @ r = itoa n @ r'" and "stop r" and "stop r'"
  shows "m = n \<and> r = r'"
proof -
  have tw: "takeWhile num_char (itoa k @ q) = itoa k" if "stop q" for k q
    using that itoa_num_chars [of _ k]
    by (cases q) (auto simp: takeWhile_append takeWhile_eq_all_conv [THEN iffD2])
  from assms have "itoa m = itoa n" by (metis tw)
  with assms(1) show ?thesis by simp
qed

lemma strings_Join_Cons: "strings_Join [d] (x # xs) = x @ concat (map (\<lambda>y. d # y) xs)"
  by (induction xs arbitrary: x) auto

text \<open>A comma-separated sequence determines its elements if each element is determined in context.\<close>

lemma sep_list_inject:
  assumes elem: "\<And>x y r r'. x \<in> set xs \<Longrightarrow> y \<in> set ys \<Longrightarrow> f x @ r = f y @ r' \<Longrightarrow> stop r \<Longrightarrow> stop r'
        \<Longrightarrow> x = y \<and> r = r'"
    and close: "e \<in> {CHR '']'', CHR ''}''}" and start: "\<And>x q. f x \<noteq> e # q \<and> f x \<noteq> []"
    and eq: "strings_Join '','' (map f xs) @ e # r = strings_Join '','' (map f ys) @ e # r'"
  shows "xs = ys \<and> r = r'"
proof -
  define tl where "tl zs = concat (map (\<lambda>z. CHR '','' # f z) zs)" for zs
  have stop_tl: "stop (tl zs @ e # q)" for zs q
    using close by (cases zs) (auto simp: tl_def)
  have tl_eq: "xs' = ys' \<and> r = r'"
    if "tl xs' @ e # r = tl ys' @ e # r'" "set xs' \<subseteq> set xs" "set ys' \<subseteq> set ys" for xs' ys'
    using that
  proof (induction xs' arbitrary: ys')
    case Nil
    then show ?case using close by (cases ys') (auto simp: tl_def)
  next
    case (Cons x xs')
    obtain y ys'' where ys': "ys' = y # ys''"
      using Cons.prems(1) close by (cases ys') (auto simp: tl_def)
    then have "f x @ (tl xs' @ e # r) = f y @ (tl ys'' @ e # r')"
      using Cons.prems(1) by (simp add: tl_def)
    from elem [OF _ _ this stop_tl stop_tl] Cons.prems(2,3) ys'
    have "x = y" "tl xs' @ e # r = tl ys'' @ e # r'" by simp_all
    with Cons.IH [of ys''] Cons.prems ys' show ?case by simp
  qed
  have join: "strings_Join '','' (map f (z # zs)) = f z @ tl zs" for z zs
    by (simp add: strings_Join_Cons tl_def comp_def)
  show ?thesis
  proof (cases xs)
    case Nil
    show ?thesis
    proof (cases ys)
      case Nil
      with eq \<open>xs = []\<close> show ?thesis by simp
    next
      case (Cons y ys')
      with eq \<open>xs = []\<close> have "e # r = f y @ (tl ys' @ e # r')" by (simp add: join del: list.map(2))
      then obtain q where "f y = [] \<or> f y = e # q" by (metis Cons_eq_append_conv)
      with start [of y q] show ?thesis by blast
    qed
  next
    case (Cons x xs')
    obtain y ys' where ys: "ys = y # ys'"
    proof (cases ys)
      case Nil
      with eq Cons have "f x @ (tl xs' @ e # r) = e # r'" by (simp add: join del: list.map(2))
      then obtain q where "f x = [] \<or> f x = e # q" by (metis append_eq_Cons_conv)
      with start [of x q] show ?thesis by blast
    qed
    from eq have "f x @ (tl xs' @ e # r) = f y @ (tl ys' @ e # r')"
      by (simp add: Cons ys join del: list.map)
    from elem [OF _ _ this stop_tl stop_tl] Cons ys
    have "x = y" "tl xs' @ e # r = tl ys' @ e # r'" by simp_all
    with tl_eq [of xs' ys'] Cons ys show ?thesis by auto
  qed
qed

fun json_ok :: "json \<Rightarrow> bool" where
  "json_ok (JStr s) = is_ascii s"
| "json_ok (JArr xs) = list_all json_ok xs"
| "json_ok (JObj kvs) = list_all (\<lambda>(k, v). is_ascii k \<and> json_ok v) kvs"
| "json_ok _ = True"

lemma json_print_start:
  "json_print v \<noteq> []" "json_print v \<noteq> CHR '']'' # q" "json_print v \<noteq> CHR ''}'' # q"
proof -
  have "hd (json_print v) \<notin> {CHR '']'', CHR ''}''} \<and> json_print v \<noteq> []"
  proof (cases v)
    case (JInt n)
    obtain c s where "itoa n = c # s" by (cases "itoa n") auto
    with itoa_num_chars [of c n] JInt show ?thesis by auto
  qed (auto simp: strconv_FormatBool_def json_quote_def)
  then show "json_print v \<noteq> []" "json_print v \<noteq> CHR '']'' # q" "json_print v \<noteq> CHR ''}'' # q"
    by auto
qed

text \<open>The first byte of a printed value tells its constructor.\<close>

fun json_tag :: "json \<Rightarrow> nat" where
  "json_tag JNull = 0" | "json_tag (JBool b) = 1" | "json_tag (JInt n) = 2" | "json_tag (JStr s) = 3"
| "json_tag (JArr xs) = 4" | "json_tag (JObj kvs) = 5"

definition char_tag :: "char \<Rightarrow> nat" where
  "char_tag c = (if c = CHR ''n'' then 0 else if c = CHR ''t'' \<or> c = CHR ''f'' then 1
     else if c = CHR 0x22 then 3 else if c = CHR ''['' then 4 else if c = CHR ''{'' then 5 else 2)"

lemma char_tag_num: "num_char c \<Longrightarrow> char_tag c = 2"
  by (auto simp: char_tag_def)

lemma char_tag_print: "char_tag (hd (json_print v @ r)) = json_tag v"
proof (cases v)
  case (JInt n)
  then show ?thesis
    using itoa_num_chars [of _ n] by (cases "itoa n") (auto intro: char_tag_num)
qed (simp_all add: strconv_FormatBool_def json_quote_def char_tag_def)

lemma json_print_tag: "json_print v @ r = json_print w @ r' \<Longrightarrow> json_tag w = json_tag v"
  by (metis char_tag_print)

lemma json_print_inject_stop:
  "json_ok v \<Longrightarrow> json_ok w \<Longrightarrow> json_print v @ r = json_print w @ r' \<Longrightarrow> stop r \<Longrightarrow> stop r'
    \<Longrightarrow> v = w \<and> r = r'"
proof (induction v arbitrary: w r r')
  case JNull
  then show ?case using json_print_tag [of JNull r w r'] by (cases w) auto
next
  case (JBool b)
  then obtain b' where "w = JBool b'" using json_print_tag [of "JBool b" r w r'] by (cases w) auto
  with JBool show ?case by (cases b; cases b') (auto simp: strconv_FormatBool_def)
next
  case (JInt n)
  then obtain n' where "w = JInt n'" using json_print_tag [of "JInt n" r w r'] by (cases w) auto
  with JInt show ?case using itoa_stop_inject [of n r n' r'] by simp
next
  case (JStr s)
  then obtain s' where "w = JStr s'" using json_print_tag [of "JStr s" r w r'] by (cases w) auto
  with JStr show ?case using json_quote_inject [of s s' r r'] by simp
next
  case (JArr xs)
  then obtain ys where w: "w = JArr ys" using json_print_tag [of "JArr xs" r w r'] by (cases w) auto
  have "xs = ys \<and> r = r'"
  proof (rule sep_list_inject [where f = json_print and e = "CHR '']''"])
    show "strings_Join '','' (map json_print xs) @ CHR '']'' # r = strings_Join '','' (map json_print ys) @ CHR '']'' # r'"
      using JArr.prems(3) w by simp
    fix x y q q'
    assume "x \<in> set xs" "y \<in> set ys" "json_print x @ q = json_print y @ q'" "stop q" "stop q'"
    then show "x = y \<and> q = q'"
      using JArr.IH [of x y q q'] JArr.prems(1,2) w by (simp add: list_all_iff)
  qed (use json_print_start in auto)
  with w show ?case by simp
next
  case (JObj kvs)
  then obtain lws where w: "w = JObj lws" using json_print_tag [of "JObj kvs" r w r'] by (cases w) auto
  let ?f = "\<lambda>(k, v). json_quote k @ '':'' @ json_print v"
  have "kvs = lws \<and> r = r'"
  proof (rule sep_list_inject [where f = ?f and e = "CHR ''}''"])
    show "strings_Join '','' (map ?f kvs) @ CHR ''}'' # r = strings_Join '','' (map ?f lws) @ CHR ''}'' # r'"
      using JObj.prems(3) w by simp
    fix x y q q'
    assume x: "x \<in> set kvs" and y: "y \<in> set lws" and eq: "?f x @ q = ?f y @ q'" and st: "stop q" "stop q'"
    obtain k v l u where xy: "x = (k, v)" "y = (l, u)" by (cases x, cases y) auto
    have ok: "is_ascii k" "json_ok v" "is_ascii l" "json_ok u"
      using JObj.prems(1,2) w x y xy by (auto simp: list_all_iff)
    have "json_quote k @ (CHR '':'' # json_print v @ q) = json_quote l @ (CHR '':'' # json_print u @ q')"
      using eq xy by simp
    from json_quote_inject [OF ok(1,3) this] have "k = l" "json_print v @ q = json_print u @ q'" by simp_all
    with JObj.IH [of x v u q q'] x xy ok st show "x = y \<and> q = q'" by simp
  qed (auto simp: json_quote_def)
  with w show ?case by simp
qed

lemma json_print_inject:
  "json_ok v \<Longrightarrow> json_ok w \<Longrightarrow> json_print v = json_print w \<Longrightarrow> v = w"
  using json_print_inject_stop [of v w "[]" "[]"] by simp

subsection \<open>Struct and map fields\<close>

text \<open>A field with the \<^verbatim>\<open>omitempty\<close> option, left out when it holds its zero value.\<close>

definition omit :: "bool \<Rightarrow> string \<Rightarrow> json \<Rightarrow> (string \<times> json) list" where
  "omit zero k v = (if zero then [] else [(k, v)])"

lemma map_of_omit_append: "map_of (omit z k v @ r) l = (if l = k \<and> \<not> z then Some v else map_of r l)"
  by (simp add: omit_def)

text \<open>A \<^verbatim>\<open>map[string]string\<close> is printed with its keys sorted.\<close>

definition json_smap :: "string smap \<Rightarrow> json" where
  "json_smap m = JObj (map (\<lambda>(k, v). (k, JStr v)) (sort_key fst m))"

end
