(* ===== verification/Protocol.thy ===== *)
theory Protocol
  imports Go_Json
begin

text \<open>
  The wire structures of \<^verbatim>\<open>common/protocol/protocol.go\<close>, one record per struct with the source's
  field names behind a two-letter prefix, and the JSON encodings of the structs that are hashed
  or signed. A pointer field is an option; \<^verbatim>\<open>CapacityToken.Scope\<close> is an option because its encoding
  tells a nil slice from an empty one; \<^verbatim>\<open>Metadata\<close> is an option because the code tests it for nil.
\<close>

record AccessPayload =
  ap_ServiceID :: string
  ap_ClientInSPI :: string
  ap_ClientDHPub :: string
  ap_AEADSuites :: "string list"

record EnforcementEvent =
  ev_Version :: int
  ev_Index :: u64
  ev_EventType :: string
  ev_PEPID :: string
  ev_Timestamp :: string
  ev_ServiceID :: string
  ev_ClientPubKey :: string
  ev_ClientOuterIP :: string
  ev_ClientInnerIP :: string
  ev_ClientInSPI :: string
  ev_PEPInSPI :: string
  ev_ReqID :: u32
  ev_Observed :: bool
  ev_XFRMMode :: string
  ev_XFRMPlanHash :: string
  ev_Metadata :: "string smap option"
  ev_PrevHash :: string
  ev_EventHash :: string

record EnforcementCheckpoint =
  cp_Version :: int
  cp_PEPID :: string
  cp_Epoch :: u64
  cp_PreviousCheckpointHash :: string
  cp_LastEventIndex :: u64
  cp_LastEventHash :: string
  cp_EventCount :: int
  cp_CreatedAt :: string
  cp_Signature :: string

record HistoryEvidence =
  he_PreviousCheckpointHash :: string
  he_Events :: "EnforcementEvent list"
  he_Checkpoint :: EnforcementCheckpoint

record CapacityRequest =
  cr_PEPID :: string
  cr_PEPSigningPubKey :: string
  cr_Measurement :: string
  cr_PolicyHash :: string
  cr_Scope :: "string list"
  cr_MaxSALifetime :: int
  cr_History :: "HistoryEvidence option"

record CapacityToken =
  ct_Version :: int
  ct_TokenType :: string
  ct_VerifierID :: string
  ct_PEPID :: string
  ct_PEPSigningPubKey :: string
  ct_Measurement :: string
  ct_PolicyHash :: string
  ct_Scope :: "string list option"
  ct_IssuedAt :: string
  ct_ExpiresAt :: string
  ct_MaxSALifetime :: int
  ct_ObserverProfile :: string
  ct_CheckpointHash :: string
  ct_HistoryEpoch :: u64
  ct_Signature :: string

record SABinding =
  sb_Version :: int
  sb_TokenHash :: string
  sb_PEPID :: string
  sb_ClientPubKey :: string
  sb_ServiceID :: string
  sb_ServiceIP :: string
  sb_ClientInnerIP :: string
  sb_ClientInSPI :: string
  sb_PEPInSPI :: string
  sb_ClientDHPub :: string
  sb_PEPDHPub :: string
  sb_AEAD :: string
  sb_SALifetime :: int
  sb_ExpiresAt :: string
  sb_Signature :: string

record ActivateRequest =
  ar_ClientPubKey :: string
  ar_ClientOuterIP :: string
  ar_ServiceID :: string
  ar_ClientInSPI :: string
  ar_ClientDHPub :: string
  ar_AEADSuites :: "string list"

record PEPActivationResponse =
  pr_ServiceID :: string
  pr_ServiceIP :: string
  pr_ClientInnerIP :: string
  pr_ClientInSPI :: string
  pr_PEPInSPI :: string
  pr_PEPDHPub :: string
  pr_AEAD :: string
  pr_SALifetime :: int
  pr_ExpiresAt :: string
  pr_CapacityToken :: "CapacityToken option"
  pr_SABinding :: "SABinding option"

record TunnelParams =
  tp_ServiceID :: string
  tp_ServiceIP :: string
  tp_PEPAddress :: string
  tp_PEPPort :: int
  tp_ClientInnerIP :: string
  tp_ClientInSPI :: string
  tp_PEPInSPI :: string
  tp_PEPDHPub :: string
  tp_AEAD :: string
  tp_SALifetime :: int
  tp_ExpiresAt :: string
  tp_CapacityToken :: "CapacityToken option"
  tp_SABinding :: "SABinding option"

record AccessResponse =
  rs_Authorized :: bool
  rs_Reason :: string
  rs_Tunnel :: "TunnelParams option"

record ClientInfo =
  ci_ClientPubKey :: string
  ci_PSK :: string
  ci_AllowedServices :: "string list"
  ci_Revoked :: bool

record XFRMPlan =
  xp_Mode :: string
  xp_Commands :: "string list"
  xp_DeleteCommands :: "string list"

record Session =
  ss_ClientPubKey :: string
  ss_ServiceID :: string
  ss_ReqID :: u32
  ss_ClientInSPI :: string
  ss_PEPInSPI :: string
  ss_ClientOuterIP :: string
  ss_ClientInnerIP :: string
  ss_PEPOuterIP :: string
  ss_ServiceIP :: string
  ss_NATTPort :: int
  ss_ClientDHPub :: string
  ss_PEPDHPub :: string
  ss_AEAD :: string
  ss_C2PKey :: string
  ss_P2CKey :: string
  ss_ExpiresAt :: string
  ss_XFRM :: XFRMPlan

definition slice :: "'a list option \<Rightarrow> 'a list" where
  "slice s = (case s of None \<Rightarrow> [] | Some xs \<Rightarrow> xs)"

lemma slice_simps [simp]: "slice None = []" "slice (Some xs) = xs"
  by (simp_all add: slice_def)

text \<open>\<^verbatim>\<open>e.Metadata[k]\<close>: a missing key, and every key of a nil map, reads as the empty string.\<close>

definition meta :: "EnforcementEvent \<Rightarrow> string \<Rightarrow> string" where
  "meta e k = mget (slice (ev_Metadata e)) k"

subsection \<open>Encodings\<close>

definition json_strs :: "string list \<Rightarrow> json" where
  "json_strs xs = JArr (map JStr xs)"

definition event_json :: "EnforcementEvent \<Rightarrow> json" where
  "event_json e = JObj (
     [(''version'', JInt (ev_Version e)), (''index'', JInt (uint (ev_Index e))),
      (''event_type'', JStr (ev_EventType e)), (''pep_id'', JStr (ev_PEPID e)),
      (''timestamp'', JStr (ev_Timestamp e))]
     @ omit (ev_ServiceID e = '''') ''service_id'' (JStr (ev_ServiceID e))
     @ omit (ev_ClientPubKey e = '''') ''client_pubkey'' (JStr (ev_ClientPubKey e))
     @ omit (ev_ClientOuterIP e = '''') ''client_outer_ip'' (JStr (ev_ClientOuterIP e))
     @ omit (ev_ClientInnerIP e = '''') ''client_inner_ip'' (JStr (ev_ClientInnerIP e))
     @ omit (ev_ClientInSPI e = '''') ''client_in_spi'' (JStr (ev_ClientInSPI e))
     @ omit (ev_PEPInSPI e = '''') ''pep_in_spi'' (JStr (ev_PEPInSPI e))
     @ omit (ev_ReqID e = 0) ''reqid'' (JInt (uint (ev_ReqID e)))
     @ omit (\<not> ev_Observed e) ''observed'' (JBool (ev_Observed e))
     @ omit (ev_XFRMMode e = '''') ''xfrm_mode'' (JStr (ev_XFRMMode e))
     @ omit (ev_XFRMPlanHash e = '''') ''xfrm_plan_hash'' (JStr (ev_XFRMPlanHash e))
     @ omit (slice (ev_Metadata e) = []) ''metadata'' (json_smap (slice (ev_Metadata e)))
     @ [(''prev_hash'', JStr (ev_PrevHash e)), (''event_hash'', JStr (ev_EventHash e))])"

definition checkpoint_json :: "EnforcementCheckpoint \<Rightarrow> json" where
  "checkpoint_json c = JObj
     [(''version'', JInt (cp_Version c)), (''pep_id'', JStr (cp_PEPID c)),
      (''epoch'', JInt (uint (cp_Epoch c))),
      (''previous_checkpoint_hash'', JStr (cp_PreviousCheckpointHash c)),
      (''last_event_index'', JInt (uint (cp_LastEventIndex c))),
      (''last_event_hash'', JStr (cp_LastEventHash c)), (''event_count'', JInt (cp_EventCount c)),
      (''created_at'', JStr (cp_CreatedAt c)), (''pep_signature'', JStr (cp_Signature c))]"

definition token_json :: "CapacityToken \<Rightarrow> json" where
  "token_json t = JObj (
     [(''version'', JInt (ct_Version t)), (''token_type'', JStr (ct_TokenType t)),
      (''verifier_id'', JStr (ct_VerifierID t)), (''pep_id'', JStr (ct_PEPID t)),
      (''pep_signing_pubkey'', JStr (ct_PEPSigningPubKey t)),
      (''measurement'', JStr (ct_Measurement t)), (''policy_hash'', JStr (ct_PolicyHash t)),
      (''scope'', case ct_Scope t of None \<Rightarrow> JNull | Some xs \<Rightarrow> json_strs xs),
      (''iat'', JStr (ct_IssuedAt t)), (''exp'', JStr (ct_ExpiresAt t)),
      (''max_sa_lifetime_seconds'', JInt (ct_MaxSALifetime t)),
      (''observer_profile'', JStr (ct_ObserverProfile t))]
     @ omit (ct_CheckpointHash t = '''') ''checkpoint_hash'' (JStr (ct_CheckpointHash t))
     @ omit (ct_HistoryEpoch t = 0) ''history_epoch'' (JInt (uint (ct_HistoryEpoch t)))
     @ [(''verifier_signature'', JStr (ct_Signature t))])"

definition binding_json :: "SABinding \<Rightarrow> json" where
  "binding_json b = JObj
     [(''version'', JInt (sb_Version b)), (''token_hash'', JStr (sb_TokenHash b)),
      (''pep_id'', JStr (sb_PEPID b)), (''client_pubkey'', JStr (sb_ClientPubKey b)),
      (''service_id'', JStr (sb_ServiceID b)), (''service_ip'', JStr (sb_ServiceIP b)),
      (''client_inner_ip'', JStr (sb_ClientInnerIP b)), (''client_in_spi'', JStr (sb_ClientInSPI b)),
      (''pep_in_spi'', JStr (sb_PEPInSPI b)), (''client_dh_pub'', JStr (sb_ClientDHPub b)),
      (''pep_dh_pub'', JStr (sb_PEPDHPub b)), (''aead'', JStr (sb_AEAD b)),
      (''sa_lifetime_seconds'', JInt (sb_SALifetime b)), (''expires_at'', JStr (sb_ExpiresAt b)),
      (''pep_signature'', JStr (sb_Signature b))]"

definition plan_json :: "XFRMPlan \<Rightarrow> json" where
  "plan_json p = JObj (
     [(''mode'', JStr (xp_Mode p)), (''commands'', json_strs (xp_Commands p))]
     @ omit (xp_DeleteCommands p = []) ''delete_commands'' (json_strs (xp_DeleteCommands p)))"

subsection \<open>The encodings determine the structs\<close>

lemma json_strs_inject [simp]: "json_strs xs = json_strs ys \<longleftrightarrow> xs = ys"
  by (simp add: json_strs_def inj_map_eq_map inj_def)

text \<open>An event with its metadata in canonical order: what its encoding determines.\<close>

definition canon_event :: "EnforcementEvent \<Rightarrow> EnforcementEvent" where
  "canon_event e = e\<lparr>ev_Metadata := Some (sort_key fst (slice (ev_Metadata e)))\<rparr>"

lemma json_smap_inject [simp]: "json_smap m = json_smap m' \<longleftrightarrow> sort_key fst m = sort_key fst m'"
proof -
  have "inj (\<lambda>(k :: string, v). (k, JStr v))" by (auto simp: inj_def)
  then show ?thesis by (simp add: json_smap_def inj_map_eq_map)
qed

lemma sort_key_Nil_iff [simp]: "sort_key f xs = [] \<longleftrightarrow> xs = []"
  by (metis length_0_conv length_sort)

definition fields_of :: "json \<Rightarrow> string \<Rightarrow> json option" where
  "fields_of v k = (case v of JObj kvs \<Rightarrow> map_of kvs k | _ \<Rightarrow> None)"

lemma omit_lookup:
  "map_of (omit z k v) l = (if l = k \<and> \<not> z then Some v else None)"
  by (simp add: omit_def)

lemma event_json_inject:
  assumes "event_json e = event_json e'"
  shows "canon_event e = canon_event e'"
proof -
  note M = arg_cong [OF assms, of "\<lambda>v. fields_of v k" for k,
      unfolded event_json_def fields_of_def json.case map_of_append]
  have Version: "ev_Version e = ev_Version e'"
    using M [of "''version''"] by (simp add: omit_lookup map_add_def split: if_splits)
  have Index: "ev_Index e = ev_Index e'"
    using M [of "''index''"] by (simp add: omit_lookup word_uint_eq_iff map_add_def split: if_splits)
  have EventType: "ev_EventType e = ev_EventType e'"
    using M [of "''event_type''"] by (simp add: omit_lookup map_add_def split: if_splits)
  have PEPID: "ev_PEPID e = ev_PEPID e'"
    using M [of "''pep_id''"] by (simp add: omit_lookup map_add_def split: if_splits)
  have Timestamp: "ev_Timestamp e = ev_Timestamp e'"
    using M [of "''timestamp''"] by (simp add: omit_lookup map_add_def split: if_splits)
  have ServiceID: "ev_ServiceID e = ev_ServiceID e'"
    using M [of "''service_id''"] by (simp add: omit_lookup map_add_def split: if_splits)
  have ClientPubKey: "ev_ClientPubKey e = ev_ClientPubKey e'"
    using M [of "''client_pubkey''"] by (simp add: omit_lookup map_add_def split: if_splits)
  have ClientOuterIP: "ev_ClientOuterIP e = ev_ClientOuterIP e'"
    using M [of "''client_outer_ip''"] by (simp add: omit_lookup map_add_def split: if_splits)
  have ClientInnerIP: "ev_ClientInnerIP e = ev_ClientInnerIP e'"
    using M [of "''client_inner_ip''"] by (simp add: omit_lookup map_add_def split: if_splits)
  have ClientInSPI: "ev_ClientInSPI e = ev_ClientInSPI e'"
    using M [of "''client_in_spi''"] by (simp add: omit_lookup map_add_def split: if_splits)
  have PEPInSPI: "ev_PEPInSPI e = ev_PEPInSPI e'"
    using M [of "''pep_in_spi''"] by (simp add: omit_lookup map_add_def split: if_splits)
  have ReqID: "ev_ReqID e = ev_ReqID e'"
    using M [of "''reqid''"] by (simp add: omit_lookup word_uint_eq_iff map_add_def split: if_splits)
  have Observed: "ev_Observed e = ev_Observed e'"
    using M [of "''observed''"] by (simp add: omit_lookup map_add_def split: if_splits)
  have XFRMMode: "ev_XFRMMode e = ev_XFRMMode e'"
    using M [of "''xfrm_mode''"] by (simp add: omit_lookup map_add_def split: if_splits)
  have XFRMPlanHash: "ev_XFRMPlanHash e = ev_XFRMPlanHash e'"
    using M [of "''xfrm_plan_hash''"] by (simp add: omit_lookup map_add_def split: if_splits)
  have PrevHash: "ev_PrevHash e = ev_PrevHash e'"
    using M [of "''prev_hash''"] by (simp add: omit_lookup map_add_def split: if_splits)
  have EventHash: "ev_EventHash e = ev_EventHash e'"
    using M [of "''event_hash''"] by (simp add: omit_lookup map_add_def split: if_splits)
  have md: "sort_key fst (slice (ev_Metadata e)) = sort_key fst (slice (ev_Metadata e'))"
    using M [of "''metadata''"] by (simp add: omit_lookup map_add_def split: if_splits)
  show ?thesis
    by (simp add: canon_event_def md Version Index EventType PEPID Timestamp ServiceID ClientPubKey ClientOuterIP ClientInnerIP ClientInSPI PEPInSPI ReqID Observed XFRMMode XFRMPlanHash PrevHash EventHash)
qed

lemma checkpoint_json_inject [simp]: "checkpoint_json c = checkpoint_json c' \<longleftrightarrow> c = c'"
  by (cases c; cases c') (simp add: checkpoint_json_def word_uint_eq_iff)

lemma binding_json_inject [simp]: "binding_json b = binding_json b' \<longleftrightarrow> b = b'"
  by (cases b; cases b') (simp add: binding_json_def)

lemma token_json_inject:
  assumes "token_json t = token_json t'"
  shows "t = t'"
proof -
  note M = arg_cong [OF assms, of "\<lambda>v. fields_of v k" for k,
      unfolded token_json_def fields_of_def json.case map_of_append]
  have Version: "ct_Version t = ct_Version t'"
    using M [of "''version''"] by (simp add: omit_lookup map_add_def split: if_splits)
  have TokenType: "ct_TokenType t = ct_TokenType t'"
    using M [of "''token_type''"] by (simp add: omit_lookup map_add_def split: if_splits)
  have VerifierID: "ct_VerifierID t = ct_VerifierID t'"
    using M [of "''verifier_id''"] by (simp add: omit_lookup map_add_def split: if_splits)
  have PEPID: "ct_PEPID t = ct_PEPID t'"
    using M [of "''pep_id''"] by (simp add: omit_lookup map_add_def split: if_splits)
  have PEPSigningPubKey: "ct_PEPSigningPubKey t = ct_PEPSigningPubKey t'"
    using M [of "''pep_signing_pubkey''"] by (simp add: omit_lookup map_add_def split: if_splits)
  have Measurement: "ct_Measurement t = ct_Measurement t'"
    using M [of "''measurement''"] by (simp add: omit_lookup map_add_def split: if_splits)
  have PolicyHash: "ct_PolicyHash t = ct_PolicyHash t'"
    using M [of "''policy_hash''"] by (simp add: omit_lookup map_add_def split: if_splits)
  have Scope: "ct_Scope t = ct_Scope t'"
    using M [of "''scope''"] by (simp add: omit_lookup map_add_def json_strs_def inj_map_eq_map inj_def split: if_splits option.splits)
  have IssuedAt: "ct_IssuedAt t = ct_IssuedAt t'"
    using M [of "''iat''"] by (simp add: omit_lookup map_add_def split: if_splits)
  have ExpiresAt: "ct_ExpiresAt t = ct_ExpiresAt t'"
    using M [of "''exp''"] by (simp add: omit_lookup map_add_def split: if_splits)
  have MaxSALifetime: "ct_MaxSALifetime t = ct_MaxSALifetime t'"
    using M [of "''max_sa_lifetime_seconds''"] by (simp add: omit_lookup map_add_def split: if_splits)
  have ObserverProfile: "ct_ObserverProfile t = ct_ObserverProfile t'"
    using M [of "''observer_profile''"] by (simp add: omit_lookup map_add_def split: if_splits)
  have CheckpointHash: "ct_CheckpointHash t = ct_CheckpointHash t'"
    using M [of "''checkpoint_hash''"] by (simp add: omit_lookup map_add_def split: if_splits)
  have HistoryEpoch: "ct_HistoryEpoch t = ct_HistoryEpoch t'"
    using M [of "''history_epoch''"] by (simp add: omit_lookup map_add_def word_uint_eq_iff split: if_splits)
  have Signature: "ct_Signature t = ct_Signature t'"
    using M [of "''verifier_signature''"] by (simp add: omit_lookup map_add_def split: if_splits)
  show ?thesis
    by (rule CapacityToken.equality) (simp_all add: Version TokenType VerifierID PEPID PEPSigningPubKey Measurement PolicyHash Scope IssuedAt ExpiresAt MaxSALifetime ObserverProfile CheckpointHash HistoryEpoch Signature)
qed

end
