(* ===== verification/Go_Time.thy ===== *)
theory Go_Time
  imports Go_Strings "HOL-Library.Monad_Syntax"
begin

text \<open>
  The parts of Go's \<^verbatim>\<open>time\<close> package the services use. A \<^verbatim>\<open>time.Time\<close> is its instant, the number of
  nanoseconds since the Unix epoch; a \<^verbatim>\<open>time.Duration\<close> is a 64-bit number of nanoseconds.
  \<open>Format_RFC3339\<close> is \<^verbatim>\<open>t.UTC().Format(time.RFC3339)\<close> (seconds, no fraction) and \<open>Parse_RFC3339\<close> is
  \<^verbatim>\<open>time.Parse(time.RFC3339, s)\<close>, with the leniencies of the library: a one-digit hour, a
  fraction after \<^verbatim>\<open>.\<close> or \<^verbatim>\<open>,\<close>, offsets up to 24:60. The round trip is \<open>Parse_Format\<close>.
\<close>

type_synonym time = int
type_synonym duration = int

definition Second :: duration where "Second = 1000000000"

definition min_duration :: duration where "min_duration = - (2 ^ 63)"
definition max_duration :: duration where "max_duration = 2 ^ 63 - 1"

text \<open>\<^verbatim>\<open>t.Sub(u)\<close> saturates; \<^verbatim>\<open>time.Duration(n) * time.Second\<close> wraps.\<close>

definition time_Sub :: "time \<Rightarrow> time \<Rightarrow> duration" where
  "time_Sub t u = max min_duration (min max_duration (t - u))"

text \<open>\<^verbatim>\<open>Duration.Microseconds\<close>: the division of Go truncates towards zero.\<close>

definition Microseconds :: "duration \<Rightarrow> int" where
  "Microseconds d = (if d \<ge> 0 then d div 1000 else - ((- d) div 1000))"

definition dur_seconds :: "int \<Rightarrow> duration" where
  "dur_seconds n = wrap64 (n * Second)"

lemma dur_seconds_small: "\<bar>n\<bar> \<le> 9000000000 \<Longrightarrow> dur_seconds n = n * Second"
  by (auto simp: dur_seconds_def Second_def intro!: wrap64_id)

subsection \<open>The calendar\<close>

definition leap_year :: "int \<Rightarrow> bool" where
  "leap_year y \<longleftrightarrow> y mod 4 = 0 \<and> (y mod 100 \<noteq> 0 \<or> y mod 400 = 0)"

text \<open>Days from 0000-01-01 to the first day of year \<open>y\<close> of the proleptic Gregorian calendar.\<close>

definition days_before_year :: "int \<Rightarrow> int" where
  "days_before_year y = 365 * y + (y + 3) div 4 - (y + 99) div 100 + (y + 399) div 400"

definition month_lengths :: "bool \<Rightarrow> int list" where
  "month_lengths leap = [31, if leap then 29 else 28, 31, 30, 31, 30, 31, 31, 30, 31, 30, 31]"

definition days_before_month :: "bool \<Rightarrow> int \<Rightarrow> int" where
  "days_before_month leap m = sum_list (take (nat (m - 1)) (month_lengths leap))"

text \<open>1970-01-01 is day 719528.\<close>

definition days_of_date :: "int \<Rightarrow> int \<Rightarrow> int \<Rightarrow> int" where
  "days_of_date y m d = days_before_year y + days_before_month (leap_year y) m + (d - 1) - 719528"

definition year_of_day :: "int \<Rightarrow> int" where
  "year_of_day n = (let e = n * 400 div 146097 in
     if n < days_before_year e then e - 1
     else if days_before_year (e + 1) \<le> n then e + 1 else e)"

fun split_days :: "int list \<Rightarrow> int \<Rightarrow> int \<Rightarrow> int \<times> int" where
  "split_days [] m d = (m, d)"
| "split_days (l # ls) m d = (if d < l then (m, d) else split_days ls (m + 1) (d - l))"

definition date_of_days :: "int \<Rightarrow> int \<times> int \<times> int" where
  "date_of_days days =
     (let n = days + 719528;
          y = year_of_day n;
          (m, d) = split_days (month_lengths (leap_year y)) 1 (n - days_before_year y)
      in (y, m, d + 1))"

lemma div_step:
  assumes "0 < (k :: int)"
  shows "(y + k) div k = (y + (k - 1)) div k + (if y mod k = 0 then 1 else 0)"
proof -
  define q r where "q = y div k" and "r = y mod k"
  have y: "y = r + q * k" by (simp add: q_def r_def)
  have r: "0 \<le> r" "r < k" using assms by (simp_all add: r_def)
  have "(y + k) div k = (r + (q + 1) * k) div k" by (simp add: y algebra_simps)
  also have "\<dots> = q + 1" using assms r by (subst div_mult_self1) auto
  finally have l: "(y + k) div k = q + 1" .
  have "(y + (k - 1)) div k = (r + (k - 1) + q * k) div k" by (simp add: y algebra_simps)
  also have "\<dots> = q + (r + (k - 1)) div k" using assms by (subst div_mult_self1) auto
  also have "(r + (k - 1)) div k = (if r = 0 then 0 else 1)"
    using r assms by (auto simp: div_pos_geq)
  finally show ?thesis using l by (simp add: r_def split: if_splits)
qed

lemma days_before_year_Suc:
  "days_before_year (y + 1) = days_before_year y + (if leap_year y then 366 else 365)"
proof -
  define A B C where "A = (y + 3) div 4" and "B = (y + 99) div 100" and "C = (y + 399) div 400"
  define A' B' C' where "A' = (y + 4) div 4" and "B' = (y + 100) div 100" and "C' = (y + 400) div 400"
  define p q r where "p \<longleftrightarrow> y mod 4 = 0" and "q \<longleftrightarrow> y mod 100 = 0" and "r \<longleftrightarrow> y mod 400 = 0"
  have steps: "A' = A + (if p then 1 else 0)" "B' = B + (if q then 1 else 0)" "C' = C + (if r then 1 else 0)"
    using div_step [of 4 y] div_step [of 100 y] div_step [of 400 y]
    by (simp_all only: A_def B_def C_def A'_def B'_def C'_def p_def q_def r_def)
  have "y mod 400 mod 100 = y mod 100" "y mod 100 mod 4 = y mod 4"
    by (rule mod_mod_cancel, simp)+
  then have imp: "r \<Longrightarrow> q" "q \<Longrightarrow> p"
    unfolding p_def q_def r_def by (metis mod_0)+
  have sh: "y + 1 + 3 = y + 4" "y + 1 + 99 = y + 100" "y + 1 + 399 = y + 400" by simp_all
  have "days_before_year (y + 1) = 365 * (y + 1) + A' - B' + C'"
    unfolding days_before_year_def sh A'_def B'_def C'_def ..
  moreover have "days_before_year y = 365 * y + A - B + C"
    unfolding days_before_year_def A_def B_def C_def ..
  moreover have "leap_year y \<longleftrightarrow> p \<and> (\<not> q \<or> r)"
    unfolding leap_year_def p_def q_def r_def ..
  moreover have "(if p \<and> (\<not> q \<or> r) then 366 else 365 :: int)
      = 365 + (if p then 1 else 0) - (if q then 1 else 0) + (if r then 1 else 0)"
    using imp by (cases p; cases q; cases r; simp)
  ultimately show ?thesis unfolding steps by simp
qed

lemma days_before_year_bounds:
  "146097 * y - 396 \<le> 400 * days_before_year y" "400 * days_before_year y \<le> 146097 * y + 699"
proof -
  define a b c where "a = (y + 3) div 4" and "b = (y + 99) div 100" and "c = (y + 399) div 400"
  have "4 * a \<le> y + 3" "y \<le> 4 * a" "100 * b \<le> y + 99" "y \<le> 100 * b"
    "400 * c \<le> y + 399" "y \<le> 400 * c"
    unfolding a_def b_def c_def by linarith+
  moreover have "days_before_year y = 365 * y + a - b + c"
    by (simp add: days_before_year_def a_def b_def c_def)
  ultimately show "146097 * y - 396 \<le> 400 * days_before_year y"
    "400 * days_before_year y \<le> 146097 * y + 699"
    by (simp_all add: algebra_simps)
qed

lemma year_of_day:
  "days_before_year (year_of_day n) \<le> n" "n < days_before_year (year_of_day n + 1)"
proof -
  define e where "e = n * 400 div 146097"
  have e: "146097 * e \<le> 400 * n" "400 * n < 146097 * e + 146097"
    unfolding e_def by linarith+
  note b = days_before_year_bounds
  have lo: "days_before_year (e - 1) \<le> n" using b(2) [of "e - 1"] e by (simp add: algebra_simps)
  have hi: "n < days_before_year (e + 2)" using b(1) [of "e + 2"] e by (simp add: algebra_simps)
  have two: "e + 1 + 1 = e + 2" by simp
  have yd: "year_of_day n = (if n < days_before_year e then e - 1
     else if days_before_year (e + 1) \<le> n then e + 1 else e)"
    by (simp add: year_of_day_def Let_def e_def)
  show "days_before_year (year_of_day n) \<le> n" using lo by (simp add: yd)
  show "n < days_before_year (year_of_day n + 1)" using hi by (simp add: yd two)
qed

lemma days_before_year_less: "y < z \<Longrightarrow> days_before_year y + 365 \<le> days_before_year z"
proof (induction z rule: int_gr_induct [where k = y])
  case base
  then show ?case by (simp add: days_before_year_Suc)
next
  case (step i)
  then show ?case using days_before_year_Suc [of i] by (simp split: if_splits)
qed

lemma year_of_day_unique:
  assumes "days_before_year y \<le> n" and "n < days_before_year (y + 1)"
  shows "year_of_day n = y"
proof -
  have "\<not> year_of_day n < y"
  proof
    assume "year_of_day n < y"
    then have "year_of_day n + 1 = y \<or> year_of_day n + 1 < y" by linarith
    then have "days_before_year (year_of_day n + 1) \<le> days_before_year y"
      using days_before_year_less [of "year_of_day n + 1" y] by auto
    with year_of_day(2) [of n] assms(1) show False by linarith
  qed
  moreover have "\<not> y < year_of_day n"
  proof
    assume "y < year_of_day n"
    then have "y + 1 = year_of_day n \<or> y + 1 < year_of_day n" by linarith
    then have "days_before_year (y + 1) \<le> days_before_year (year_of_day n)"
      using days_before_year_less [of "y + 1" "year_of_day n"] by auto
    with year_of_day(1) [of n] assms(2) show False by linarith
  qed
  ultimately show ?thesis by linarith
qed

lemma split_days_spec:
  assumes "0 \<le> d" and "d < sum_list ls" and "split_days ls m d = (m', d')"
  shows "m \<le> m' \<and> m' < m + int (length ls) \<and> 0 \<le> d' \<and> d' < ls ! nat (m' - m)
     \<and> d = sum_list (take (nat (m' - m)) ls) + d'"
  using assms
proof (induction ls m d rule: split_days.induct)
  case (1 m d)
  then show ?case by simp
next
  case (2 l ls m d)
  show ?case
  proof (cases "d < l")
    case True
    with 2 show ?thesis by auto
  next
    case False
    with 2 have IH: "m + 1 \<le> m' \<and> m' < m + 1 + int (length ls) \<and> 0 \<le> d' \<and> d' < ls ! nat (m' - (m + 1))
       \<and> d - l = sum_list (take (nat (m' - (m + 1))) ls) + d'"
      by auto
    then have "nat (m' - m) = Suc (nat (m' - (m + 1)))" by linarith
    with IH show ?thesis by simp
  qed
qed

lemma sum_month_lengths: "sum_list (month_lengths b) = (if b then 366 else 365)"
  by (simp add: month_lengths_def)

text \<open>\<open>date_of_days\<close> inverts \<open>days_of_date\<close> and yields a valid date.\<close>

lemma date_of_days:
  assumes "date_of_days n = (y, m, d)"
  shows "days_of_date y m d = n" "1 \<le> m" "m \<le> 12" "1 \<le> d" "d \<le> month_lengths (leap_year y) ! nat (m - 1)"
    "y = year_of_day (n + 719528)"
proof -
  define k where "k = n + 719528 - days_before_year y"
  obtain d' where sd: "split_days (month_lengths (leap_year y)) 1 k = (m, d')" and d: "d = d' + 1"
    and y: "y = year_of_day (n + 719528)"
    using assms unfolding date_of_days_def k_def by (auto simp: Let_def split: prod.splits)
  have "0 \<le> k" "k < sum_list (month_lengths (leap_year y))"
    using year_of_day [of "n + 719528"] days_before_year_Suc [of y]
    by (simp_all add: k_def y sum_month_lengths split: if_splits)
  note spec = split_days_spec [OF this sd]
  have len: "length (month_lengths (leap_year y)) = 12" by (simp add: month_lengths_def)
  from spec len d show "1 \<le> m" "m \<le> 12" "1 \<le> d"
    "d \<le> month_lengths (leap_year y) ! nat (m - 1)" by auto
  from spec d show "days_of_date y m d = n"
    by (simp add: days_of_date_def days_before_month_def k_def)
  show "y = year_of_day (n + 719528)" by (rule y)
qed

subsection \<open>Formatting\<close>

definition pad2 :: "int \<Rightarrow> string" where
  "pad2 n = [digit_char (nat n div 10), digit_char (nat n mod 10)]"

definition pad4 :: "int \<Rightarrow> string" where
  "pad4 n = (let s = dec_nat (nat \<bar>n\<bar>) in
     (if n < 0 then ''-'' else '''') @ replicate (4 - length s) (CHR ''0'') @ s)"

definition Format_RFC3339 :: "time \<Rightarrow> string" where
  "Format_RFC3339 t =
     (let secs = t div Second; sod = secs mod 86400; (y, m, d) = date_of_days (secs div 86400)
      in pad4 y @ ''-'' @ pad2 m @ ''-'' @ pad2 d @ ''T'' @ pad2 (sod div 3600) @ '':''
         @ pad2 (sod mod 3600 div 60) @ '':'' @ pad2 (sod mod 60) @ ''Z'')"

subsection \<open>Parsing\<close>

definition p_char :: "char \<Rightarrow> string \<Rightarrow> string option" where
  "p_char c s = (case s of [] \<Rightarrow> None | x # r \<Rightarrow> if x = c then Some r else None)"

text \<open>\<^verbatim>\<open>getnum\<close> of the library: two digits, or one where \<open>fixed\<close> is false.\<close>

definition getnum :: "bool \<Rightarrow> string \<Rightarrow> (int \<times> string) option" where
  "getnum fixed s =
     (case s of [] \<Rightarrow> None
      | c # r \<Rightarrow>
          if \<not> is_digit c then None
          else case r of
              d # r' \<Rightarrow> if is_digit d then Some (int (10 * digit_val c + digit_val d), r')
                       else if fixed then None else Some (int (digit_val c), r)
            | [] \<Rightarrow> if fixed then None else Some (int (digit_val c), []))"

definition p_year :: "string \<Rightarrow> (int \<times> string) option" where
  "p_year s = (if 4 \<le> length s \<and> list_all is_digit (take 4 s)
     then Some (int (undec_acc 0 (take 4 s)), drop 4 s) else None)"

definition p_range :: "int \<Rightarrow> int \<Rightarrow> (int \<times> string) option \<Rightarrow> (int \<times> string) option" where
  "p_range lo hi r = (case r of None \<Rightarrow> None
     | Some (n, s) \<Rightarrow> if lo \<le> n \<and> n \<le> hi then Some (n, s) else None)"

text \<open>A fraction of a second: the first nine digits count, the rest are read and dropped.\<close>

definition p_frac :: "string \<Rightarrow> int \<times> string" where
  "p_frac s = (case s of
       c # d # r \<Rightarrow>
         if (c = CHR ''.'' \<or> c = CHR '','') \<and> is_digit d
         then (let ds = takeWhile is_digit (d # r); f = take 9 ds
               in (int (undec_acc 0 f) * 10 ^ (9 - length f), drop (length ds) (d # r)))
         else (0, s)
     | _ \<Rightarrow> (0, s))"

definition p_zone :: "string \<Rightarrow> (int \<times> string) option" where
  "p_zone s = (case s of
       [] \<Rightarrow> None
     | c # r \<Rightarrow>
         if c = CHR ''Z'' then Some (0, r)
         else do {
           (hr, r1) \<leftarrow> p_range 0 24 (getnum True r);
           r2 \<leftarrow> p_char (CHR '':'') r1;
           (mm, r3) \<leftarrow> p_range 0 60 (getnum True r2);
           if c = CHR ''+'' then Some ((hr * 60 + mm) * 60, r3)
           else if c = CHR ''-'' then Some (- ((hr * 60 + mm) * 60), r3)
           else None
         })"

definition Parse_RFC3339 :: "string \<Rightarrow> time option" where
  "Parse_RFC3339 s = do {
     (y, s) \<leftarrow> p_year s;
     s \<leftarrow> p_char (CHR ''-'') s;
     (mo, s) \<leftarrow> p_range 1 12 (getnum True s);
     s \<leftarrow> p_char (CHR ''-'') s;
     (d, s) \<leftarrow> getnum True s;
     s \<leftarrow> p_char (CHR ''T'') s;
     (h, s) \<leftarrow> p_range 0 23 (getnum False s);
     s \<leftarrow> p_char (CHR '':'') s;
     (mi, s) \<leftarrow> p_range 0 59 (getnum True s);
     s \<leftarrow> p_char (CHR '':'') s;
     (sec, s) \<leftarrow> p_range 0 59 (getnum True s);
     (let (ns, s) = p_frac s in do {
       (off, s) \<leftarrow> p_zone s;
       if s \<noteq> [] \<or> d < 1 \<or> month_lengths (leap_year y) ! nat (mo - 1) < d then None
       else Some ((days_of_date y mo d * 86400 + h * 3600 + mi * 60 + sec - off) * Second + ns)
     })
   }"

subsection \<open>The round trip\<close>

text \<open>The instants whose UTC year has four digits.\<close>

definition four_digit_year :: "time \<Rightarrow> bool" where
  "four_digit_year t \<longleftrightarrow> - 62167219200 \<le> t div Second \<and> t div Second < 253402300800"

lemma getnum_pad2: "0 \<le> n \<Longrightarrow> n < 100 \<Longrightarrow> getnum fixed (pad2 n @ s) = Some (n, s)"
proof -
  assume "0 \<le> n" "n < 100"
  then have "nat n div 10 < 10" by linarith
  moreover have "10 * (nat n div 10) + nat n mod 10 = nat n" by simp
  ultimately show ?thesis using \<open>0 \<le> n\<close> by (simp add: getnum_def pad2_def del: of_nat_add of_nat_mult)
qed

lemma dec_nat_length: "n < 10 ^ Suc k \<Longrightarrow> length (dec_nat n) \<le> Suc k"
proof (induction k arbitrary: n)
  case 0
  then show ?case by (simp add: dec_nat.simps [of n])
next
  case (Suc k)
  show ?case
  proof (cases "n < 10")
    case True
    then show ?thesis by (simp add: dec_nat.simps [of n])
  next
    case False
    have "n div 10 < 10 ^ Suc k" using Suc.prems by (simp add: less_mult_imp_div_less mult.commute)
    then have "length (dec_nat (n div 10)) \<le> Suc k" by (rule Suc.IH)
    with False show ?thesis by (simp add: dec_nat.simps [of n])
  qed
qed

lemma undec_zeros: "undec_acc 0 (replicate k (CHR ''0'') @ s) = undec_acc 0 s"
  by (induction k) (simp_all add: digit_val_def)

lemma is_digit_0 [simp]: "is_digit (CHR ''0'')"
  by (simp add: is_digit_def)

lemma p_year_pad4: "0 \<le> y \<Longrightarrow> y < 10000 \<Longrightarrow> p_year (pad4 y @ s) = Some (y, s)"
proof -
  assume y: "0 \<le> y" "y < 10000"
  then have "length (dec_nat (nat y)) \<le> 4" using dec_nat_length [of "nat y" 3] by simp
  then have len: "length (pad4 y) = 4" using y by (simp add: pad4_def Let_def)
  have "list_all is_digit (pad4 y)"
    using y by (auto simp: pad4_def Let_def list_all_iff dest: dec_nat_digits)
  moreover have "undec_acc 0 (pad4 y) = nat y" using y by (simp add: pad4_def Let_def undec_zeros)
  ultimately show ?thesis using y len by (simp add: p_year_def)
qed

lemma p_char_same [simp]: "p_char c (c # s) = Some s"
  by (simp add: p_char_def)

lemma p_range_Some [simp]: "lo \<le> n \<Longrightarrow> n \<le> hi \<Longrightarrow> p_range lo hi (Some (n, s)) = Some (n, s)"
  by (simp add: p_range_def)

lemma p_frac_Z [simp]: "p_frac ''Z'' = (0, ''Z'')" and p_zone_Z [simp]: "p_zone ''Z'' = Some (0, [])"
  by (simp_all add: p_frac_def p_zone_def)

lemma sod_bounds:
  assumes "0 \<le> sod" and "sod < (86400 :: int)"
  shows "0 \<le> sod div 3600" "sod div 3600 \<le> 23" "0 \<le> sod mod 3600 div 60" "sod mod 3600 div 60 \<le> 59"
    "sod div 3600 * 3600 + sod mod 3600 div 60 * 60 + sod mod 60 = sod"
proof -
  show "0 \<le> sod div 3600" "sod div 3600 \<le> 23" using assms by linarith+
  show "0 \<le> sod mod 3600 div 60" "sod mod 3600 div 60 \<le> 59" by linarith+
  have "sod mod 3600 mod 60 = sod mod 60" by (rule mod_mod_cancel) simp
  then have "sod mod 3600 div 60 * 60 + sod mod 60 = sod mod 3600"
    by (metis div_mult_mod_eq)
  then show "sod div 3600 * 3600 + sod mod 3600 div 60 * 60 + sod mod 60 = sod"
    by (metis add.assoc div_mult_mod_eq)
qed

lemma month_length_le: "1 \<le> m \<Longrightarrow> m \<le> 12 \<Longrightarrow> month_lengths b ! nat (m - 1) \<le> 31"
proof -
  assume "1 \<le> m" "m \<le> 12"
  then have "nat (m - 1) < length (month_lengths b)" by (simp add: month_lengths_def)
  then have "month_lengths b ! nat (m - 1) \<in> set (month_lengths b)" by (rule nth_mem)
  then show ?thesis by (auto simp: month_lengths_def split: if_splits)
qed

lemma Parse_parts:
  assumes "0 \<le> y" "y < 10000" "1 \<le> m" "m \<le> 12" "1 \<le> d"
    "d \<le> month_lengths (leap_year y) ! nat (m - 1)"
    "0 \<le> h" "h \<le> 23" "0 \<le> mi" "mi \<le> 59" "0 \<le> se" "se \<le> 59"
  shows "Parse_RFC3339 (pad4 y @ ''-'' @ pad2 m @ ''-'' @ pad2 d @ ''T'' @ pad2 h @ '':''
       @ pad2 mi @ '':'' @ pad2 se @ ''Z'')
     = Some ((days_of_date y m d * 86400 + h * 3600 + mi * 60 + se) * Second)"
proof -
  have "d < 100" using assms month_length_le [of m "leap_year y"] by linarith
  with assms show ?thesis
    by (simp add: Parse_RFC3339_def p_year_pad4 getnum_pad2)
qed

lemma Parse_Format:
  assumes "four_digit_year t"
  shows "Parse_RFC3339 (Format_RFC3339 t) = Some (t div Second * Second)"
proof -
  define secs where "secs = t div Second"
  define sod where "sod = secs mod 86400"
  obtain y m d where ymd: "date_of_days (secs div 86400) = (y, m, d)" by (metis surj_pair)
  note date = date_of_days [OF ymd]
  have D: "0 \<le> secs div 86400 + 719528" "secs div 86400 + 719528 < 3652425"
    using assms unfolding four_digit_year_def secs_def [symmetric] by linarith+
  have dby: "days_before_year 0 = 0" "days_before_year 10000 = 3652425"
    by (simp_all add: days_before_year_def)
  have y: "0 \<le> y" "y < 10000"
  proof -
    from year_of_day [of "secs div 86400 + 719528"] date(6)
    have "days_before_year y \<le> secs div 86400 + 719528" "secs div 86400 + 719528 < days_before_year (y + 1)"
      by simp_all
    moreover have "y + 1 \<le> 0 \<Longrightarrow> days_before_year (y + 1) \<le> days_before_year 0"
      "10000 \<le> y \<Longrightarrow> days_before_year 10000 \<le> days_before_year y"
      using days_before_year_less [of "y + 1" 0] days_before_year_less [of 10000 y]
      by (cases "y + 1 = 0"; cases "y = 10000"; simp)+
    ultimately show "0 \<le> y" "y < 10000" using D dby by linarith+
  qed
  have sod: "0 \<le> sod" "sod < 86400" by (simp_all add: sod_def)
  note sb = sod_bounds [OF sod]
  have fmt: "Format_RFC3339 t = pad4 y @ ''-'' @ pad2 m @ ''-'' @ pad2 d @ ''T'' @ pad2 (sod div 3600) @ '':''
         @ pad2 (sod mod 3600 div 60) @ '':'' @ pad2 (sod mod 60) @ ''Z''"
    by (simp add: Format_RFC3339_def Let_def secs_def [symmetric] sod_def [symmetric] ymd)
  have total: "days_of_date y m d * 86400 + sod div 3600 * 3600 + sod mod 3600 div 60 * 60 + sod mod 60 = secs"
    using date(1) sb(5) by (simp add: sod_def add.assoc)
  have s60: "0 \<le> sod mod 60" "sod mod 60 \<le> 59" by linarith+
  show ?thesis
    unfolding fmt Parse_parts [OF y date(2-5) sb(1-4) s60] total secs_def ..
qed

lemma Format_nonempty [simp]: "Format_RFC3339 t \<noteq> ''''"
  by (simp add: Format_RFC3339_def Let_def split: prod.split)

text \<open>A well-formed stamp of the services: an instant truncated to the second, printed in UTC.\<close>

lemma Parse_Format_le:
  "four_digit_year t \<Longrightarrow> Parse_RFC3339 (Format_RFC3339 t) = Some u \<Longrightarrow> u \<le> t \<and> t < u + Second"
  by (auto simp: Parse_Format Second_def)

end
