(* ===== verification/Attest.thy ===== *)
theory Attest
  imports Crypto Protocol Go_Time
begin

text \<open>
  \<^verbatim>\<open>common/attest/attest.go\<close>: signed capacity tokens, SA bindings and checkpoints, the hash chain of
  enforcement events, and the verification of a tunnel by the client. \<^verbatim>\<open>json.Marshal\<close> cannot fail on
  these structs, so the branches on its error are not modelled. Contents: the operations, in the
  source's order; the interface of a signed struct (locale \<open>signed_struct\<close>) with its three
  providers; the chain lemmas and the exact characterisations of the verifiers.
\<close>

datatype attest_error =
    ErrInvalidKey | ErrInvalidSignature | ErrExpiredToken | ErrImmatureToken | ErrScopeDenied
  | ErrLifetimeExceeded | ErrBindingMismatch
  | UnsupportedTokenVersion | InvalidTime | MissingAttestation | UnsupportedBindingVersion
  | CheckpointIdentity | PreviousHashMismatch | UnexpectedPreviousCheckpoint
  | EventIdentity nat | EventIndex nat | EventChainBreak nat | EventHashInvalid nat
  | CheckpointSummary | CheckpointEventCount | InitialEpoch | UnexpectedEpoch
  | MissingCreatedAt | InvalidCreatedAt | MissingTimestamp nat | InvalidTimestamp nat

record Ed25519Identity =
  id_PublicKey :: string
  id_PrivateKey :: string

definition decodePublicKey :: "string \<Rightarrow> attest_error + bytes" where
  "decodePublicKey s = (case base64_DecodeString s of
       None \<Rightarrow> Inl ErrInvalidKey
     | Some b \<Rightarrow> if length b \<noteq> ed25519_PublicKeySize then Inl ErrInvalidKey else Inr b)"

definition decodePrivateKey :: "string \<Rightarrow> attest_error + bytes" where
  "decodePrivateKey s = (case base64_DecodeString s of
       None \<Rightarrow> Inl ErrInvalidKey
     | Some b \<Rightarrow> if length b \<noteq> ed25519_PrivateKeySize then Inl ErrInvalidKey else Inr b)"

text \<open>The key pair that \<^verbatim>\<open>ed25519.GenerateKey\<close> draws is an input, or \<open>None\<close> if it fails.\<close>

definition GenerateEd25519Identity :: "(bytes \<times> bytes) option \<Rightarrow> Ed25519Identity option" where
  "GenerateEd25519Identity drawn =
     (case drawn of None \<Rightarrow> None
      | Some (pub, priv) \<Rightarrow> Some \<lparr>id_PublicKey = base64_EncodeToString pub, id_PrivateKey = base64_EncodeToString priv\<rparr>)"

lemma generated_identity_decodes:
  assumes "GenerateEd25519Identity (Some (pub, priv)) = Some ident" "length pub = ed25519_PublicKeySize" "length priv = ed25519_PrivateKeySize"
  shows "decodePublicKey (id_PublicKey ident) = Inr pub" "decodePrivateKey (id_PrivateKey ident) = Inr priv"
  using assms by (auto simp: GenerateEd25519Identity_def decodePublicKey_def decodePrivateKey_def)

subsection \<open>Capacity tokens\<close>

definition CapacityTokenSigningBytes :: "CapacityToken \<Rightarrow> bytes" where
  "CapacityTokenSigningBytes t =
     str_bytes (json_print (token_json
       (t\<lparr>ct_Signature := '''', ct_Scope := Some (sort (slice (ct_Scope t)))\<rparr>)))"

definition SignCapacityToken :: "prims \<Rightarrow> CapacityToken \<Rightarrow> string \<Rightarrow> attest_error + CapacityToken" where
  "SignCapacityToken P t verifierPrivB64 =
     rbind (decodePrivateKey verifierPrivB64) (\<lambda>priv.
       let t = t\<lparr>ct_Signature := ''''\<rparr>;
           b = CapacityTokenSigningBytes t
       in Inr (t\<lparr>ct_Signature := base64_EncodeToString (ed25519_Sign P priv b)\<rparr>))"

definition VerifyCapacityToken :: "prims \<Rightarrow> CapacityToken \<Rightarrow> string \<Rightarrow> time \<Rightarrow> attest_error + unit" where
  "VerifyCapacityToken P t verifierPubB64 now =
     (if ct_Version t \<noteq> 1 \<or> ct_TokenType t \<noteq> ''cryptna-pep-capacity-v1'' then Inl UnsupportedTokenVersion
      else rbind (decodePublicKey verifierPubB64) (\<lambda>pub.
       case base64_DecodeString (ct_Signature t) of
         None \<Rightarrow> Inl ErrInvalidSignature
       | Some sig \<Rightarrow>
          if length sig \<noteq> ed25519_SignatureSize then Inl ErrInvalidSignature
          else let unsigned = t\<lparr>ct_Signature := ''''\<rparr>; b = CapacityTokenSigningBytes unsigned in
          if \<not> ed25519_Verify P pub b sig then Inl ErrInvalidSignature
          else rbind
            (if ct_IssuedAt t \<noteq> '''' then
               (case Parse_RFC3339 (ct_IssuedAt t) of None \<Rightarrow> Inl InvalidTime
                | Some iat \<Rightarrow> if now + 5 * Second < iat then Inl ErrImmatureToken else Inr ())
             else Inr ()) (\<lambda>_.
            case Parse_RFC3339 (ct_ExpiresAt t) of None \<Rightarrow> Inl InvalidTime
            | Some exp \<Rightarrow> if \<not> now < exp then Inl ErrExpiredToken else Inr ())))"

definition CapacityTokenHash :: "prims \<Rightarrow> CapacityToken \<Rightarrow> string" where
  "CapacityTokenHash P t =
     hex_EncodeToString (sha256_Sum256 P (str_bytes (json_print (token_json t))))"

subsection \<open>SA bindings\<close>

definition SABindingSigningBytes :: "SABinding \<Rightarrow> bytes" where
  "SABindingSigningBytes b = str_bytes (json_print (binding_json (b\<lparr>sb_Signature := ''''\<rparr>)))"

definition SignSABinding :: "prims \<Rightarrow> SABinding \<Rightarrow> string \<Rightarrow> attest_error + SABinding" where
  "SignSABinding P b pepPrivB64 =
     rbind (decodePrivateKey pepPrivB64) (\<lambda>priv.
       let b = b\<lparr>sb_Signature := ''''\<rparr>;
           bs = SABindingSigningBytes b
       in Inr (b\<lparr>sb_Signature := base64_EncodeToString (ed25519_Sign P priv bs)\<rparr>))"

definition VerifySABinding :: "prims \<Rightarrow> SABinding \<Rightarrow> string \<Rightarrow> attest_error + unit" where
  "VerifySABinding P b pepPubB64 =
     rbind (decodePublicKey pepPubB64) (\<lambda>pub.
       case base64_DecodeString (sb_Signature b) of
         None \<Rightarrow> Inl ErrInvalidSignature
       | Some sig \<Rightarrow>
          if length sig \<noteq> ed25519_SignatureSize then Inl ErrInvalidSignature
          else let unsigned = b\<lparr>sb_Signature := ''''\<rparr>; bs = SABindingSigningBytes unsigned in
          if \<not> ed25519_Verify P pub bs sig then Inl ErrInvalidSignature else Inr ())"

fun ContainsScope :: "string list \<Rightarrow> string \<Rightarrow> bool" where
  "ContainsScope [] serviceID = False"
| "ContainsScope (s # scope) serviceID =
     (if s = serviceID \<or> s = ''*'' then True else ContainsScope scope serviceID)"

text \<open>The binding the client expects: every field from the tunnel, the token and its own keys.\<close>

definition expected_binding ::
  "prims \<Rightarrow> TunnelParams \<Rightarrow> CapacityToken \<Rightarrow> SABinding \<Rightarrow> string \<Rightarrow> string \<Rightarrow> SABinding" where
  "expected_binding P t tok bnd clientPubKey clientDHPub =
     \<lparr>sb_Version = sb_Version bnd, sb_TokenHash = CapacityTokenHash P tok, sb_PEPID = ct_PEPID tok,
      sb_ClientPubKey = clientPubKey, sb_ServiceID = tp_ServiceID t, sb_ServiceIP = tp_ServiceIP t,
      sb_ClientInnerIP = tp_ClientInnerIP t, sb_ClientInSPI = tp_ClientInSPI t,
      sb_PEPInSPI = tp_PEPInSPI t, sb_ClientDHPub = clientDHPub, sb_PEPDHPub = tp_PEPDHPub t,
      sb_AEAD = tp_AEAD t, sb_SALifetime = tp_SALifetime t, sb_ExpiresAt = tp_ExpiresAt t,
      sb_Signature = sb_Signature bnd\<rparr>"

definition VerifyTunnelBinding ::
  "prims \<Rightarrow> TunnelParams \<Rightarrow> string \<Rightarrow> string \<Rightarrow> string \<Rightarrow> time \<Rightarrow> attest_error + unit" where
  "VerifyTunnelBinding P t clientPubKey clientDHPub verifierPubB64 now =
     (case (tp_CapacityToken t, tp_SABinding t) of
        (Some tok, Some bnd) \<Rightarrow>
          rbind (VerifyCapacityToken P tok verifierPubB64 now) (\<lambda>_.
          if \<not> ContainsScope (slice (ct_Scope tok)) (tp_ServiceID t) then Inl ErrScopeDenied
          else if tp_SALifetime t > ct_MaxSALifetime tok then Inl ErrLifetimeExceeded
          else case Parse_RFC3339 (ct_ExpiresAt tok) of None \<Rightarrow> Inl InvalidTime
          | Some tokenExp \<Rightarrow>
            (case Parse_RFC3339 (tp_ExpiresAt t) of None \<Rightarrow> Inl InvalidTime
             | Some saExp \<Rightarrow>
                if saExp > tokenExp then Inl ErrLifetimeExceeded
                else let tokHash = CapacityTokenHash P tok in
                if sb_TokenHash bnd \<noteq> tokHash then Inl ErrBindingMismatch
                else if sb_Version bnd \<noteq> 1 then Inl UnsupportedBindingVersion
                else rbind (VerifySABinding P bnd (ct_PEPSigningPubKey tok)) (\<lambda>_.
                  if bnd \<noteq> expected_binding P t tok bnd clientPubKey clientDHPub
                  then Inl ErrBindingMismatch else Inr ())))
      | _ \<Rightarrow> Inl MissingAttestation)"

subsection \<open>Events, checkpoints and the history\<close>

definition HashCanonical :: "prims \<Rightarrow> json \<Rightarrow> string" where
  "HashCanonical P v = hex_EncodeToString (sha256_Sum256 P (str_bytes (json_print v)))"

definition EnforcementEventSigningBytes :: "EnforcementEvent \<Rightarrow> bytes" where
  "EnforcementEventSigningBytes e =
     (let e = e\<lparr>ev_EventHash := ''''\<rparr>;
          e = (if ev_Metadata e \<noteq> None \<and> length (slice (ev_Metadata e)) = 0 then e\<lparr>ev_Metadata := None\<rparr> else e)
      in str_bytes (json_print (event_json e)))"

definition HashEnforcementEvent :: "prims \<Rightarrow> EnforcementEvent \<Rightarrow> string" where
  "HashEnforcementEvent P e = hex_EncodeToString (sha256_Sum256 P (EnforcementEventSigningBytes e))"

definition EnforcementCheckpointSigningBytes :: "EnforcementCheckpoint \<Rightarrow> bytes" where
  "EnforcementCheckpointSigningBytes c =
     str_bytes (json_print (checkpoint_json (c\<lparr>cp_Signature := ''''\<rparr>)))"

definition HashEnforcementCheckpoint :: "prims \<Rightarrow> EnforcementCheckpoint \<Rightarrow> string" where
  "HashEnforcementCheckpoint P c =
     hex_EncodeToString (sha256_Sum256 P (str_bytes (json_print (checkpoint_json c))))"

definition SignEnforcementCheckpoint ::
  "prims \<Rightarrow> EnforcementCheckpoint \<Rightarrow> string \<Rightarrow> attest_error + EnforcementCheckpoint" where
  "SignEnforcementCheckpoint P c pepPrivB64 =
     rbind (decodePrivateKey pepPrivB64) (\<lambda>priv.
       let c = c\<lparr>cp_Signature := ''''\<rparr>;
           b = EnforcementCheckpointSigningBytes c
       in Inr (c\<lparr>cp_Signature := base64_EncodeToString (ed25519_Sign P priv b)\<rparr>))"

definition VerifyEnforcementCheckpoint ::
  "prims \<Rightarrow> EnforcementCheckpoint \<Rightarrow> string \<Rightarrow> attest_error + unit" where
  "VerifyEnforcementCheckpoint P c pepPubB64 =
     rbind (decodePublicKey pepPubB64) (\<lambda>pub.
       case base64_DecodeString (cp_Signature c) of
         None \<Rightarrow> Inl ErrInvalidSignature
       | Some sig \<Rightarrow>
          if length sig \<noteq> ed25519_SignatureSize then Inl ErrInvalidSignature
          else let unsigned = c\<lparr>cp_Signature := ''''\<rparr>; b = EnforcementCheckpointSigningBytes unsigned in
          if \<not> ed25519_Verify P pub b sig then Inl ErrInvalidSignature else Inr ())"

text \<open>The first loop of \<^verbatim>\<open>VerifyHistoryEvidence\<close>: offset, last hash and last index are its state.\<close>

fun verify_events ::
  "prims \<Rightarrow> string \<Rightarrow> nat \<Rightarrow> string \<Rightarrow> u64 \<Rightarrow> EnforcementEvent list \<Rightarrow> attest_error + string \<times> u64" where
  "verify_events P pepID i lastHash lastIndex [] = Inr (lastHash, lastIndex)"
| "verify_events P pepID i lastHash lastIndex (e # es) =
     (if ev_Version e \<noteq> 1 \<or> ev_PEPID e \<noteq> pepID then Inl (EventIdentity i)
      else if ev_Index e \<noteq> lastIndex + 1 then Inl (EventIndex i)
      else if ev_PrevHash e \<noteq> lastHash then Inl (EventChainBreak i)
      else let h = HashEnforcementEvent P e in
        if ev_EventHash e \<noteq> h then Inl (EventHashInvalid i)
        else verify_events P pepID (Suc i) h (ev_Index e) es)"

text \<open>Its second loop.\<close>

fun verify_timestamps :: "nat \<Rightarrow> EnforcementEvent list \<Rightarrow> attest_error + unit" where
  "verify_timestamps i [] = Inr ()"
| "verify_timestamps i (e # es) =
     (if ev_Timestamp e = '''' then Inl (MissingTimestamp i)
      else case Parse_RFC3339 (ev_Timestamp e) of None \<Rightarrow> Inl (InvalidTimestamp i)
        | Some _ \<Rightarrow> verify_timestamps (Suc i) es)"

definition VerifyHistoryEvidence ::
  "prims \<Rightarrow> HistoryEvidence \<Rightarrow> string \<Rightarrow> string \<Rightarrow> EnforcementCheckpoint option \<Rightarrow> attest_error + string" where
  "VerifyHistoryEvidence P ev pepID pepPubB64 previous =
     (let cp = he_Checkpoint ev in
      if cp_Version cp \<noteq> 1 \<or> cp_PEPID cp \<noteq> pepID then Inl CheckpointIdentity
      else if he_PreviousCheckpointHash ev \<noteq> cp_PreviousCheckpointHash cp then Inl PreviousHashMismatch
      else let (expectedPrev, lastHash, lastIndex) =
          (case previous of None \<Rightarrow> ('''', '''', 0)
           | Some p \<Rightarrow> (HashEnforcementCheckpoint P p, cp_LastEventHash p, cp_LastEventIndex p)) in
      if he_PreviousCheckpointHash ev \<noteq> expectedPrev then Inl UnexpectedPreviousCheckpoint
      else rbind (verify_events P pepID 0 lastHash lastIndex (he_Events ev)) (\<lambda>(lastHash, lastIndex).
      if cp_LastEventHash cp \<noteq> lastHash \<or> cp_LastEventIndex cp \<noteq> lastIndex then Inl CheckpointSummary
      else if cp_EventCount cp \<noteq> int (length (he_Events ev)) then Inl CheckpointEventCount
      else rbind (case previous of
            None \<Rightarrow> if cp_Epoch cp \<noteq> 1 then Inl InitialEpoch else Inr ()
          | Some p \<Rightarrow> if cp_Epoch cp \<noteq> cp_Epoch p + 1 then Inl UnexpectedEpoch else Inr ()) (\<lambda>_.
      if cp_CreatedAt cp = '''' then Inl MissingCreatedAt
      else if Parse_RFC3339 (cp_CreatedAt cp) = None then Inl InvalidCreatedAt
      else rbind (verify_timestamps 0 (he_Events ev)) (\<lambda>_.
      rbind (VerifyEnforcementCheckpoint P cp pepPubB64) (\<lambda>_.
      Inr (HashEnforcementCheckpoint P cp))))))"

subsection \<open>The interface of a signed struct\<close>

text \<open>What a valid signature field is, independently of the struct that carries it.\<close>

definition sig_ok :: "prims \<Rightarrow> string \<Rightarrow> bytes \<Rightarrow> string \<Rightarrow> bool" where
  "sig_ok P pubB64 body sigB64 \<longleftrightarrow>
     (\<exists>pub sig. decodePublicKey pubB64 = Inr pub \<and> base64_DecodeString sigB64 = Some sig
        \<and> length sig = ed25519_SignatureSize \<and> ed25519_Verify P pub body sig)"

text \<open>
  The contract that tokens, bindings and checkpoints share: \<open>sign\<close> fills the signature field with a
  signature over \<open>body\<close>, \<open>verify\<close> accepts exactly a valid signature over \<open>body\<close> on a struct that meets
  the check \<open>extra\<close>, and neither \<open>body\<close> nor \<open>extra\<close> reads the signature field.
\<close>

locale signed_struct =
  fixes sign :: "prims \<Rightarrow> 'a \<Rightarrow> string \<Rightarrow> attest_error + 'a"
    and verify :: "prims \<Rightarrow> 'a \<Rightarrow> string \<Rightarrow> attest_error + unit"
    and sig_of :: "'a \<Rightarrow> string" and set_sig :: "string \<Rightarrow> 'a \<Rightarrow> 'a"
    and body :: "'a \<Rightarrow> bytes" and extra :: "'a \<Rightarrow> bool"
  assumes sign_law: "decodePrivateKey k = Inr priv \<Longrightarrow>
      sign P x k = Inr (set_sig (base64_EncodeToString (ed25519_Sign P priv (body x))) x)"
    and sign_key: "decodePrivateKey k = Inl e \<Longrightarrow> sign P x k = Inl e"
    and verify_law: "verify P x k = Inr () \<longleftrightarrow> extra x \<and> sig_ok P k (body x) (sig_of x)"
    and sig_of_set: "sig_of (set_sig s x) = s"
    and body_set: "body (set_sig s x) = body x"
    and extra_set: "extra (set_sig s x) = extra x"
begin

lemma verify_signed:
  assumes "ed25519_pair P priv pub" and "decodePrivateKey k = Inr priv" and "decodePublicKey pk = Inr pub"
    and "extra x" and "sign P x k = Inr y"
  shows "verify P y pk = Inr ()"
proof -
  from assms(2,5) sign_law have "y = set_sig (base64_EncodeToString (ed25519_Sign P priv (body x))) x"
    by (metis sum.inject(2))
  then show ?thesis
    using assms by (simp add: verify_law extra_set sig_ok_def sig_of_set body_set ed25519_pair_def)
qed

lemma signed_nonempty:
  assumes "ed25519_pair P priv pub" and "decodePrivateKey k = Inr priv" and "sign P x k = Inr y"
  shows "sig_of y \<noteq> ''''"
proof -
  have "length (ed25519_Sign P priv (body x)) = 64"
    using assms(1) by (simp add: ed25519_SignatureSize_def ed25519_pair_def)
  then have "ed25519_Sign P priv (body x) \<noteq> []" by auto
  moreover from assms(2,3) sign_law have "y = set_sig (base64_EncodeToString (ed25519_Sign P priv (body x))) x"
    by (metis sum.inject(2))
  ultimately show ?thesis by (simp add: sig_of_set base64_Encode_nonempty)
qed

lemma sign_shape:
  assumes "sign P x k = Inr y"
  obtains s where "y = set_sig s x"
proof (cases "decodePrivateKey k")
  case (Inl e)
  with sign_key [of k e P x] assms show ?thesis by simp
next
  case (Inr priv)
  with sign_law [of k priv P x] assms that show ?thesis by simp
qed

lemma verify_same_body:
  "verify P x k = Inr () \<Longrightarrow> body y = body x \<Longrightarrow> sig_of y = sig_of x \<Longrightarrow> extra y \<Longrightarrow> verify P y k = Inr ()"
  by (simp add: verify_law)

end

lemma token_unsigned [simp]:
  "CapacityTokenSigningBytes (t\<lparr>ct_Signature := s\<rparr>) = CapacityTokenSigningBytes t"
  by (simp add: CapacityTokenSigningBytes_def)

lemma binding_unsigned [simp]: "SABindingSigningBytes (b\<lparr>sb_Signature := s\<rparr>) = SABindingSigningBytes b"
  by (simp add: SABindingSigningBytes_def)

lemma checkpoint_unsigned [simp]:
  "EnforcementCheckpointSigningBytes (c\<lparr>cp_Signature := s\<rparr>) = EnforcementCheckpointSigningBytes c"
  by (simp add: EnforcementCheckpointSigningBytes_def)

text \<open>What \<^verbatim>\<open>VerifyCapacityToken\<close> checks beside the signature.\<close>

definition token_current :: "time \<Rightarrow> CapacityToken \<Rightarrow> bool" where
  "token_current now t \<longleftrightarrow>
     ct_Version t = 1 \<and> ct_TokenType t = ''cryptna-pep-capacity-v1''
     \<and> (ct_IssuedAt t = '''' \<or>
         (case Parse_RFC3339 (ct_IssuedAt t) of None \<Rightarrow> False | Some iat \<Rightarrow> iat \<le> now + 5 * Second))
     \<and> (case Parse_RFC3339 (ct_ExpiresAt t) of None \<Rightarrow> False | Some exp \<Rightarrow> now < exp)"

lemma VerifyCapacityToken_iff:
  "VerifyCapacityToken P t k now = Inr () \<longleftrightarrow>
     token_current now t \<and> sig_ok P k (CapacityTokenSigningBytes t) (ct_Signature t)"
  by (auto simp: VerifyCapacityToken_def token_current_def sig_ok_def rbind_def Let_def
      split: option.splits sum.splits if_splits)

lemma VerifySABinding_iff:
  "VerifySABinding P b k = Inr () \<longleftrightarrow> sig_ok P k (SABindingSigningBytes b) (sb_Signature b)"
  by (auto simp: VerifySABinding_def sig_ok_def rbind_def Let_def split: option.splits sum.splits if_splits)

lemma VerifyEnforcementCheckpoint_iff:
  "VerifyEnforcementCheckpoint P c k = Inr () \<longleftrightarrow>
     sig_ok P k (EnforcementCheckpointSigningBytes c) (cp_Signature c)"
  by (auto simp: VerifyEnforcementCheckpoint_def sig_ok_def rbind_def Let_def
      split: option.splits sum.splits if_splits)

interpretation capacity: signed_struct SignCapacityToken "\<lambda>P t k. VerifyCapacityToken P t k now"
  ct_Signature "\<lambda>s t. t\<lparr>ct_Signature := s\<rparr>" CapacityTokenSigningBytes "token_current now" for now
  by unfold_locales (simp_all add: SignCapacityToken_def VerifyCapacityToken_iff Let_def token_current_def)

interpretation binding: signed_struct SignSABinding VerifySABinding
  sb_Signature "\<lambda>s b. b\<lparr>sb_Signature := s\<rparr>" SABindingSigningBytes "\<lambda>_. True"
  by unfold_locales (simp_all add: SignSABinding_def VerifySABinding_iff Let_def)

interpretation checkpoint: signed_struct SignEnforcementCheckpoint VerifyEnforcementCheckpoint
  cp_Signature "\<lambda>s c. c\<lparr>cp_Signature := s\<rparr>" EnforcementCheckpointSigningBytes "\<lambda>_. True"
  by unfold_locales (simp_all add: SignEnforcementCheckpoint_def VerifyEnforcementCheckpoint_iff Let_def)

subsection \<open>The hash chain\<close>

text \<open>
  Events that continue a chain whose last hash is \<open>h\<close> and last index is \<open>n\<close>: consecutive indices,
  each event naming its predecessor's hash and carrying its own.
\<close>

fun chained :: "prims \<Rightarrow> string \<Rightarrow> string \<Rightarrow> u64 \<Rightarrow> EnforcementEvent list \<Rightarrow> bool" where
  "chained P pepID h n [] = True"
| "chained P pepID h n (e # es) =
     (ev_PEPID e = pepID \<and> ev_Index e = n + 1 \<and> ev_PrevHash e = h
      \<and> ev_EventHash e = HashEnforcementEvent P e \<and> chained P pepID (ev_EventHash e) (ev_Index e) es)"

definition end_hash :: "string \<Rightarrow> EnforcementEvent list \<Rightarrow> string" where
  "end_hash h es = (if es = [] then h else ev_EventHash (last es))"

definition end_index :: "u64 \<Rightarrow> EnforcementEvent list \<Rightarrow> u64" where
  "end_index n es = (if es = [] then n else ev_Index (last es))"

lemma end_simps [simp]:
  "end_hash h [] = h" "end_index n [] = n"
  "end_hash h (e # es) = end_hash (ev_EventHash e) es" "end_index n (e # es) = end_index (ev_Index e) es"
  "end_hash h (es @ [e]) = ev_EventHash e" "end_index n (es @ [e]) = ev_Index e"
  by (simp_all add: end_hash_def end_index_def)

lemma end_append:
  "end_hash h (xs @ ys) = end_hash (end_hash h xs) ys" "end_index n (xs @ ys) = end_index (end_index n xs) ys"
  by (simp_all add: end_hash_def end_index_def)

lemma chained_append:
  "chained P p h n (xs @ ys) \<longleftrightarrow> chained P p h n xs \<and> chained P p (end_hash h xs) (end_index n xs) ys"
  by (induction xs arbitrary: h n) auto

lemma chained_end_index: "chained P p h n es \<Longrightarrow> end_index n es = n + of_nat (length es)"
  by (induction es arbitrary: h n) (auto simp: algebra_simps)

lemma chained_nth_index:
  "chained P p h n es \<Longrightarrow> k < length es \<Longrightarrow> ev_Index (es ! k) = n + of_nat (Suc k)"
proof (induction es arbitrary: h n k)
  case (Cons e es)
  then show ?case
    by (cases k) (auto simp: algebra_simps)
qed simp

lemma verify_events_iff:
  "verify_events P p i h n es = Inr (h', n') \<longleftrightarrow>
     chained P p h n es \<and> (\<forall>e \<in> set es. ev_Version e = 1) \<and> h' = end_hash h es \<and> n' = end_index n es"
  by (induction es arbitrary: i h n) (auto simp: Let_def)

lemma verify_timestamps_iff:
  "verify_timestamps i es = Inr () \<longleftrightarrow> (\<forall>e \<in> set es. ev_Timestamp e \<noteq> '''' \<and> Parse_RFC3339 (ev_Timestamp e) \<noteq> None)"
  by (induction es arbitrary: i) (auto split: option.splits)

text \<open>Two events that the hash function confuses although their encodings differ.\<close>

definition event_collision :: "prims \<Rightarrow> EnforcementEvent \<Rightarrow> EnforcementEvent \<Rightarrow> bool" where
  "event_collision P e e' \<longleftrightarrow>
     EnforcementEventSigningBytes e \<noteq> EnforcementEventSigningBytes e'
     \<and> sha256_Sum256 P (EnforcementEventSigningBytes e) = sha256_Sum256 P (EnforcementEventSigningBytes e')"

definition event_ascii :: "EnforcementEvent \<Rightarrow> bool" where
  "event_ascii e \<longleftrightarrow> json_ok (event_json e)"

lemma event_bytes_eq:
  "EnforcementEventSigningBytes e = str_bytes (json_print (event_json (e\<lparr>ev_EventHash := ''''\<rparr>)))"
  by (auto simp: EnforcementEventSigningBytes_def Let_def event_json_def omit_def slice_def split: option.splits)

lemma json_ok_obj_append [simp]:
  "json_ok (JObj (xs @ ys)) \<longleftrightarrow> json_ok (JObj xs) \<and> json_ok (JObj ys)"
  by simp

lemma event_ascii_clear: "event_ascii e \<Longrightarrow> json_ok (event_json (e\<lparr>ev_EventHash := ''''\<rparr>))"
  by (simp add: event_ascii_def event_json_def)

lemma event_hash_inject:
  assumes "event_ascii e" "event_ascii e'" "\<not> event_collision P e e'"
    and "HashEnforcementEvent P e = HashEnforcementEvent P e'"
  shows "canon_event (e\<lparr>ev_EventHash := ''''\<rparr>) = canon_event (e'\<lparr>ev_EventHash := ''''\<rparr>)"
proof -
  from assms(3,4) have "EnforcementEventSigningBytes e = EnforcementEventSigningBytes e'"
    by (auto simp: HashEnforcementEvent_def event_collision_def)
  then have "json_print (event_json (e\<lparr>ev_EventHash := ''''\<rparr>)) = json_print (event_json (e'\<lparr>ev_EventHash := ''''\<rparr>))"
    by (simp add: event_bytes_eq)
  with assms(1,2) have "event_json (e\<lparr>ev_EventHash := ''''\<rparr>) = event_json (e'\<lparr>ev_EventHash := ''''\<rparr>)"
    by (intro json_print_inject event_ascii_clear)
  then show ?thesis by (rule event_json_inject)
qed

lemma canon_event_hash:
  assumes "canon_event (e\<lparr>ev_EventHash := ''''\<rparr>) = canon_event (e'\<lparr>ev_EventHash := ''''\<rparr>)"
    and "ev_EventHash e = ev_EventHash e'"
  shows "canon_event e = canon_event e'" "ev_PrevHash e = ev_PrevHash e'"
proof -
  have "canon_event (x\<lparr>ev_EventHash := ''''\<rparr>)\<lparr>ev_EventHash := ev_EventHash x\<rparr> = canon_event x" for x
    by (simp add: canon_event_def)
  with assms show "canon_event e = canon_event e'" by metis
  from arg_cong [OF assms(1), of ev_PrevHash] show "ev_PrevHash e = ev_PrevHash e'"
    by (simp add: canon_event_def)
qed

text \<open>
  The last hash of a chain determines the whole chain, unless the two chains contain a collision.
\<close>

lemma chain_determined:
  assumes "length es = length es'" and "chained P p h n es" and "chained P p' h' n' es'"
    and "end_hash h es = end_hash h' es'"
    and "\<forall>e \<in> set es \<union> set es'. event_ascii e"
    and "\<forall>e \<in> set es. \<forall>e' \<in> set es'. \<not> event_collision P e e'"
  shows "map canon_event es = map canon_event es' \<and> h = h'"
  using assms
proof (induction es arbitrary: es' rule: rev_induct)
  case Nil
  then show ?case by simp
next
  case (snoc e es)
  then obtain f fs where es': "es' = fs @ [f]" and len: "length es = length fs"
    by (metis length_append_singleton length_Suc_conv_rev nat.inject)
  from snoc.prems es' have ch: "chained P p h n es" "chained P p' h' n' fs"
    and e: "ev_PrevHash e = end_hash h es" "ev_EventHash e = HashEnforcementEvent P e"
    and f: "ev_PrevHash f = end_hash h' fs" "ev_EventHash f = HashEnforcementEvent P f"
    and ef: "ev_EventHash e = ev_EventHash f"
    by (simp_all add: chained_append)
  have "canon_event (e\<lparr>ev_EventHash := ''''\<rparr>) = canon_event (f\<lparr>ev_EventHash := ''''\<rparr>)"
    using snoc.prems(5,6) es' e(2) f(2) ef by (intro event_hash_inject [of _ _ P]) auto
  note canon = canon_event_hash [OF this ef]
  have "map canon_event es = map canon_event fs \<and> h = h'"
    using snoc.IH [OF len ch] snoc.prems(5,6) canon(2) e f es' by simp
  with canon(1) es' show ?case by simp
qed

subsection \<open>What the two verifiers establish\<close>

text \<open>The state a previous checkpoint leaves: its hash, the last event hash and index, the next epoch.\<close>

definition prev_hash :: "prims \<Rightarrow> EnforcementCheckpoint option \<Rightarrow> string" where
  "prev_hash P prev = (case prev of None \<Rightarrow> '''' | Some p \<Rightarrow> HashEnforcementCheckpoint P p)"

definition prev_last_hash :: "EnforcementCheckpoint option \<Rightarrow> string" where
  "prev_last_hash prev = (case prev of None \<Rightarrow> '''' | Some p \<Rightarrow> cp_LastEventHash p)"

definition prev_last_index :: "EnforcementCheckpoint option \<Rightarrow> u64" where
  "prev_last_index prev = (case prev of None \<Rightarrow> 0 | Some p \<Rightarrow> cp_LastEventIndex p)"

definition next_epoch :: "EnforcementCheckpoint option \<Rightarrow> u64" where
  "next_epoch prev = (case prev of None \<Rightarrow> 1 | Some p \<Rightarrow> cp_Epoch p + 1)"

lemmas prev_defs = prev_hash_def prev_last_hash_def prev_last_index_def next_epoch_def

definition evidence_ok ::
  "prims \<Rightarrow> HistoryEvidence \<Rightarrow> string \<Rightarrow> string \<Rightarrow> EnforcementCheckpoint option \<Rightarrow> bool" where
  "evidence_ok P ev pepID pepPub prev \<longleftrightarrow>
     (let cp = he_Checkpoint ev; es = he_Events ev in
      cp_Version cp = 1 \<and> cp_PEPID cp = pepID
      \<and> he_PreviousCheckpointHash ev = cp_PreviousCheckpointHash cp
      \<and> cp_PreviousCheckpointHash cp = prev_hash P prev
      \<and> chained P pepID (prev_last_hash prev) (prev_last_index prev) es
      \<and> (\<forall>e \<in> set es. ev_Version e = 1 \<and> ev_Timestamp e \<noteq> '''' \<and> Parse_RFC3339 (ev_Timestamp e) \<noteq> None)
      \<and> cp_LastEventHash cp = end_hash (prev_last_hash prev) es
      \<and> cp_LastEventIndex cp = end_index (prev_last_index prev) es
      \<and> cp_EventCount cp = int (length es) \<and> cp_Epoch cp = next_epoch prev
      \<and> cp_CreatedAt cp \<noteq> '''' \<and> Parse_RFC3339 (cp_CreatedAt cp) \<noteq> None
      \<and> VerifyEnforcementCheckpoint P cp pepPub = Inr ())"

lemma VerifyHistoryEvidence_iff:
  "VerifyHistoryEvidence P ev pepID pepPub prev = Inr h \<longleftrightarrow>
     evidence_ok P ev pepID pepPub prev \<and> h = HashEnforcementCheckpoint P (he_Checkpoint ev)"
  unfolding VerifyHistoryEvidence_def evidence_ok_def Let_def
  by (cases prev)
    (auto simp: prev_defs result_iffs verify_events_iff verify_timestamps_iff split: if_splits)

text \<open>The client's acceptance of a tunnel.\<close>

definition tunnel_ok :: "prims \<Rightarrow> TunnelParams \<Rightarrow> string \<Rightarrow> string \<Rightarrow> string \<Rightarrow> time \<Rightarrow> bool" where
  "tunnel_ok P t clientPub clientDH verifierPub now \<longleftrightarrow>
     (case (tp_CapacityToken t, tp_SABinding t) of
        (Some tok, Some bnd) \<Rightarrow>
          VerifyCapacityToken P tok verifierPub now = Inr ()
          \<and> (tp_ServiceID t \<in> set (slice (ct_Scope tok)) \<or> ''*'' \<in> set (slice (ct_Scope tok)))
          \<and> tp_SALifetime t \<le> ct_MaxSALifetime tok
          \<and> (case (Parse_RFC3339 (tp_ExpiresAt t), Parse_RFC3339 (ct_ExpiresAt tok)) of
               (Some saExp, Some tokenExp) \<Rightarrow> saExp \<le> tokenExp | _ \<Rightarrow> False)
          \<and> VerifySABinding P bnd (ct_PEPSigningPubKey tok) = Inr ()
          \<and> bnd = expected_binding P t tok bnd clientPub clientDH \<and> sb_Version bnd = 1
      | _ \<Rightarrow> False)"

lemma ContainsScope_iff: "ContainsScope scope s \<longleftrightarrow> s \<in> set scope \<or> ''*'' \<in> set scope"
  by (induction scope) auto

lemma expected_binding_hash: "bnd = expected_binding P t tok bnd a b \<Longrightarrow> sb_TokenHash bnd = CapacityTokenHash P tok"
  by (metis SABinding.select_convs(2) expected_binding_def)

lemma VerifyTunnelBinding_iff:
  "VerifyTunnelBinding P t clientPub clientDH verifierPub now = Inr () \<longleftrightarrow>
     tunnel_ok P t clientPub clientDH verifierPub now"
proof (cases "tp_CapacityToken t")
  case None
  then show ?thesis by (simp add: VerifyTunnelBinding_def tunnel_ok_def)
next
  case tok: (Some tok)
  show ?thesis
  proof (cases "tp_SABinding t")
    case None
    with tok show ?thesis by (simp add: VerifyTunnelBinding_def tunnel_ok_def)
  next
    case (Some bnd)
    with tok show ?thesis
      by (auto simp: VerifyTunnelBinding_def tunnel_ok_def result_iffs Let_def ContainsScope_iff
          dest: expected_binding_hash split: option.splits if_splits)
  qed
qed

subsection \<open>Properties\<close>


text \<open>
  A token that the verifier signs with its private key is accepted under the matching public key
  at every time at which its own time stamps make it current.
\<close>
theorem token_sign_verify:
  assumes "ed25519_pair P priv pub" and "decodePrivateKey k = Inr priv" and "decodePublicKey pk = Inr pub"
    and "token_current now t" and "SignCapacityToken P t k = Inr t'"
  shows "VerifyCapacityToken P t' pk now = Inr ()"
  using assms by (rule capacity.verify_signed)

text \<open>
  The signature of a token covers every field: two ASCII tokens with the same signed bytes differ
  at most in the signature and in the order of the scope.
\<close>
theorem token_bytes_determine:
  assumes "CapacityTokenSigningBytes t = CapacityTokenSigningBytes t'"
    and "json_ok (token_json (t\<lparr>ct_Signature := '''', ct_Scope := Some (sort (slice (ct_Scope t)))\<rparr>))"
    and "json_ok (token_json (t'\<lparr>ct_Signature := '''', ct_Scope := Some (sort (slice (ct_Scope t')))\<rparr>))"
  shows "t\<lparr>ct_Signature := '''', ct_Scope := None\<rparr> = t'\<lparr>ct_Signature := '''', ct_Scope := None\<rparr>
    \<and> mset (slice (ct_Scope t)) = mset (slice (ct_Scope t'))"
proof -
  have "t\<lparr>ct_Signature := '''', ct_Scope := Some (sort (slice (ct_Scope t)))\<rparr>
      = t'\<lparr>ct_Signature := '''', ct_Scope := Some (sort (slice (ct_Scope t')))\<rparr>"
    using assms by (intro token_json_inject json_print_inject) (simp_all add: CapacityTokenSigningBytes_def)
  then show ?thesis
    by (cases t; cases t') (simp, metis mset_sort)
qed

text \<open>
  (C26) The evidence check accepts exactly the well-formed continuations of the previous checkpoint:
  identity, chain of events from the previous last hash and index, summary, count, next epoch,
  readable time stamps and the PEP's signature; its result is the checkpoint's hash.
\<close>
theorem history_evidence_exact:
  "VerifyHistoryEvidence P ev pepID pepPub prev = Inr h \<longleftrightarrow>
     evidence_ok P ev pepID pepPub prev \<and> h = HashEnforcementCheckpoint P (he_Checkpoint ev)"
  by (rule VerifyHistoryEvidence_iff)


subsection \<open>Examples\<close>

definition sample_token :: "string list \<Rightarrow> CapacityToken" where
  "sample_token scope =
     \<lparr>ct_Version = 1, ct_TokenType = ''cryptna-pep-capacity-v1'', ct_VerifierID = ''v'', ct_PEPID = ''p'',
      ct_PEPSigningPubKey = ''k'', ct_Measurement = ''m'', ct_PolicyHash = ''h'', ct_Scope = Some scope,
      ct_IssuedAt = ''2025-01-01T00:00:00Z'', ct_ExpiresAt = ''2025-01-01T00:02:00Z'', ct_MaxSALifetime = 60,
      ct_ObserverProfile = ''posthoc'', ct_CheckpointHash = '''', ct_HistoryEpoch = 1, ct_Signature = ''''\<rparr>"

definition sample_start :: "string \<Rightarrow> EnforcementEvent" where
  "sample_start h = \<lparr>ev_Version = 1, ev_Index = 1, ev_EventType = ''pep_start'', ev_PEPID = ''p'',
     ev_Timestamp = ''2025-01-01T00:00:00Z'', ev_ServiceID = '''', ev_ClientPubKey = '''', ev_ClientOuterIP = '''',
     ev_ClientInnerIP = '''', ev_ClientInSPI = '''', ev_PEPInSPI = '''', ev_ReqID = 0, ev_Observed = False,
     ev_XFRMMode = '''', ev_XFRMPlanHash = '''', ev_Metadata = None, ev_PrevHash = '''', ev_EventHash = h\<rparr>"

definition sample_event :: EnforcementEvent where
  "sample_event = sample_start (HashEnforcementEvent demo_prims (sample_start ''''))"

definition sample_key :: string where "sample_key = base64_EncodeToString (replicate 32 1)"

definition sample_evidence :: HistoryEvidence where
  "sample_evidence = \<lparr>he_PreviousCheckpointHash = '''', he_Events = [sample_event], he_Checkpoint =
     \<lparr>cp_Version = 1, cp_PEPID = ''p'', cp_Epoch = 1, cp_PreviousCheckpointHash = '''', cp_LastEventIndex = 1,
      cp_LastEventHash = ev_EventHash sample_event, cp_EventCount = 1, cp_CreatedAt = ''2025-01-01T00:00:01Z'',
      cp_Signature = base64_EncodeToString (replicate 64 1)\<rparr>\<rparr>"

lemma hash_ignores_hash [simp]: "HashEnforcementEvent P (e\<lparr>ev_EventHash := h\<rparr>) = HashEnforcementEvent P e"
  by (simp add: HashEnforcementEvent_def event_bytes_eq)

lemma sample_start_hash: "HashEnforcementEvent P (sample_start h) = HashEnforcementEvent P (sample_start '''')"
proof -
  have "sample_start h = (sample_start '''')\<lparr>ev_EventHash := h\<rparr>" by (simp add: sample_start_def)
  then show ?thesis by simp
qed

lemma sample_event_hash: "ev_EventHash sample_event = HashEnforcementEvent demo_prims sample_event"
  unfolding sample_event_def by (subst sample_start_hash) (simp add: sample_start_def)

lemma sample_evidence_ok: "VerifyHistoryEvidence demo_prims sample_evidence ''p'' sample_key None
   = Inr (HashEnforcementCheckpoint demo_prims (he_Checkpoint sample_evidence))"
proof -
  have "VerifyEnforcementCheckpoint demo_prims (he_Checkpoint sample_evidence) sample_key = Inr ()"
    by (simp add: VerifyEnforcementCheckpoint_iff sig_ok_def sample_evidence_def sample_key_def decodePublicKey_def
        ed25519_PublicKeySize_def ed25519_SignatureSize_def demo_prims_def)
  moreover have "Parse_RFC3339 ''2025-01-01T00:00:01Z'' \<noteq> None" "Parse_RFC3339 ''2025-01-01T00:00:00Z'' \<noteq> None"
    by code_simp+
  moreover note sample_event_hash
  ultimately show ?thesis
    by (simp add: VerifyHistoryEvidence_iff evidence_ok_def sample_evidence_def prev_defs)
      (simp add: sample_event_def sample_start_def)
qed

lemma hex_ascii: "is_ascii (hex_EncodeToString bs)"
proof -
  have "(of_char (hex_char n) :: nat) < 128" if "n < 16" for n using that by (auto simp: hex_char_def)
  moreover have "unat b div 16 < 16" for b :: byte using unat_byte_less [of b] by simp
  ultimately have "is_ascii (hex_byte b)" for b by (simp add: hex_byte_def)
  then show ?thesis by (induction bs) (simp_all add: hex_EncodeToString_def)
qed

lemma sample_start_ascii: "is_ascii h \<Longrightarrow> event_ascii (sample_start h)"
  by (simp add: event_ascii_def event_json_def sample_start_def omit_def)

lemma sample_event_ascii: "event_ascii sample_event"
  unfolding sample_event_def by (rule sample_start_ascii) (simp add: HashEnforcementEvent_def hex_ascii)

theorem token_sign_verify_witness:
  "\<exists>t. SignCapacityToken demo_prims (sample_token [''a'']) (base64_EncodeToString (replicate 64 1)) = Inr t
     \<and> VerifyCapacityToken demo_prims t sample_key (1735689600 * Second) = Inr ()"
proof -
  have k: "decodePrivateKey (base64_EncodeToString (replicate 64 1)) = Inr (replicate 64 1)"
    "decodePublicKey sample_key = Inr (replicate 32 1)"
    by (simp_all add: decodePrivateKey_def decodePublicKey_def sample_key_def ed25519_PrivateKeySize_def ed25519_PublicKeySize_def)
  have "token_current (1735689600 * Second) (sample_token [''a''])" by code_simp
  with token_sign_verify [OF demo_prims_ok(1) k] capacity.sign_law [OF k(1), of demo_prims "sample_token [''a'']"]
  show ?thesis by blast
qed

theorem token_bytes_determine_witness:
  "mset (slice (ct_Scope (sample_token [''a'', ''b'']))) = mset (slice (ct_Scope (sample_token [''b'', ''a''])))"
proof -
  have "sort [''a'', ''b''] = sort [''b'', ''a'']" by code_simp
  then have "CapacityTokenSigningBytes (sample_token [''a'', ''b'']) = CapacityTokenSigningBytes (sample_token [''b'', ''a''])"
    by (simp add: CapacityTokenSigningBytes_def sample_token_def)
  moreover have "json_ok (token_json ((sample_token [''a'', ''b''])\<lparr>ct_Signature := '''',
      ct_Scope := Some (sort (slice (ct_Scope (sample_token [''a'', ''b'']))))\<rparr>))" by code_simp
  moreover have "json_ok (token_json ((sample_token [''b'', ''a''])\<lparr>ct_Signature := '''',
      ct_Scope := Some (sort (slice (ct_Scope (sample_token [''b'', ''a'']))))\<rparr>))" by code_simp
  ultimately show ?thesis using token_bytes_determine by blast
qed


end
