(* ===== verification/Go_Files.thy ===== *)
theory Go_Files
  imports Prelude
begin

text \<open>
  The files in which the services keep their state. The content of a state file is the struct that
  was encoded into it (\<^verbatim>\<open>encoding/json\<close> reads back what it wrote on these structs), or \<open>Torn\<close> when a
  write failed or was interrupted. Both services replace a file in the same way: create the
  directory, write a temporary file, rename it over the target. Which of the three system calls
  succeed is an input.
\<close>

datatype 'd content = Torn | Doc 'd

type_synonym 'd disk = "string \<rightharpoonup> 'd content"

record os_result =
  os_MkdirAll_ok :: bool
  os_WriteFile_ok :: bool
  os_Rename_ok :: bool

definition os_fine :: os_result where
  "os_fine = \<lparr>os_MkdirAll_ok = True, os_WriteFile_ok = True, os_Rename_ok = True\<rparr>"

datatype os_error = MkdirFailed | WriteFailed | RenameFailed

definition replace_file :: "os_result \<Rightarrow> string \<Rightarrow> 'd \<Rightarrow> 'd disk \<Rightarrow> (os_error + unit) \<times> 'd disk" where
  "replace_file os path d disk =
     (if \<not> os_MkdirAll_ok os then (Inl MkdirFailed, disk)
      else let tmp = path @ ''.tmp'' in
      if \<not> os_WriteFile_ok os then (Inl WriteFailed, disk(tmp \<mapsto> Torn))
      else let disk = disk(tmp \<mapsto> Doc d) in
      if \<not> os_Rename_ok os then (Inl RenameFailed, disk)
      else (Inr (), (disk(path \<mapsto> Doc d))(tmp := None)))"

text \<open>The disks a crash can leave while \<open>replace_file\<close> runs: one per completed system call.\<close>

definition crash_points :: "string \<Rightarrow> 'd \<Rightarrow> 'd disk \<Rightarrow> 'd disk list" where
  "crash_points path d disk =
     (let tmp = path @ ''.tmp'' in
      [disk, disk(tmp \<mapsto> Torn), disk(tmp \<mapsto> Doc d), (disk(tmp \<mapsto> Doc d, path \<mapsto> Doc d))(tmp := None)])"

lemma replace_file_target:
  "replace_file os path d disk = (Inr (), disk') \<Longrightarrow> disk' path = Some (Doc d)"
  "replace_file os path d disk = (Inl e, disk') \<Longrightarrow> disk' path = disk path"
  by (auto simp: replace_file_def Let_def split: if_splits)

lemma crash_points_target: "disk' \<in> set (crash_points path d disk) \<Longrightarrow> disk' path \<in> {disk path, Some (Doc d)}"
  by (auto simp: crash_points_def Let_def)

text \<open>
  What the services rely on: a successful save is what is stored, a failed one leaves the stored
  content as it was. A sequence of saves then stores the last one that succeeded.
\<close>

locale durable_store =
  fixes save :: "os_result \<Rightarrow> 'd \<Rightarrow> 'd disk \<Rightarrow> (os_error + unit) \<times> 'd disk"
    and stored :: "'d disk \<Rightarrow> 'd content option"
  assumes save_ok: "save os d k = (Inr (), k') \<Longrightarrow> stored k' = Some (Doc d)"
    and save_error: "save os d k = (Inl e, k') \<Longrightarrow> stored k' = stored k"
begin

fun saves :: "(os_result \<times> 'd) list \<Rightarrow> 'd disk \<Rightarrow> 'd option \<times> 'd disk" where
  "saves [] k = (None, k)"
| "saves ((os, d) # xs) k =
     (let (r, k1) = save os d k; (l, k2) = saves xs k1
      in (case l of Some d' \<Rightarrow> Some d' | None \<Rightarrow> if is_ok r then Some d else None, k2))"

lemma last_saved:
  "saves xs k = (l, k') \<Longrightarrow> stored k' = (case l of None \<Rightarrow> stored k | Some d \<Rightarrow> Some (Doc d))"
proof (induction xs k arbitrary: l rule: saves.induct)
  case (2 os d xs k)
  obtain r k1 where s: "save os d k = (r, k1)" by (cases "save os d k")
  obtain l1 k2 where x: "saves xs k1 = (l1, k2)" by (cases "saves xs k1")
  note IH = 2(1) [OF s [symmetric] refl, of l1]
  show ?case
    using 2(2) s x IH save_ok [of os d k k1] save_error [of os d k _ k1]
    by (cases r) (auto split: option.splits)
qed simp

lemma stored_not_torn: "save os d k = (r, k') \<Longrightarrow> stored k \<noteq> Some Torn \<Longrightarrow> stored k' \<noteq> Some Torn"
  using save_ok [of os d k k'] save_error [of os d k _ k'] by (cases r) auto

end

end
