(* ===== verification/Pep_History.thy ===== *)
theory Pep_History
  imports Attest Go_Files
begin

text \<open>
  The enforcement history of the PEP, \<^verbatim>\<open>pep/history.go\<close>: an append-only hash chain of events with the
  position of the last checkpoint that the verifier accepted. A nil receiver is \<open>None\<close>. The
  invariant \<open>hist_ok\<close> and the relation \<open>agrees\<close> to the verifier's record of the last checkpoint carry
  the main result: evidence built from a history that agrees with the verifier's record passes the
  verifier's check, and marking it accepted restores the agreement. The contract between the two
  sides is the locale \<open>evidence_exchange\<close>.
\<close>

definition eventPEPStart :: string where "eventPEPStart = ''pep_start''"
definition eventCapacityRequested :: string where "eventCapacityRequested = ''capacity_requested''"
definition eventCapacityAccepted :: string where "eventCapacityAccepted = ''capacity_accepted''"
definition eventXFRMApplyIntent :: string where "eventXFRMApplyIntent = ''xfrm_apply_intent''"
definition eventXFRMApplyObserved :: string where "eventXFRMApplyObserved = ''xfrm_apply_observed''"
definition eventSessionActivated :: string where "eventSessionActivated = ''session_activated''"
definition eventXFRMDeleteIntent :: string where "eventXFRMDeleteIntent = ''xfrm_delete_intent''"
definition eventXFRMDeleteObserved :: string where "eventXFRMDeleteObserved = ''xfrm_delete_observed''"
definition eventSessionExpired :: string where "eventSessionExpired = ''session_expired''"

lemmas event_names = eventPEPStart_def eventCapacityRequested_def eventCapacityAccepted_def
  eventXFRMApplyIntent_def eventXFRMApplyObserved_def eventSessionActivated_def eventXFRMDeleteIntent_def
  eventXFRMDeleteObserved_def eventSessionExpired_def

record EnforcementHistory =
  eh_pepID :: string
  eh_events :: "EnforcementEvent list"
  eh_lastEventHash :: string
  eh_lastIndex :: u64
  eh_lastAcceptedCheckpointHash :: string
  eh_lastAcceptedCheckpointIndex :: u64
  eh_lastAcceptedEpoch :: u64

record enforcementHistorySnapshot =
  hs_PEPID :: string
  hs_Events :: "EnforcementEvent list"
  hs_LastEventHash :: string
  hs_LastIndex :: u64
  hs_LastAcceptedCheckpointHash :: string
  hs_LastAcceptedCheckpointIndex :: u64
  hs_LastAcceptedEpoch :: u64

datatype hist_error =
    HistoryNotInitialized | HistoryIdentityMismatch | InvalidPersistedChain nat | InvalidPersistedHash nat
  | HistorySummaryMismatch | AcceptedAheadOfHistory | IndexBeyondLog | CheckpointSignError attest_error
  | AcceptedAheadOfLocal

definition NewEnforcementHistory :: "string \<Rightarrow> EnforcementHistory" where
  "NewEnforcementHistory pepID =
     \<lparr>eh_pepID = pepID, eh_events = [], eh_lastEventHash = '''', eh_lastIndex = 0,
      eh_lastAcceptedCheckpointHash = '''', eh_lastAcceptedCheckpointIndex = 0, eh_lastAcceptedEpoch = 0\<rparr>"

definition Snapshot :: "EnforcementHistory \<Rightarrow> enforcementHistorySnapshot" where
  "Snapshot h =
     \<lparr>hs_PEPID = eh_pepID h, hs_Events = eh_events h, hs_LastEventHash = eh_lastEventHash h,
      hs_LastIndex = eh_lastIndex h, hs_LastAcceptedCheckpointHash = eh_lastAcceptedCheckpointHash h,
      hs_LastAcceptedCheckpointIndex = eh_lastAcceptedCheckpointIndex h,
      hs_LastAcceptedEpoch = eh_lastAcceptedEpoch h\<rparr>"

text \<open>The loop of \<^verbatim>\<open>Restore\<close> over the persisted events.\<close>

fun restore_chain ::
  "prims \<Rightarrow> string \<Rightarrow> nat \<Rightarrow> string \<Rightarrow> u64 \<Rightarrow> EnforcementEvent list \<Rightarrow> hist_error + string \<times> u64" where
  "restore_chain P pepID i lastHash lastIndex [] = Inr (lastHash, lastIndex)"
| "restore_chain P pepID i lastHash lastIndex (event # events) =
     (if ev_PEPID event \<noteq> pepID \<or> ev_Index event \<noteq> lastIndex + 1 \<or> ev_PrevHash event \<noteq> lastHash
      then Inl (InvalidPersistedChain i)
      else let hash = HashEnforcementEvent P event in
        if hash \<noteq> ev_EventHash event then Inl (InvalidPersistedHash i)
        else restore_chain P pepID (Suc i) hash (ev_Index event) events)"

definition Restore :: "prims \<Rightarrow> enforcementHistorySnapshot \<Rightarrow> EnforcementHistory \<Rightarrow> hist_error + EnforcementHistory" where
  "Restore P snapshot h =
     (if hs_PEPID snapshot \<noteq> eh_pepID h then Inl HistoryIdentityMismatch
      else rbind (restore_chain P (eh_pepID h) 0 '''' 0 (hs_Events snapshot)) (\<lambda>(lastHash, lastIndex).
      if hs_LastEventHash snapshot \<noteq> lastHash \<or> hs_LastIndex snapshot \<noteq> lastIndex then Inl HistorySummaryMismatch
      else if hs_LastAcceptedCheckpointIndex snapshot > hs_LastIndex snapshot then Inl AcceptedAheadOfHistory
      else Inr (h\<lparr>eh_events := hs_Events snapshot, eh_lastEventHash := hs_LastEventHash snapshot,
                  eh_lastIndex := hs_LastIndex snapshot,
                  eh_lastAcceptedCheckpointHash := hs_LastAcceptedCheckpointHash snapshot,
                  eh_lastAcceptedCheckpointIndex := hs_LastAcceptedCheckpointIndex snapshot,
                  eh_lastAcceptedEpoch := hs_LastAcceptedEpoch snapshot\<rparr>)))"

text \<open>
  The event that \<^verbatim>\<open>AppendEvent\<close> builds, before it is hashed. The source writes the two session keys into
  the caller's map; the callers do not read them back.
\<close>

definition session_meta :: "Session \<Rightarrow> string smap option \<Rightarrow> string smap" where
  "session_meta s md =
     (let m = slice md;
          m = (if ss_ExpiresAt s \<noteq> '''' then AList.update ''expires_at'' (ss_ExpiresAt s) m else m)
      in if ss_AEAD s \<noteq> '''' then AList.update ''aead'' (ss_AEAD s) m else m)"

definition new_event ::
  "EnforcementHistory \<Rightarrow> time \<Rightarrow> string \<Rightarrow> Session option \<Rightarrow> string smap option \<Rightarrow> EnforcementEvent" where
  "new_event h now eventType session md =
     (let e = \<lparr>ev_Version = 1, ev_Index = eh_lastIndex h + 1, ev_EventType = eventType, ev_PEPID = eh_pepID h,
                ev_Timestamp = Format_RFC3339 now, ev_ServiceID = '''', ev_ClientPubKey = '''', ev_ClientOuterIP = '''',
                ev_ClientInnerIP = '''', ev_ClientInSPI = '''', ev_PEPInSPI = '''', ev_ReqID = 0, ev_Observed = False,
                ev_XFRMMode = '''', ev_XFRMPlanHash = '''', ev_Metadata = md, ev_PrevHash = eh_lastEventHash h,
                ev_EventHash = ''''\<rparr>;
          e = (case session of None \<Rightarrow> e
               | Some s \<Rightarrow> e\<lparr>ev_ServiceID := ss_ServiceID s, ev_ClientPubKey := ss_ClientPubKey s,
                             ev_ClientOuterIP := ss_ClientOuterIP s, ev_ClientInnerIP := ss_ClientInnerIP s,
                             ev_ClientInSPI := ss_ClientInSPI s, ev_PEPInSPI := ss_PEPInSPI s,
                             ev_ReqID := ss_ReqID s, ev_Metadata := Some (session_meta s md)\<rparr>)
      in if ev_Metadata e \<noteq> None \<and> length (slice (ev_Metadata e)) = 0 then e\<lparr>ev_Metadata := None\<rparr> else e)"

definition AppendEvent ::
  "prims \<Rightarrow> time \<Rightarrow> string \<Rightarrow> Session option \<Rightarrow> string smap option \<Rightarrow> EnforcementHistory option
    \<Rightarrow> hist_error + EnforcementEvent \<times> EnforcementHistory" where
  "AppendEvent P now eventType session md h =
     (case h of None \<Rightarrow> Inl HistoryNotInitialized
      | Some h \<Rightarrow>
        let e = new_event h now eventType session md;
            eh = HashEnforcementEvent P e;
            e = e\<lparr>ev_EventHash := eh\<rparr>
        in Inr (e, h\<lparr>eh_events := eh_events h @ [e], eh_lastIndex := ev_Index e, eh_lastEventHash := eh\<rparr>))"

definition BuildEvidence ::
  "prims \<Rightarrow> time \<Rightarrow> string \<Rightarrow> EnforcementHistory option \<Rightarrow> hist_error + HistoryEvidence" where
  "BuildEvidence P now pepPrivB64 h =
     (case h of None \<Rightarrow> Inl HistoryNotInitialized
      | Some h \<Rightarrow>
        let start = eh_lastAcceptedCheckpointIndex h in
        if unat start > length (eh_events h) then Inl IndexBeyondLog
        else let events = drop (unat start) (eh_events h);
                 checkpoint = \<lparr>cp_Version = 1, cp_PEPID = eh_pepID h, cp_Epoch = eh_lastAcceptedEpoch h + 1,
                   cp_PreviousCheckpointHash = eh_lastAcceptedCheckpointHash h,
                   cp_LastEventIndex = eh_lastIndex h, cp_LastEventHash = eh_lastEventHash h,
                   cp_EventCount = int (length events), cp_CreatedAt = Format_RFC3339 now, cp_Signature = ''''\<rparr>
             in (case SignEnforcementCheckpoint P checkpoint pepPrivB64 of
                   Inl e \<Rightarrow> Inl (CheckpointSignError e)
                 | Inr c \<Rightarrow> Inr \<lparr>he_PreviousCheckpointHash = eh_lastAcceptedCheckpointHash h,
                                  he_Events = events, he_Checkpoint = c\<rparr>))"

definition MarkCheckpointAccepted ::
  "prims \<Rightarrow> EnforcementCheckpoint \<Rightarrow> EnforcementHistory option \<Rightarrow> hist_error + EnforcementHistory" where
  "MarkCheckpointAccepted P checkpoint h =
     (case h of None \<Rightarrow> Inl HistoryNotInitialized
      | Some h \<Rightarrow>
        let checkpointHash = HashEnforcementCheckpoint P checkpoint in
        if cp_LastEventIndex checkpoint > eh_lastIndex h then Inl AcceptedAheadOfLocal
        else Inr (h\<lparr>eh_lastAcceptedCheckpointHash := checkpointHash,
                    eh_lastAcceptedCheckpointIndex := cp_LastEventIndex checkpoint,
                    eh_lastAcceptedEpoch := cp_Epoch checkpoint\<rparr>))"

text \<open>\<^verbatim>\<open>HashCanonical\<close> cannot fail on a plan, so \<^verbatim>\<open>"hash_error"\<close> is never returned.\<close>

definition xfrmPlanHash :: "prims \<Rightarrow> XFRMPlan \<Rightarrow> string" where
  "xfrmPlanHash P plan = HashCanonical P (plan_json plan)"

definition historyAppend ::
  "prims \<Rightarrow> time \<Rightarrow> string \<Rightarrow> Session option \<Rightarrow> string smap option \<Rightarrow> EnforcementHistory option \<Rightarrow> EnforcementHistory option" where
  "historyAppend P now eventType session md h =
     (case h of None \<Rightarrow> None
      | Some h' \<Rightarrow> (case AppendEvent P now eventType session md (Some h') of
                      Inl _ \<Rightarrow> Some h' | Inr (_, h'') \<Rightarrow> Some h''))"

subsection \<open>The invariant\<close>

definition stamp_ok :: "EnforcementEvent \<Rightarrow> bool" where
  "stamp_ok e \<longleftrightarrow> ev_Version e = 1 \<and> ev_Timestamp e \<noteq> '''' \<and> Parse_RFC3339 (ev_Timestamp e) \<noteq> None"

definition hist_ok :: "prims \<Rightarrow> EnforcementHistory \<Rightarrow> bool" where
  "hist_ok P h \<longleftrightarrow>
     chained P (eh_pepID h) '''' 0 (eh_events h)
     \<and> eh_lastEventHash h = end_hash '''' (eh_events h) \<and> eh_lastIndex h = end_index 0 (eh_events h)
     \<and> list_all stamp_ok (eh_events h) \<and> length (eh_events h) < 2 ^ 64
     \<and> unat (eh_lastAcceptedCheckpointIndex h) \<le> length (eh_events h)"

text \<open>The verifier's record of the last accepted checkpoint is where the history says it is.\<close>

definition agrees :: "prims \<Rightarrow> EnforcementHistory \<Rightarrow> EnforcementCheckpoint option \<Rightarrow> bool" where
  "agrees P h prev \<longleftrightarrow>
     eh_lastAcceptedCheckpointHash h = prev_hash P prev
     \<and> eh_lastAcceptedCheckpointIndex h = prev_last_index prev
     \<and> eh_lastAcceptedEpoch h + 1 = next_epoch prev
     \<and> end_hash '''' (take (unat (eh_lastAcceptedCheckpointIndex h)) (eh_events h)) = prev_last_hash prev"

text \<open>A checkpoint that summarises a prefix of the history.\<close>

definition covers :: "EnforcementHistory \<Rightarrow> EnforcementCheckpoint \<Rightarrow> bool" where
  "covers h cp \<longleftrightarrow> unat (cp_LastEventIndex cp) \<le> length (eh_events h)
     \<and> end_hash '''' (take (unat (cp_LastEventIndex cp)) (eh_events h)) = cp_LastEventHash cp"

lemma hist_ok_new: "hist_ok P (NewEnforcementHistory p)" and agrees_new: "agrees P (NewEnforcementHistory p) None"
  by (simp_all add: hist_ok_def agrees_def NewEnforcementHistory_def prev_defs)

lemma hist_ok_index:
  assumes "hist_ok P h"
  shows "unat (eh_lastIndex h) = length (eh_events h)"
proof -
  from assms chained_end_index [of P "eh_pepID h" "''''" 0 "eh_events h"]
  have "eh_lastIndex h = of_nat (length (eh_events h))" by (simp add: hist_ok_def)
  moreover from assms have "length (eh_events h) < 2 ^ 64" by (simp add: hist_ok_def)
  ultimately show ?thesis by (simp add: unat_of_nat)
qed

lemma new_event_simps [simp]:
  "ev_Version (new_event h now ty s md) = 1" "ev_Index (new_event h now ty s md) = eh_lastIndex h + 1"
  "ev_EventType (new_event h now ty s md) = ty" "ev_PEPID (new_event h now ty s md) = eh_pepID h"
  "ev_Timestamp (new_event h now ty s md) = Format_RFC3339 now"
  "ev_PrevHash (new_event h now ty s md) = eh_lastEventHash h"
  by (simp_all add: new_event_def Let_def split: option.splits)

lemma AppendEvent_Some:
  "AppendEvent P now ty s md (Some h) = Inr (e, h') \<longleftrightarrow>
     e = (new_event h now ty s md)\<lparr>ev_EventHash := HashEnforcementEvent P (new_event h now ty s md)\<rparr>
     \<and> h' = h\<lparr>eh_events := eh_events h @ [e], eh_lastIndex := eh_lastIndex h + 1, eh_lastEventHash := ev_EventHash e\<rparr>"
  by (auto simp: AppendEvent_def Let_def)

text \<open>What every append keeps. \<open>appends\<close> is the step relation of the history.\<close>

inductive appends :: "prims \<Rightarrow> EnforcementHistory \<Rightarrow> EnforcementHistory \<Rightarrow> bool" for P where
  "four_digit_year now \<Longrightarrow> Suc (length (eh_events h)) < 2 ^ 64
   \<Longrightarrow> AppendEvent P now ty s md (Some h) = Inr (e, h') \<Longrightarrow> appends P h h'"

inductive_cases appends_elim: "appends P h h'"

lemma appends_hist_ok:
  assumes "appends P h h'" "hist_ok P h"
  shows "hist_ok P h'"
  using assms(1)
proof (cases rule: appends.cases)
  case (1 now ty s md e)
  have "stamp_ok e" using 1 by (auto simp: AppendEvent_Some stamp_ok_def Parse_Format)
  with 1 assms(2) show ?thesis by (auto simp: hist_ok_def AppendEvent_Some chained_append)
qed

lemma appends_shape:
  "appends P h h' \<Longrightarrow> eh_pepID h' = eh_pepID h \<and> (\<exists>e. eh_events h' = eh_events h @ [e])
    \<and> eh_lastAcceptedCheckpointHash h' = eh_lastAcceptedCheckpointHash h
    \<and> eh_lastAcceptedCheckpointIndex h' = eh_lastAcceptedCheckpointIndex h
    \<and> eh_lastAcceptedEpoch h' = eh_lastAcceptedEpoch h"
  by (elim appends_elim) (auto simp: AppendEvent_Some)

lemma appends_agrees: "appends P h h' \<Longrightarrow> hist_ok P h \<Longrightarrow> agrees P h prev \<Longrightarrow> agrees P h' prev"
  by (drule appends_shape) (auto simp: agrees_def hist_ok_def)

lemma appends_covers: "appends P h h' \<Longrightarrow> covers h cp \<Longrightarrow> covers h' cp"
  by (drule appends_shape) (auto simp: covers_def)

subsection \<open>Evidence\<close>

lemma hist_ok_suffix:
  assumes "hist_ok P h" "n \<le> length (eh_events h)"
  shows "chained P (eh_pepID h) (end_hash '''' (take n (eh_events h))) (of_nat n) (drop n (eh_events h))"
    "end_hash (end_hash '''' (take n (eh_events h))) (drop n (eh_events h)) = eh_lastEventHash h"
    "end_index (of_nat n) (drop n (eh_events h)) = eh_lastIndex h"
proof -
  let ?es = "eh_events h"
  from assms(1) have ch: "chained P (eh_pepID h) '''' 0 (take n ?es @ drop n ?es)" by (simp add: hist_ok_def)
  then have "chained P (eh_pepID h) '''' 0 (take n ?es)" by (simp only: chained_append)
  from chained_end_index [OF this] assms(2) have i: "end_index 0 (take n ?es) = of_nat n" by simp
  with ch show "chained P (eh_pepID h) (end_hash '''' (take n ?es)) (of_nat n) (drop n ?es)"
    by (simp only: chained_append)
  from end_append(1) [of "''''" "take n ?es" "drop n ?es"] end_append(2) [of 0 "take n ?es" "drop n ?es"] assms(1) i
  show "end_hash (end_hash '''' (take n ?es)) (drop n ?es) = eh_lastEventHash h"
    "end_index (of_nat n) (drop n ?es) = eh_lastIndex h"
    by (simp_all add: hist_ok_def)
qed

lemma BuildEvidence_ok:
  assumes ok: "hist_ok P h" and ag: "agrees P h prev" and now: "four_digit_year now"
    and k: "ed25519_pair P priv pub" "decodePrivateKey privB64 = Inr priv" "decodePublicKey pubB64 = Inr pub"
    and b: "BuildEvidence P now privB64 (Some h) = Inr ev"
  shows "evidence_ok P ev (eh_pepID h) pubB64 prev" "covers h (he_Checkpoint ev)"
proof -
  let ?n = "unat (eh_lastAcceptedCheckpointIndex h)"
  define cp where "cp = \<lparr>cp_Version = 1, cp_PEPID = eh_pepID h, cp_Epoch = eh_lastAcceptedEpoch h + 1,
      cp_PreviousCheckpointHash = eh_lastAcceptedCheckpointHash h, cp_LastEventIndex = eh_lastIndex h,
      cp_LastEventHash = eh_lastEventHash h, cp_EventCount = int (length (drop ?n (eh_events h))),
      cp_CreatedAt = Format_RFC3339 now, cp_Signature = ''''\<rparr>"
  from ok have n: "?n \<le> length (eh_events h)" by (simp add: hist_ok_def)
  with b obtain c where c: "SignEnforcementCheckpoint P cp privB64 = Inr c"
    and ev: "ev = \<lparr>he_PreviousCheckpointHash = eh_lastAcceptedCheckpointHash h, he_Events = drop ?n (eh_events h), he_Checkpoint = c\<rparr>"
    by (auto simp: BuildEvidence_def Let_def cp_def split: sum.splits if_splits)
  obtain s where s: "c = cp\<lparr>cp_Signature := s\<rparr>" using checkpoint.sign_shape [OF c] by blast
  have "VerifyEnforcementCheckpoint P c pubB64 = Inr ()"
    using checkpoint.verify_signed [OF k] c by blast
  moreover have "stamp_ok e" if "e \<in> set (drop ?n (eh_events h))" for e
    using that ok by (auto simp: hist_ok_def list_all_iff dest: in_set_dropD)
  moreover have "of_nat ?n = prev_last_index prev" using ag by (simp add: agrees_def)
  ultimately show "evidence_ok P ev (eh_pepID h) pubB64 prev"
    using hist_ok_suffix [OF ok n] ag now
    by (simp add: evidence_ok_def ev s cp_def agrees_def stamp_ok_def Parse_Format)
  have "unat (eh_lastIndex h) = length (eh_events h)" by (rule hist_ok_index [OF ok])
  with ok show "covers h (he_Checkpoint ev)" by (simp add: covers_def ev s cp_def hist_ok_def)
qed

lemma BuildEvidence_total:
  assumes "hist_ok P h" "decodePrivateKey privB64 = Inr priv"
  shows "\<exists>ev. BuildEvidence P now privB64 (Some h) = Inr ev"
  using assms checkpoint.sign_law [OF assms(2)] by (auto simp: BuildEvidence_def Let_def hist_ok_def split: sum.splits)

lemma MarkCheckpointAccepted_ok:
  assumes "hist_ok P h" "covers h cp"
  shows "\<exists>h'. MarkCheckpointAccepted P cp (Some h) = Inr h' \<and> hist_ok P h' \<and> agrees P h' (Some cp) \<and> eh_pepID h' = eh_pepID h"
proof -
  have "cp_LastEventIndex cp \<le> eh_lastIndex h"
    using assms hist_ok_index [OF assms(1)] by (simp add: covers_def word_le_nat_alt)
  with assms show ?thesis
    by (auto simp: MarkCheckpointAccepted_def Let_def hist_ok_def agrees_def covers_def prev_defs)
qed

subsection \<open>Persistence\<close>

lemma restore_chain_iff:
  "restore_chain P p i h n es = Inr (h', n') \<longleftrightarrow> chained P p h n es \<and> h' = end_hash h es \<and> n' = end_index n es"
  by (induction es arbitrary: i h n) (auto simp: Let_def)

lemma Restore_iff:
  "Restore P s h = Inr h' \<longleftrightarrow>
     hs_PEPID s = eh_pepID h \<and> chained P (eh_pepID h) '''' 0 (hs_Events s)
     \<and> hs_LastEventHash s = end_hash '''' (hs_Events s) \<and> hs_LastIndex s = end_index 0 (hs_Events s)
     \<and> hs_LastAcceptedCheckpointIndex s \<le> hs_LastIndex s
     \<and> h' = h\<lparr>eh_events := hs_Events s, eh_lastEventHash := hs_LastEventHash s, eh_lastIndex := hs_LastIndex s,
              eh_lastAcceptedCheckpointHash := hs_LastAcceptedCheckpointHash s,
              eh_lastAcceptedCheckpointIndex := hs_LastAcceptedCheckpointIndex s,
              eh_lastAcceptedEpoch := hs_LastAcceptedEpoch s\<rparr>"
  by (auto simp: Restore_def result_iffs restore_chain_iff)

lemma Restore_Snapshot:
  assumes "hist_ok P h" "eh_pepID h0 = eh_pepID h"
  shows "Restore P (Snapshot h) h0 = Inr h"
proof -
  have "eh_lastAcceptedCheckpointIndex h \<le> eh_lastIndex h"
    using assms(1) hist_ok_index [OF assms(1)] by (simp add: hist_ok_def word_le_nat_alt)
  with assms show ?thesis by (simp add: Restore_iff Snapshot_def hist_ok_def)
qed

subsection \<open>The exchange of evidence\<close>

text \<open>
  The contract between a party that records events and submits checkpoints, and one that keeps the
  last checkpoint it accepted. A submission stays pending until its acceptance is confirmed, and the
  answer to it can be lost any number of times.
\<close>

locale evidence_exchange =
  fixes ok :: "'h \<Rightarrow> bool" and sync :: "'h \<Rightarrow> 'c option \<Rightarrow> bool" and summarises :: "'h \<Rightarrow> 'c \<Rightarrow> bool"
    and extend :: "'h \<Rightarrow> 'h \<Rightarrow> bool" and propose :: "'h \<Rightarrow> 'e \<Rightarrow> bool" and cp :: "'e \<Rightarrow> 'c"
    and accept :: "'e \<Rightarrow> 'c option \<Rightarrow> bool" and mark :: "'c \<Rightarrow> 'h \<Rightarrow> 'h option"
  assumes extend_ok: "extend h h' \<Longrightarrow> ok h \<Longrightarrow> ok h'"
    and extend_sync: "extend h h' \<Longrightarrow> ok h \<Longrightarrow> sync h c \<Longrightarrow> sync h' c"
    and extend_summarises: "extend h h' \<Longrightarrow> ok h \<Longrightarrow> summarises h k \<Longrightarrow> summarises h' k"
    and propose_accept: "ok h \<Longrightarrow> sync h c \<Longrightarrow> propose h e \<Longrightarrow> accept e c"
    and propose_summarises: "ok h \<Longrightarrow> sync h c \<Longrightarrow> propose h e \<Longrightarrow> summarises h (cp e)"
    and mark_sync: "ok h \<Longrightarrow> summarises h k \<Longrightarrow> \<exists>h'. mark k h = Some h' \<and> ok h' \<and> sync h' (Some k)"
begin

text \<open>The state: the history, the record of the other side, the pending submission.\<close>

inductive exchange :: "'h \<times> 'c option \<times> 'e option \<Rightarrow> 'h \<times> 'c option \<times> 'e option \<Rightarrow> bool" where
  record_event: "extend h h' \<Longrightarrow> exchange (h, c, p) (h', c, p)"
| submit: "propose h e \<Longrightarrow> exchange (h, c, None) (h, c, Some e)"
| accepted: "accept e c \<Longrightarrow> exchange (h, c, Some e) (h, Some (cp e), Some e)"
| confirmed: "c = Some (cp e) \<Longrightarrow> mark (cp e) h = Some h' \<Longrightarrow> exchange (h, c, Some e) (h', c, None)"

definition in_step :: "'h \<times> 'c option \<times> 'e option \<Rightarrow> bool" where
  "in_step s = (case s of (h, c, p) \<Rightarrow> ok h \<and> (case p of None \<Rightarrow> sync h c
     | Some e \<Rightarrow> summarises h (cp e) \<and> (accept e c \<or> c = Some (cp e))))"

lemma exchange_in_step: "exchange s s' \<Longrightarrow> in_step s \<Longrightarrow> in_step s'"
proof (induction rule: exchange.induct)
  case (record_event h h' c p)
  then show ?case
    using extend_ok extend_sync extend_summarises by (auto simp: in_step_def split: option.splits)
next
  case (submit h e c)
  then show ?case using propose_accept propose_summarises by (auto simp: in_step_def)
next
  case (accepted e c h)
  then show ?case by (auto simp: in_step_def)
next
  case (confirmed c e h h')
  then show ?case using mark_sync [of h "cp e"] by (auto simp: in_step_def)
qed

lemma reachable_in_step: "exchange\<^sup>*\<^sup>* s s' \<Longrightarrow> in_step s \<Longrightarrow> in_step s'"
  by (induction rule: rtranclp_induct) (auto intro: exchange_in_step)

text \<open>A pending submission can always be completed.\<close>

lemma pending_completes:
  assumes "in_step (h, c, Some e)"
  shows "\<exists>h'. exchange\<^sup>*\<^sup>* (h, c, Some e) (h', Some (cp e), None)"
proof -
  from assms mark_sync [of h "cp e"] obtain h' where m: "mark (cp e) h = Some h'" by (auto simp: in_step_def)
  have last: "exchange (h, Some (cp e), Some e) (h', Some (cp e), None)" by (rule confirmed) (simp_all add: m)
  from assms consider "accept e c" | "c = Some (cp e)" by (auto simp: in_step_def)
  then show ?thesis
  proof cases
    case 1
    with last show ?thesis by (meson accepted converse_rtranclp_into_rtranclp rtranclp.rtrancl_refl)
  next
    case 2
    with last show ?thesis by blast
  qed
qed

end

text \<open>The PEP's history and the verifier's evidence check are such a pair.\<close>

definition pep_ready :: "prims \<Rightarrow> string \<Rightarrow> Ed25519Identity \<Rightarrow> EnforcementHistory \<Rightarrow> bool" where
  "pep_ready P p key h \<longleftrightarrow> hist_ok P h \<and> eh_pepID h = p
     \<and> (\<exists>priv pub. ed25519_pair P priv pub \<and> decodePrivateKey (id_PrivateKey key) = Inr priv
          \<and> decodePublicKey (id_PublicKey key) = Inr pub)"

definition builds :: "prims \<Rightarrow> Ed25519Identity \<Rightarrow> EnforcementHistory \<Rightarrow> HistoryEvidence \<Rightarrow> bool" where
  "builds P key h ev \<longleftrightarrow> (\<exists>now. four_digit_year now \<and> BuildEvidence P now (id_PrivateKey key) (Some h) = Inr ev)"

definition marks :: "prims \<Rightarrow> EnforcementCheckpoint \<Rightarrow> EnforcementHistory \<Rightarrow> EnforcementHistory option" where
  "marks P cp h = (case MarkCheckpointAccepted P cp (Some h) of Inl _ \<Rightarrow> None | Inr h' \<Rightarrow> Some h')"

interpretation pep_verifier: evidence_exchange "pep_ready P p key" "agrees P" covers "appends P" "builds P key"
  he_Checkpoint "\<lambda>ev prev. evidence_ok P ev p (id_PublicKey key) prev" "marks P" for P p key
proof unfold_locales
  fix h h' assume "appends P h h'" "pep_ready P p key h"
  then show "pep_ready P p key h'" using appends_hist_ok appends_shape by (auto simp: pep_ready_def)
next
  fix h h' prev assume "appends P h h'" "pep_ready P p key h" "agrees P h prev"
  then show "agrees P h' prev" using appends_agrees by (auto simp: pep_ready_def)
next
  fix h h' k assume "appends P h h'" "covers h k"
  then show "covers h' k" by (rule appends_covers)
next
  fix h prev ev assume "pep_ready P p key h" "agrees P h prev" "builds P key h ev"
  then show "evidence_ok P ev p (id_PublicKey key) prev" "covers h (he_Checkpoint ev)"
    using BuildEvidence_ok [of P h prev] by (auto simp: pep_ready_def builds_def)
next
  fix h k assume "pep_ready P p key h" "covers h k"
  then show "\<exists>h'. marks P k h = Some h' \<and> pep_ready P p key h' \<and> agrees P h' (Some k)"
    using MarkCheckpointAccepted_ok [of P h k] by (auto simp: pep_ready_def marks_def)
qed

subsection \<open>Properties\<close>

text \<open>
  (C16) Completeness: the evidence that the PEP builds from a well-formed history, when the verifier's
  record of its last accepted checkpoint is the one the history remembers, passes the verifier's
  check, whatever events were recorded since.
\<close>
theorem pep_evidence_accepted:
  assumes "hist_ok P h" and "agrees P h prev" and "four_digit_year now"
    and "ed25519_pair P priv pub" and "decodePrivateKey privB64 = Inr priv" and "decodePublicKey pubB64 = Inr pub"
  shows "\<exists>ev. BuildEvidence P now privB64 (Some h) = Inr ev
    \<and> VerifyHistoryEvidence P ev (eh_pepID h) pubB64 prev = Inr (HashEnforcementCheckpoint P (he_Checkpoint ev))"
proof -
  from BuildEvidence_total [OF assms(1,5)] obtain ev where b: "BuildEvidence P now privB64 (Some h) = Inr ev" by blast
  with BuildEvidence_ok(1) [OF assms b] show ?thesis by (auto simp: VerifyHistoryEvidence_iff)
qed


text \<open>
  A snapshot of a well-formed history, restored into a fresh history of the same PEP, gives the
  history back.
\<close>
theorem history_snapshot_roundtrip:
  assumes "hist_ok P h"
  shows "Restore P (Snapshot h) (NewEnforcementHistory (eh_pepID h)) = Inr h"
  using Restore_Snapshot [OF assms] by (simp add: NewEnforcementHistory_def)

text \<open>
  \<^verbatim>\<open>Restore\<close> accepts exactly the snapshots of the same PEP whose events form a hash chain from the
  first index, with a matching summary and an accepted position inside the history.
\<close>
theorem history_restore_exact:
  "is_ok (Restore P s h) \<longleftrightarrow>
     hs_PEPID s = eh_pepID h \<and> chained P (eh_pepID h) '''' 0 (hs_Events s)
     \<and> hs_LastEventHash s = end_hash '''' (hs_Events s) \<and> hs_LastIndex s = end_index 0 (hs_Events s)
     \<and> hs_LastAcceptedCheckpointIndex s \<le> hs_LastIndex s"
  by (auto simp: is_ok_iff Restore_iff)

text \<open>
  (C17) The exchange with the verifier never gets stuck on its own bookkeeping: from a fresh PEP and a
  verifier that has no record of it, under any sequence of recorded events, submissions, acceptances
  with lost answers and confirmations, a pending evidence is accepted by the verifier's check now or
  is already its recorded checkpoint, and its confirmation succeeds.
\<close>
theorem pep_exchange_never_stuck:
  assumes "pep_ready P p key (NewEnforcementHistory p)"
    and "(pep_verifier.exchange P key p)\<^sup>*\<^sup>* (NewEnforcementHistory p, None, None) (h, c, Some ev)"
  shows "(is_ok (VerifyHistoryEvidence P ev p (id_PublicKey key) c) \<or> c = Some (he_Checkpoint ev))
    \<and> (\<exists>h'. MarkCheckpointAccepted P (he_Checkpoint ev) (Some h) = Inr h' \<and> agrees P h' (Some (he_Checkpoint ev)))"
proof -
  have "pep_verifier.in_step P p key (NewEnforcementHistory p, None, None)"
    using assms(1) by (simp add: pep_verifier.in_step_def agrees_new)
  with assms(2) have s: "pep_verifier.in_step P p key (h, c, Some ev)" by (rule pep_verifier.reachable_in_step)
  then have "hist_ok P h" "covers h (he_Checkpoint ev)" by (simp_all add: pep_verifier.in_step_def pep_ready_def)
  from MarkCheckpointAccepted_ok [OF this] s show ?thesis
    by (auto simp: pep_verifier.in_step_def is_ok_iff VerifyHistoryEvidence_iff)
qed

subsection \<open>Examples\<close>

definition demo_key :: Ed25519Identity where
  "demo_key = \<lparr>id_PublicKey = base64_EncodeToString (replicate 32 1), id_PrivateKey = base64_EncodeToString (replicate 64 1)\<rparr>"

lemma demo_key_decodes:
  "decodePrivateKey (id_PrivateKey demo_key) = Inr (replicate 64 1)"
  "decodePublicKey (id_PublicKey demo_key) = Inr (replicate 32 1)"
  by (simp_all add: demo_key_def decodePrivateKey_def decodePublicKey_def ed25519_PrivateKeySize_def ed25519_PublicKeySize_def)

lemma demo_ready: "pep_ready demo_prims p demo_key (NewEnforcementHistory p)"
proof -
  have "ed25519_pair demo_prims (replicate 64 1) (replicate 32 1)" by simp
  with demo_key_decodes hist_ok_new show ?thesis by (auto simp: pep_ready_def NewEnforcementHistory_def)
qed

abbreviation (input) demo_now :: time where "demo_now \<equiv> 1735689600 * Second"

lemma demo_year: "four_digit_year demo_now"
  by code_simp

theorem pep_evidence_accepted_witness:
  "\<exists>ev. BuildEvidence demo_prims demo_now (id_PrivateKey demo_key) (Some (NewEnforcementHistory ''p'')) = Inr ev"
  using pep_evidence_accepted [OF hist_ok_new agrees_new demo_year demo_prims_ok(1) demo_key_decodes] by blast

lemma demo_append:
  obtains e h where "AppendEvent demo_prims demo_now eventPEPStart None None (Some (NewEnforcementHistory ''p'')) = Inr (e, h)"
  by (auto simp: AppendEvent_def Let_def)


theorem history_snapshot_roundtrip_witness:
  "Restore demo_prims (Snapshot (NewEnforcementHistory ''p'')) (NewEnforcementHistory ''p'') = Inr (NewEnforcementHistory ''p'')"
  using history_snapshot_roundtrip [OF hist_ok_new, of demo_prims "''p''"] by (simp add: NewEnforcementHistory_def)

theorem pep_exchange_never_stuck_witness:
  "\<exists>ev. is_ok (VerifyHistoryEvidence demo_prims ev ''p'' (id_PublicKey demo_key) None)"
proof -
  from BuildEvidence_total [OF hist_ok_new demo_key_decodes(1)] obtain ev where
    "BuildEvidence demo_prims demo_now (id_PrivateKey demo_key) (Some (NewEnforcementHistory ''p'')) = Inr ev" by blast
  then have "builds demo_prims demo_key (NewEnforcementHistory ''p'') ev" using demo_year by (auto simp: builds_def)
  then have "(pep_verifier.exchange demo_prims demo_key ''p'')\<^sup>*\<^sup>* (NewEnforcementHistory ''p'', None, None)
      (NewEnforcementHistory ''p'', None, Some ev)"
    by (intro r_into_rtranclp pep_verifier.submit)
  from pep_exchange_never_stuck [OF demo_ready this] show ?thesis by auto
qed

end
