(* ===== verification/Ipsec.thy ===== *)
theory Ipsec
  imports Crypto Protocol
begin

text \<open>
  \<^verbatim>\<open>common/ipsecutil/ipsecutil.go\<close>: SPIs and request ids from random bytes, the XFRM keys derived from
  the session keys, and the shell commands that install and remove the two sides of a tunnel. The
  bytes that \<^verbatim>\<open>crypto/rand\<close> returns are an input, \<open>None\<close> when it fails.
\<close>

record TunnelPlanInput =
  ti_ClientOuterIP :: string
  ti_ClientInnerIP :: string
  ti_PEPOuterIP :: string
  ti_ServiceIP :: string
  ti_NATTPort :: int
  ti_ClientInSPI :: string
  ti_PEPInSPI :: string
  ti_ReqID :: u32
  ti_C2PKeyB64 :: string
  ti_P2CKeyB64 :: string

definition GenerateSPI :: "bytes option \<Rightarrow> string option" where
  "GenerateSPI rand = (case rand of None \<Rightarrow> None
     | Some b \<Rightarrow>
       let b = (if b = [0, 0, 0, 0] then b[3 := 1] else b)
       in Some (''0x'' @ hex08 (be32_get b)))"

definition GenerateReqID :: "bytes option \<Rightarrow> u32 option" where
  "GenerateReqID rand = (case rand of None \<Rightarrow> None
     | Some b \<Rightarrow> let v = be32_get b in Some (if v = 0 then 1 else v))"

definition DeriveXFRMAEADKey :: "prims \<Rightarrow> string \<Rightarrow> string \<Rightarrow> string option" where
  "DeriveXFRMAEADKey P sessionKeyB64 label =
     (case base64_DecodeString sessionKeyB64 of None \<Rightarrow> None
      | Some raw \<Rightarrow>
        let h = sha256_Sum256 P (str_bytes label @ raw) in Some (hex_EncodeToString (take 20 h)))"

subsection \<open>Command lines\<close>

definition state_add :: "string \<Rightarrow> string \<Rightarrow> string \<Rightarrow> string \<Rightarrow> string \<Rightarrow> string \<Rightarrow> string" where
  "state_add src dst spi reqID port key =
     ''ip xfrm state add src '' @ src @ '' dst '' @ dst @ '' proto esp spi '' @ spi @ '' reqid '' @ reqID
     @ '' mode tunnel encap espinudp '' @ port @ '' '' @ port @ '' 0.0.0.0 aead ''
     @ [CHR 0x27] @ ''rfc4106(gcm(aes))'' @ [CHR 0x27] @ '' 0x'' @ key @ '' 128''"

definition policy_add :: "string \<Rightarrow> string \<Rightarrow> string \<Rightarrow> string \<Rightarrow> string \<Rightarrow> string \<Rightarrow> string" where
  "policy_add src dst dir tsrc tdst reqID =
     ''ip xfrm policy add src '' @ src @ '' dst '' @ dst @ '' dir '' @ dir @ '' tmpl src '' @ tsrc @ '' dst '' @ tdst
     @ '' proto esp reqid '' @ reqID @ '' mode tunnel''"

definition policy_delete :: "string \<Rightarrow> string \<Rightarrow> string \<Rightarrow> string" where
  "policy_delete src dst dir = ''ip xfrm policy delete src '' @ src @ '' dst '' @ dst @ '' dir '' @ dir"

definition state_delete :: "string \<Rightarrow> string \<Rightarrow> string \<Rightarrow> string" where
  "state_delete src dst spi = ''ip xfrm state delete src '' @ src @ '' dst '' @ dst @ '' proto esp spi '' @ spi"

definition BuildPEPXFRMTunnelPlan :: "prims \<Rightarrow> TunnelPlanInput \<Rightarrow> XFRMPlan option" where
  "BuildPEPXFRMTunnelPlan P i =
     (case DeriveXFRMAEADKey P (ti_C2PKeyB64 i) ''xfrm-c2p'' of None \<Rightarrow> None
      | Some c2pKey \<Rightarrow>
     (case DeriveXFRMAEADKey P (ti_P2CKeyB64 i) ''xfrm-p2c'' of None \<Rightarrow> None
      | Some p2cKey \<Rightarrow>
        let reqID = utoa (ti_ReqID i); nattPort = itoa (ti_NATTPort i) in
        Some \<lparr>xp_Mode = ''pep-natt-tunnel'',
          xp_Commands =
            [state_add (ti_ClientOuterIP i) (ti_PEPOuterIP i) (ti_PEPInSPI i) reqID nattPort c2pKey,
             policy_add (ti_ClientInnerIP i) (ti_ServiceIP i) ''fwd'' (ti_ClientOuterIP i) (ti_PEPOuterIP i) reqID,
             state_add (ti_PEPOuterIP i) (ti_ClientOuterIP i) (ti_ClientInSPI i) reqID nattPort p2cKey,
             policy_add (ti_ServiceIP i) (ti_ClientInnerIP i) ''out'' (ti_PEPOuterIP i) (ti_ClientOuterIP i) reqID],
          xp_DeleteCommands =
            [policy_delete (ti_ClientInnerIP i) (ti_ServiceIP i) ''fwd'',
             policy_delete (ti_ServiceIP i) (ti_ClientInnerIP i) ''out'',
             state_delete (ti_ClientOuterIP i) (ti_PEPOuterIP i) (ti_PEPInSPI i),
             state_delete (ti_PEPOuterIP i) (ti_ClientOuterIP i) (ti_ClientInSPI i)]\<rparr>))"

definition BuildClientXFRMTunnelPlan :: "prims \<Rightarrow> TunnelPlanInput \<Rightarrow> XFRMPlan option" where
  "BuildClientXFRMTunnelPlan P i =
     (case DeriveXFRMAEADKey P (ti_C2PKeyB64 i) ''xfrm-c2p'' of None \<Rightarrow> None
      | Some c2pKey \<Rightarrow>
     (case DeriveXFRMAEADKey P (ti_P2CKeyB64 i) ''xfrm-p2c'' of None \<Rightarrow> None
      | Some p2cKey \<Rightarrow>
        let reqID = utoa (ti_ReqID i); nattPort = itoa (ti_NATTPort i) in
        Some \<lparr>xp_Mode = ''client-natt-tunnel'',
          xp_Commands =
            [''ip addr replace '' @ ti_ClientInnerIP i @ ''/32 dev lo'',
             ''ip route replace '' @ ti_ServiceIP i @ ''/32 via '' @ ti_PEPOuterIP i @ '' src '' @ ti_ClientInnerIP i,
             state_add (ti_PEPOuterIP i) (ti_ClientOuterIP i) (ti_ClientInSPI i) reqID nattPort p2cKey,
             policy_add (ti_ServiceIP i) (ti_ClientInnerIP i) ''in'' (ti_PEPOuterIP i) (ti_ClientOuterIP i) reqID,
             state_add (ti_ClientOuterIP i) (ti_PEPOuterIP i) (ti_PEPInSPI i) reqID nattPort c2pKey,
             policy_add (ti_ClientInnerIP i) (ti_ServiceIP i) ''out'' (ti_ClientOuterIP i) (ti_PEPOuterIP i) reqID],
          xp_DeleteCommands =
            [policy_delete (ti_ClientInnerIP i) (ti_ServiceIP i) ''out'',
             policy_delete (ti_ServiceIP i) (ti_ClientInnerIP i) ''in'',
             state_delete (ti_ClientOuterIP i) (ti_PEPOuterIP i) (ti_PEPInSPI i),
             state_delete (ti_PEPOuterIP i) (ti_ClientOuterIP i) (ti_ClientInSPI i),
             ''ip route delete '' @ ti_ServiceIP i @ ''/32 via '' @ ti_PEPOuterIP i @ '' src '' @ ti_ClientInnerIP i,
             ''ip addr delete '' @ ti_ClientInnerIP i @ ''/32 dev lo'']\<rparr>))"

definition BuildXFRMTunnelPlan :: "prims \<Rightarrow> TunnelPlanInput \<Rightarrow> XFRMPlan option" where
  "BuildXFRMTunnelPlan P i = BuildPEPXFRMTunnelPlan P i"

subsection \<open>Lemmas\<close>

lemma base256_step: "(r :: nat) < 256 \<Longrightarrow> (q * 256 + r) div 256 = q" "(r :: nat) < 256 \<Longrightarrow> (q * 256 + r) mod 256 = r"
  by simp_all

lemma be32_put_get:
  assumes "length b = 4"
  shows "be32_put (be32_get b) = b"
proof -
  obtain b0 b1 b2 b3 where b: "b = [b0, b1, b2, b3]"
    using assms by (auto simp: length_Suc_conv numeral_eq_Suc)
  have lt: "unat b0 < 256" "unat b1 < 256" "unat b2 < 256" "unat b3 < 256" by (rule unat_byte_less)+
  define n where "n = ((unat b0 * 256 + unat b1) * 256 + unat b2) * 256 + unat b3"
  have "n < 2 ^ 32" using lt by (simp add: n_def)
  moreover have "fold (\<lambda>b a. a * 256 + unat b) b 0 = n" by (simp add: b n_def)
  then have "be32_get b = of_nat n" by (simp only: be32_get_def)
  ultimately have n: "unat (be32_get b) = n" by (simp add: unat_of_nat)
  have d1: "n div 256 = (unat b0 * 256 + unat b1) * 256 + unat b2" "n mod 256 = unat b3"
    using lt(4) by (simp_all only: n_def base256_step)
  have d2: "n div 256 div 256 = unat b0 * 256 + unat b1" "n div 256 mod 256 = unat b2"
    using lt(3) by (simp_all only: d1 base256_step)
  have d3: "n div 256 div 256 div 256 = unat b0" "n div 256 div 256 mod 256 = unat b1"
    using lt(2) by (simp_all only: d2 base256_step)
  have p: "n div 16777216 = n div 256 div 256 div 256" "n div 65536 = n div 256 div 256"
    by (simp_all add: div_mult2_eq [symmetric])
  have q: "n div 16777216 = unat b0" "n div 65536 mod 256 = unat b1" by (simp_all only: p d3)
  show ?thesis
    using lt n unfolding b by (simp add: be32_put_def Let_def q d2(2) d1(2))
qed

lemma GenerateSPI_Some:
  assumes "length b = 4"
  obtains c where "GenerateSPI (Some b) = Some (''0x'' @ hex08 (be32_get c))" "length c = 4" "c \<noteq> [0, 0, 0, 0]"
proof -
  let ?c = "if b = [0, 0, 0, 0] then b[3 := 1] else b"
  have "GenerateSPI (Some b) = Some (''0x'' @ hex08 (be32_get ?c))" by (simp add: GenerateSPI_def Let_def)
  then show thesis by (rule that) (use assms in auto)
qed

subsection \<open>Properties\<close>

text \<open>
  An SPI is the prefix \<^verbatim>\<open>0x\<close> and eight hexadecimal digits, and never denotes 0, whatever four bytes
  the random source returns.
\<close>
theorem spi_format:
  assumes "length b = 4"
  shows "\<exists>w. GenerateSPI (Some b) = Some (''0x'' @ hex08 w) \<and> w \<noteq> 0 \<and> length (hex08 w) = 8"
proof -
  obtain c where c: "GenerateSPI (Some b) = Some (''0x'' @ hex08 (be32_get c))" "length c = 4" "c \<noteq> [0, 0, 0, 0]"
    using GenerateSPI_Some [OF assms] .
  have "be32_get c \<noteq> 0"
  proof
    assume "be32_get c = 0"
    with be32_put_get [OF c(2)] have "c = be32_put 0" by simp
    with c(3) show False by (simp add: be32_put_def)
  qed
  with c(1) show ?thesis by auto
qed


text \<open>
  The client's SPI reaches the shell as it is: for every string the client sends, the PEP's plan
  contains a command in which that string stands unquoted, so that \<^verbatim>\<open>sh -c\<close> executes what follows a
  semicolon in it.
\<close>
theorem client_spi_reaches_shell:
  assumes "BuildPEPXFRMTunnelPlan P (i\<lparr>ti_ClientInSPI := ''1; '' @ cmd @ ''; :''\<rparr>) = Some plan"
  shows "\<exists>pre post. pre @ ''; '' @ cmd @ ''; '' @ post \<in> set (xp_Commands plan)"
proof -
  obtain key where key: "xp_Commands plan ! 2 = state_add (ti_PEPOuterIP i) (ti_ClientOuterIP i)
      (''1; '' @ cmd @ ''; :'') (utoa (ti_ReqID i)) (itoa (ti_NATTPort i)) key"
    and len: "length (xp_Commands plan) = 4"
    using assms by (auto simp: BuildPEPXFRMTunnelPlan_def Let_def split: option.splits)
  let ?pre = "''ip xfrm state add src '' @ ti_PEPOuterIP i @ '' dst '' @ ti_ClientOuterIP i @ '' proto esp spi 1''"
  obtain post where "xp_Commands plan ! 2 = ?pre @ ''; '' @ cmd @ ''; '' @ post"
    by (simp add: key state_add_def)
  with len show ?thesis by (metis nth_mem numeral_less_iff semiring_norm(78) semiring_norm(76))
qed

subsection \<open>Examples\<close>

definition demo_input :: TunnelPlanInput where
  "demo_input = \<lparr>ti_ClientOuterIP = ''1.1.1.1'', ti_ClientInnerIP = ''10.200.0.10'', ti_PEPOuterIP = ''2.2.2.2'',
     ti_ServiceIP = ''172.22.0.50'', ti_NATTPort = 4500, ti_ClientInSPI = ''0x00000001'', ti_PEPInSPI = ''0x00000002'',
     ti_ReqID = 7, ti_C2PKeyB64 = '''', ti_P2CKeyB64 = ''''\<rparr>"

lemma demo_plans:
  obtains pep cl where "BuildPEPXFRMTunnelPlan demo_prims (demo_input\<lparr>ti_ClientInSPI := spi\<rparr>) = Some pep"
    "BuildClientXFRMTunnelPlan demo_prims (demo_input\<lparr>ti_ClientInSPI := spi\<rparr>) = Some cl"
proof -
  have "base64_DecodeString '''' = Some []" by code_simp
  then show thesis
    by (intro that)
      (simp_all add: BuildPEPXFRMTunnelPlan_def BuildClientXFRMTunnelPlan_def DeriveXFRMAEADKey_def demo_input_def Let_def)
qed

theorem spi_format_witness: "\<exists>w. GenerateSPI (Some [0, 0, 0, 0]) = Some (''0x'' @ hex08 w) \<and> w \<noteq> 0"
  using spi_format [of "[0, 0, 0, 0]"] by auto


theorem client_spi_reaches_shell_witness:
  "\<exists>plan pre post. BuildPEPXFRMTunnelPlan demo_prims (demo_input\<lparr>ti_ClientInSPI := ''1; '' @ ''reboot'' @ ''; :''\<rparr>) = Some plan
     \<and> pre @ ''; '' @ ''reboot'' @ ''; '' @ post \<in> set (xp_Commands plan)"
proof -
  obtain plan where "BuildPEPXFRMTunnelPlan demo_prims (demo_input\<lparr>ti_ClientInSPI := ''1; '' @ ''reboot'' @ ''; :''\<rparr>) = Some plan"
    by (rule demo_plans)
  with client_spi_reaches_shell [OF this] show ?thesis by blast
qed

end
