(* ===== verification/Pep_Xfrm.thy ===== *)
theory Pep_Xfrm
  imports Pep_History Ipsec
begin

text \<open>
  \<^verbatim>\<open>pep/xfrm.go\<close>: building, applying and deleting an XFRM plan, and the post-hoc observation of the
  kernel state. The kernel is a parameter: \<open>k_sh\<close> runs a shell command on a kernel state (an error
  text, or \<open>None\<close> on success, and the new state), \<open>k_ip\<close> is the output of \<^verbatim>\<open>ip\<close> with the given arguments
  on a state, with an error text when the command fails.
\<close>

record 'k kernel =
  k_sh :: "string \<Rightarrow> 'k \<Rightarrow> string option \<times> 'k"
  k_ip :: "'k \<Rightarrow> string list \<Rightarrow> string \<times> string option"

record xfrmLookupResult =
  lr_present :: bool
  lr_exact :: bool
  lr_detail :: string

definition buildXFRMPlan :: "prims \<Rightarrow> Session \<Rightarrow> XFRMPlan option" where
  "buildXFRMPlan P s = BuildXFRMTunnelPlan P
     \<lparr>ti_ClientOuterIP = ss_ClientOuterIP s, ti_ClientInnerIP = ss_ClientInnerIP s,
      ti_PEPOuterIP = ss_PEPOuterIP s, ti_ServiceIP = ss_ServiceIP s, ti_NATTPort = ss_NATTPort s,
      ti_ClientInSPI = ss_ClientInSPI s, ti_PEPInSPI = ss_PEPInSPI s, ti_ReqID = ss_ReqID s,
      ti_C2PKeyB64 = ss_C2PKey s, ti_P2CKeyB64 = ss_P2CKey s\<rparr>"

fun run_all :: "'k kernel \<Rightarrow> string list \<Rightarrow> 'k \<Rightarrow> string option \<times> 'k" where
  "run_all K [] k = (None, k)"
| "run_all K (cmd # cmds) k =
     (case k_sh K cmd k of (Some err, k) \<Rightarrow> (Some (''xfrm command failed: '' @ cmd @ '': '' @ err), k)
      | (None, k) \<Rightarrow> run_all K cmds k)"

definition maybeApplyXFRM :: "env \<Rightarrow> 'k kernel \<Rightarrow> XFRMPlan \<Rightarrow> 'k \<Rightarrow> string option \<times> 'k" where
  "maybeApplyXFRM env K x k =
     (if getenv env ''XFRM_MODE'' ''dry-run'' \<noteq> ''apply'' then (None, k) else run_all K (xp_Commands x) k)"

text \<open>Deletion ignores the errors of the single commands.\<close>

fun run_each :: "'k kernel \<Rightarrow> string list \<Rightarrow> 'k \<Rightarrow> 'k" where
  "run_each K [] k = k"
| "run_each K (cmd # cmds) k = run_each K cmds (snd (k_sh K cmd k))"

definition maybeDeleteXFRM :: "env \<Rightarrow> 'k kernel \<Rightarrow> XFRMPlan \<Rightarrow> 'k \<Rightarrow> string option \<times> 'k" where
  "maybeDeleteXFRM env K x k =
     (if getenv env ''XFRM_MODE'' ''dry-run'' \<noteq> ''apply'' then (None, k) else (None, run_each K (xp_DeleteCommands x) k))"

subsection \<open>Reading the kernel state\<close>

text \<open>\<^verbatim>\<open>containsSequence\<close>: the inner loop compares at one offset, the outer one tries all offsets.\<close>

fun match_at :: "string list \<Rightarrow> string list \<Rightarrow> bool" where
  "match_at flds [] = True"
| "match_at [] (s # sequence) = False"
| "match_at (f # flds) (s # sequence) = (if f \<noteq> strings_ToLower s then False else match_at flds sequence)"

fun match_from :: "string list \<Rightarrow> string list \<Rightarrow> bool" where
  "match_from [] sequence = match_at [] sequence"
| "match_from (f # flds) sequence =
     (if length sequence > length (f # flds) then False
      else if match_at (f # flds) sequence then True else match_from flds sequence)"

definition containsSequence :: "string list \<Rightarrow> string list \<Rightarrow> bool" where
  "containsSequence flds sequence =
     (if length sequence = 0 \<or> length sequence > length flds then False else match_from flds sequence)"

definition containsFieldPair :: "string list \<Rightarrow> string \<Rightarrow> string \<Rightarrow> bool" where
  "containsFieldPair flds key val = containsSequence flds [strings_ToLower key, strings_ToLower val]"

definition containsAddressPair :: "string list \<Rightarrow> string \<Rightarrow> string \<Rightarrow> bool" where
  "containsAddressPair flds key address =
     (containsSequence flds [strings_ToLower key, strings_ToLower address]
      \<or> containsSequence flds [strings_ToLower key, strings_ToLower address @ ''/32''])"

definition isXFRMNotFound :: "string \<Rightarrow> bool" where
  "isXFRMNotFound out =
     (let text = strings_ToLower out in
      strings_Contains text ''no such file'' \<or> strings_Contains text ''no such process'' \<or> strings_Contains text ''not found'')"

definition mismatchDetail :: "bool \<Rightarrow> string \<Rightarrow> string" where
  "mismatchDetail exact out =
     (if exact then '''' else ''XFRM object exists but does not match all expected fields: '' @ strings_TrimSpace out)"

text \<open>The common shape of the two lookups: query, not-found, other error, comparison of the fields.\<close>

definition lookup_result :: "string \<times> string option \<Rightarrow> (string list \<Rightarrow> bool) \<Rightarrow> xfrmLookupResult" where
  "lookup_result r exact_of =
     (case r of
        (out, Some err) \<Rightarrow>
          if isXFRMNotFound out then \<lparr>lr_present = False, lr_exact = True, lr_detail = ''''\<rparr>
          else \<lparr>lr_present = False, lr_exact = False, lr_detail = strings_TrimSpace out @ '': '' @ err\<rparr>
      | (out, None) \<Rightarrow>
          let exact = exact_of (strings_Fields (strings_ToLower out))
          in \<lparr>lr_present = True, lr_exact = exact, lr_detail = mismatchDetail exact out\<rparr>)"

definition lookupXFRMState :: "(string list \<Rightarrow> string \<times> string option) \<Rightarrow> string \<Rightarrow> string \<Rightarrow> string \<Rightarrow> string \<Rightarrow> xfrmLookupResult" where
  "lookupXFRMState runIPXFRM src dst spi reqid =
     lookup_result (runIPXFRM [''xfrm'', ''state'', ''get'', ''src'', src, ''dst'', dst, ''proto'', ''esp'', ''spi'', spi])
       (\<lambda>flds. containsFieldPair flds ''src'' src \<and> containsFieldPair flds ''dst'' dst
          \<and> containsFieldPair flds ''proto'' ''esp'' \<and> containsFieldPair flds ''spi'' (strings_ToLower spi)
          \<and> containsFieldPair flds ''reqid'' reqid \<and> containsFieldPair flds ''mode'' ''tunnel'')"

definition lookupXFRMPolicy ::
  "(string list \<Rightarrow> string \<times> string option) \<Rightarrow> string \<Rightarrow> string \<Rightarrow> string \<Rightarrow> string \<Rightarrow> string \<Rightarrow> string \<Rightarrow> xfrmLookupResult" where
  "lookupXFRMPolicy runIPXFRM direction selectorSrc selectorDst tunnelSrc tunnelDst reqid =
     lookup_result (runIPXFRM [''xfrm'', ''policy'', ''get'', ''src'', selectorSrc, ''dst'', selectorDst, ''dir'', direction])
       (\<lambda>flds. containsAddressPair flds ''src'' selectorSrc \<and> containsAddressPair flds ''dst'' selectorDst
          \<and> containsFieldPair flds ''dir'' direction
          \<and> containsSequence flds [''tmpl'', ''src'', strings_ToLower tunnelSrc, ''dst'', strings_ToLower tunnelDst]
          \<and> containsFieldPair flds ''proto'' ''esp'' \<and> containsFieldPair flds ''reqid'' reqid
          \<and> containsFieldPair flds ''mode'' ''tunnel'')"

definition exactSessionXFRMLookups :: "(string list \<Rightarrow> string \<times> string option) \<Rightarrow> Session \<Rightarrow> xfrmLookupResult smap" where
  "exactSessionXFRMLookups ip s =
     (let reqid = utoa (ss_ReqID s) in
      [(''c2p_state'', lookupXFRMState ip (ss_ClientOuterIP s) (ss_PEPOuterIP s) (ss_PEPInSPI s) reqid),
       (''p2c_state'', lookupXFRMState ip (ss_PEPOuterIP s) (ss_ClientOuterIP s) (ss_ClientInSPI s) reqid),
       (''c2p_policy'', lookupXFRMPolicy ip ''fwd'' (ss_ClientInnerIP s) (ss_ServiceIP s) (ss_ClientOuterIP s) (ss_PEPOuterIP s) reqid),
       (''p2c_policy'', lookupXFRMPolicy ip ''out'' (ss_ServiceIP s) (ss_ClientInnerIP s) (ss_PEPOuterIP s) (ss_ClientOuterIP s) reqid)])"

subsection \<open>Observations\<close>

fun applied_loop :: "xfrmLookupResult smap \<Rightarrow> bool \<Rightarrow> string smap \<Rightarrow> bool \<times> string smap" where
  "applied_loop [] applied out = (applied, out)"
| "applied_loop ((name, c) # checks) applied out =
     (let out = AList.update (name @ ''_present'') (strconv_FormatBool (lr_present c)) out;
          out = AList.update (name @ ''_exact'') (strconv_FormatBool (lr_exact c)) out;
          out = (if lr_detail c \<noteq> '''' then AList.update (name @ ''_error'') (lr_detail c) out else out)
      in applied_loop checks (if \<not> lr_present c \<or> \<not> lr_exact c then False else applied) out)"

definition observeXFRMAppliedPosthoc :: "prims \<Rightarrow> env \<Rightarrow> (string list \<Rightarrow> string \<times> string option) \<Rightarrow> Session \<Rightarrow> string smap" where
  "observeXFRMAppliedPosthoc P env ip s =
     (let mode = getenv env ''XFRM_MODE'' ''dry-run'';
          out = [(''xfrm_mode'', mode), (''xfrm_plan_hash'', xfrmPlanHash P (ss_XFRM s))] in
      if mode \<noteq> ''apply'' then
        AList.update ''applied'' ''assumed'' (AList.update ''observation'' ''dry-run-no-kernel-observation'' out)
      else let (applied, out) = applied_loop (exactSessionXFRMLookups ip s) True out
           in AList.update ''applied'' (strconv_FormatBool applied) out)"

fun deleted_loop :: "xfrmLookupResult smap \<Rightarrow> bool \<Rightarrow> string smap \<Rightarrow> bool \<times> string smap" where
  "deleted_loop [] deleted out = (deleted, out)"
| "deleted_loop ((name, c) # checks) deleted out =
     (let out = AList.update (name @ ''_present'') (strconv_FormatBool (lr_present c)) out;
          out = AList.update (name @ ''_absence_confirmed'') (strconv_FormatBool (lr_exact c \<and> \<not> lr_present c)) out;
          out = (if lr_detail c \<noteq> '''' then AList.update (name @ ''_error'') (lr_detail c) out else out)
      in deleted_loop checks (if lr_present c \<or> \<not> lr_exact c then False else deleted) out)"

definition observeXFRMDeletedPosthoc :: "prims \<Rightarrow> env \<Rightarrow> (string list \<Rightarrow> string \<times> string option) \<Rightarrow> Session \<Rightarrow> string smap" where
  "observeXFRMDeletedPosthoc P env ip s =
     (let mode = getenv env ''XFRM_MODE'' ''dry-run'';
          out = [(''xfrm_mode'', mode), (''xfrm_plan_hash'', xfrmPlanHash P (ss_XFRM s))] in
      if mode \<noteq> ''apply'' then
        AList.update ''deleted'' ''assumed'' (AList.update ''observation'' ''dry-run-no-kernel-observation'' out)
      else let (deleted, out) = deleted_loop (exactSessionXFRMLookups ip s) True out
           in AList.update ''deleted'' (strconv_FormatBool deleted) out)"

subsection \<open>Lemmas\<close>

lemma match_at_iff: "match_at fs sq \<longleftrightarrow> (\<exists>b. fs = map strings_ToLower sq @ b)"
  by (induction fs sq rule: match_at.induct) auto

lemma match_from_iff: "match_from fs sq \<longleftrightarrow> (\<exists>a b. fs = a @ map strings_ToLower sq @ b)"
proof (induction fs)
  case Nil
  then show ?case by (auto simp: match_at_iff)
next
  case (Cons f fs)
  have "(\<exists>a b. f # fs = a @ map strings_ToLower sq @ b) \<longleftrightarrow>
      match_at (f # fs) sq \<or> (\<exists>a b. fs = a @ map strings_ToLower sq @ b)" (is "?L \<longleftrightarrow> ?R")
  proof
    assume ?L
    then obtain a b where "f # fs = a @ map strings_ToLower sq @ b" by blast
    then show ?R by (cases a) (auto simp: match_at_iff)
  next
    assume ?R
    then show ?L unfolding match_at_iff by (metis append_Cons append_Nil)
  qed
  moreover have "\<not> (\<exists>a b. f # fs = a @ map strings_ToLower sq @ b)" if "length sq > length (f # fs)"
    using that by (metis length_append length_map not_add_less1 add.commute le_add1 not_le add.assoc)
  ultimately show ?case using Cons by auto
qed

lemma containsSequence_iff:
  "containsSequence fs sq \<longleftrightarrow> sq \<noteq> [] \<and> (\<exists>a b. fs = a @ map strings_ToLower sq @ b)"
  by (auto simp: containsSequence_def match_from_iff)

lemma mget_update_other: "k' \<noteq> k \<Longrightarrow> mget (AList.update k v m) k' = mget m k'"
  by (simp add: mget_update)

text \<open>The loops compute a conjunction and write only keys with the suffixes below.\<close>

definition suffixed :: "string \<Rightarrow> bool" where
  "suffixed k \<longleftrightarrow> (\<exists>n. k \<in> {n @ ''_present'', n @ ''_exact'', n @ ''_error'', n @ ''_absence_confirmed''})"

lemma applied_loop_result: "fst (applied_loop cs a out) \<longleftrightarrow> a \<and> (\<forall>(n, c) \<in> set cs. lr_present c \<and> lr_exact c)"
  by (induction cs a out rule: applied_loop.induct) (auto simp: Let_def)

lemma deleted_loop_result: "fst (deleted_loop cs a out) \<longleftrightarrow> a \<and> (\<forall>(n, c) \<in> set cs. \<not> lr_present c \<and> lr_exact c)"
  by (induction cs a out rule: deleted_loop.induct) (auto simp: Let_def)

lemma applied_loop_meta: "\<not> suffixed k \<Longrightarrow> mget (snd (applied_loop cs a out)) k = mget out k"
  by (induction cs a out rule: applied_loop.induct) (auto simp: Let_def mget_update suffixed_def)

lemma deleted_loop_meta: "\<not> suffixed k \<Longrightarrow> mget (snd (deleted_loop cs a out)) k = mget out k"
  by (induction cs a out rule: deleted_loop.induct) (auto simp: Let_def mget_update suffixed_def)

lemma not_suffixed [simp]: "\<not> suffixed ''xfrm_mode''" "\<not> suffixed ''xfrm_plan_hash''"
proof -
  have "last k = CHR ''t'' \<or> last k = CHR ''r'' \<or> last k = CHR ''d''" if "suffixed k" for k
    using that by (auto simp: suffixed_def)
  from this [of "''xfrm_mode''"] this [of "''xfrm_plan_hash''"] show "\<not> suffixed ''xfrm_mode''" "\<not> suffixed ''xfrm_plan_hash''"
    by auto
qed

text \<open>What the metadata of an observation say of the mode, the plan and the outcome.\<close>

lemma observeApplied_meta:
  "mget (observeXFRMAppliedPosthoc P env ip s) ''xfrm_mode'' = getenv env ''XFRM_MODE'' ''dry-run''"
  "mget (observeXFRMAppliedPosthoc P env ip s) ''xfrm_plan_hash'' = xfrmPlanHash P (ss_XFRM s)"
  by (auto simp: observeXFRMAppliedPosthoc_def Let_def mget_update applied_loop_meta case_prod_beta) (simp_all add: mget_def)

lemma observeDeleted_meta:
  "mget (observeXFRMDeletedPosthoc P env ip s) ''xfrm_mode'' = getenv env ''XFRM_MODE'' ''dry-run''"
  "mget (observeXFRMDeletedPosthoc P env ip s) ''xfrm_plan_hash'' = xfrmPlanHash P (ss_XFRM s)"
  by (auto simp: observeXFRMDeletedPosthoc_def Let_def mget_update deleted_loop_meta case_prod_beta) (simp_all add: mget_def)

lemma observeApplied_dry:
  "getenv env ''XFRM_MODE'' ''dry-run'' \<noteq> ''apply'' \<Longrightarrow> mget (observeXFRMAppliedPosthoc P env ip s) ''applied'' = ''assumed''"
  by (simp add: observeXFRMAppliedPosthoc_def Let_def mget_def)

lemma observeDeleted_dry:
  "getenv env ''XFRM_MODE'' ''dry-run'' \<noteq> ''apply'' \<Longrightarrow> mget (observeXFRMDeletedPosthoc P env ip s) ''deleted'' = ''assumed''"
  by (simp add: observeXFRMDeletedPosthoc_def Let_def mget_def)

lemma observeApplied_apply:
  assumes "getenv env ''XFRM_MODE'' ''dry-run'' = ''apply''"
  shows "mget (observeXFRMAppliedPosthoc P env ip s) ''applied'' = strconv_FormatBool
    (\<forall>(n, c) \<in> set (exactSessionXFRMLookups ip s). lr_present c \<and> lr_exact c)"
  using assms by (simp add: observeXFRMAppliedPosthoc_def Let_def mget_update case_prod_beta applied_loop_result)

lemma observeDeleted_apply:
  assumes "getenv env ''XFRM_MODE'' ''dry-run'' = ''apply''"
  shows "mget (observeXFRMDeletedPosthoc P env ip s) ''deleted'' = strconv_FormatBool
    (\<forall>(n, c) \<in> set (exactSessionXFRMLookups ip s). \<not> lr_present c \<and> lr_exact c)"
  using assms by (simp add: observeXFRMDeletedPosthoc_def Let_def mget_update case_prod_beta deleted_loop_result)

subsection \<open>Properties\<close>

text \<open>
  \<^verbatim>\<open>containsSequence\<close> holds exactly when the sequence is not empty and occurs, in lower case, as a
  contiguous part of the fields.
\<close>
theorem containsSequence_spec:
  "containsSequence fs sq \<longleftrightarrow> sq \<noteq> [] \<and> sublist (map strings_ToLower sq) fs"
  by (simp add: containsSequence_iff sublist_def)


text \<open>
  A lookup that finds no object is told from one that fails: absence is confirmed only when the
  command fails with one of the kernel's not-found texts; any other failure is neither presence nor
  confirmed absence and carries the error.
\<close>
theorem lookup_error_branches:
  "lookup_result (out, Some err) ex =
     (if isXFRMNotFound out then \<lparr>lr_present = False, lr_exact = True, lr_detail = ''''\<rparr>
      else \<lparr>lr_present = False, lr_exact = False, lr_detail = strings_TrimSpace out @ '': '' @ err\<rparr>)
   \<and> (lr_present (lookup_result r ex) \<longleftrightarrow> snd r = None)
   \<and> (lr_present (lookup_result r ex) \<and> lr_exact (lookup_result r ex)
       \<longleftrightarrow> snd r = None \<and> ex (strings_Fields (strings_ToLower (fst r))))"
  by (cases r; cases "snd r") (auto simp: lookup_result_def Let_def)

subsection \<open>Examples\<close>

definition sample_session :: Session where
  "sample_session = \<lparr>ss_ClientPubKey = ''ck'', ss_ServiceID = ''svc'', ss_ReqID = 7, ss_ClientInSPI = ''0x01'',
     ss_PEPInSPI = ''0x02'', ss_ClientOuterIP = ''1.1.1.1'', ss_ClientInnerIP = ''10.200.0.10'',
     ss_PEPOuterIP = ''2.2.2.2'', ss_ServiceIP = ''172.22.0.50'', ss_NATTPort = 4500, ss_ClientDHPub = '''',
     ss_PEPDHPub = '''', ss_AEAD = ''aes-gcm-128'', ss_C2PKey = '''', ss_P2CKey = '''',
     ss_ExpiresAt = ''2025-01-01T00:01:00Z'',
     ss_XFRM = \<lparr>xp_Mode = '''', xp_Commands = [], xp_DeleteCommands = []\<rparr>\<rparr>"

definition apply_env :: env where "apply_env = [''XFRM_MODE'' \<mapsto> ''apply'']"


end
