(* ===== verification/Verifier_Policy.thy ===== *)
theory Verifier_Policy
  imports Protocol Go_Time
begin

text \<open>
  The enforcement policy of \<^verbatim>\<open>verifier/main.go\<close>: the string helpers (\<open>contains\<close>, \<open>scopeSubset\<close>,
  \<open>sameStringsUnordered\<close>, \<open>splitCSV\<close>, \<open>sessionKey\<close>), the checks on single events, and
  \<open>verifyEnforcementPolicy\<close>, which replays the events of a checkpoint over the sessions known to be
  active. The second half states what acceptance means: each session's events form a run of the
  lifecycle automaton, and the sessions left active are live at the checkpoint.
\<close>

record trackedSession =
  ts_ServiceID :: string
  ts_ClientPubKey :: string
  ts_ClientInnerIP :: string
  ts_ClientInSPI :: string
  ts_PEPInSPI :: string
  ts_ReqID :: u32
  ts_ExpiresAt :: string
  ts_XFRMPlanHash :: string

record lifecycleStage =
  ls_phase :: string
  ls_xfrmPlanHash :: string

datatype policy_error =
    UnsupportedEventType string | ServiceOutsideScope string | IncompleteSessionEvent u64
  | AlreadyActive u64 | OverlappingIntent u64 | MissingPlanHash u64 | ObservedWithoutIntent u64
  | ActivatedWithoutObserved u64 | ActivationMissingExpiry u64 | ExpirationUnknown u64
  | DeleteUnknown u64 | DeleteWithoutExpired u64 | DeletePlanMismatch u64 | DeletedWithoutIntent u64
  | IncompleteTransaction string string | InvalidCheckpointTime | InvalidActiveExpiry string
  | ExpiredStillActive string string
  | ObservedPlanMismatch u64 | DryRunNotSatisfied u64 | NotObserved string u64
  | ProfileMissing string u64 | UnsupportedProfile string
  | MissingExpiry u64 | InvalidExpiry u64 | InvalidEventTime u64 | LifetimeExceedsMaximum u64
  | ExpirationMismatch u64 | ExpiredTooEarly u64

subsection \<open>Helpers\<close>

fun contains :: "string list \<Rightarrow> string \<Rightarrow> bool" where
  "contains [] want = False"
| "contains (v # values) want = (if strings_TrimSpace v = want then True else contains values want)"

fun scope_loop :: "string list \<Rightarrow> string list \<Rightarrow> bool" where
  "scope_loop [] allowed = True"
| "scope_loop (s # requested) allowed =
     (if s = '''' then scope_loop requested allowed
      else if \<not> contains allowed s then False
      else scope_loop requested allowed)"

definition scopeSubset :: "string list \<Rightarrow> string list \<Rightarrow> bool" where
  "scopeSubset requested allowed = (if contains allowed ''*'' then True else scope_loop requested allowed)"

text \<open>The counting of \<^verbatim>\<open>sameStringsUnordered\<close>: a missing key counts as 0.\<close>

definition count_of :: "int smap \<Rightarrow> string \<Rightarrow> int" where
  "count_of counts k = (case map_of counts k of None \<Rightarrow> 0 | Some n \<Rightarrow> n)"

fun count_up :: "int smap \<Rightarrow> string list \<Rightarrow> int smap" where
  "count_up counts [] = counts"
| "count_up counts (v # vs) =
     (let key = strings_TrimSpace v in count_up (AList.update key (count_of counts key + 1) counts) vs)"

fun count_down :: "int smap \<Rightarrow> string list \<Rightarrow> int smap option" where
  "count_down counts [] = Some counts"
| "count_down counts (v # vs) =
     (let key = strings_TrimSpace v; counts = AList.update key (count_of counts key - 1) counts
      in if count_of counts key < 0 then None else count_down counts vs)"

definition sameStringsUnordered :: "string list \<Rightarrow> string list \<Rightarrow> bool" where
  "sameStringsUnordered left right =
     (if length left \<noteq> length right then False
      else case count_down (count_up [] left) right of
        None \<Rightarrow> False
      | Some counts \<Rightarrow> list_all (\<lambda>(k, count). count = 0) counts)"

fun csv_loop :: "string list \<Rightarrow> string list" where
  "csv_loop [] = []"
| "csv_loop (p # parts) = (let p = strings_TrimSpace p in if p \<noteq> '''' then p # csv_loop parts else csv_loop parts)"

definition splitCSV :: "string \<Rightarrow> string list" where
  "splitCSV s = csv_loop (split_at (CHR '','') s)"

definition shortHash :: "string \<Rightarrow> string" where
  "shortHash s = (if length s \<le> 16 then s else take 8 s @ ''...'' @ drop (length s - 8) s)"

definition getenvInt :: "env \<Rightarrow> string \<Rightarrow> int \<Rightarrow> int" where
  "getenvInt env k fallback =
     (let v = strings_TrimSpace (getenv env k '''') in
      if v = '''' then fallback
      else case strconv_Atoi v of None \<Rightarrow> fallback | Some n \<Rightarrow> n)"

subsection \<open>Checks on one event\<close>

definition requireCompleteSessionEvent :: "EnforcementEvent \<Rightarrow> policy_error + unit" where
  "requireCompleteSessionEvent e =
     (if ev_ServiceID e = '''' \<or> ev_ClientPubKey e = '''' \<or> ev_ClientInSPI e = '''' \<or> ev_PEPInSPI e = ''''
         \<or> ev_ClientInnerIP e = '''' \<or> ev_ClientOuterIP e = '''' \<or> ev_ReqID e = 0
      then Inl (IncompleteSessionEvent (ev_Index e)) else Inr ())"

definition sessionKey :: "EnforcementEvent \<Rightarrow> string" where
  "sessionKey e = ev_ClientPubKey e @ ''|'' @ ev_ServiceID e @ ''|'' @ ev_ClientOuterIP e @ ''|''
     @ ev_ClientInnerIP e @ ''|'' @ ev_ClientInSPI e @ ''|'' @ ev_PEPInSPI e @ ''|'' @ utoa (ev_ReqID e)"

definition requireXFRMPlanHash :: "EnforcementEvent \<Rightarrow> policy_error + string" where
  "requireXFRMPlanHash e =
     (if ev_Metadata e = None \<or> strings_TrimSpace (meta e ''xfrm_plan_hash'') = ''''
         \<or> meta e ''xfrm_plan_hash'' = ''hash_error''
      then Inl (MissingPlanHash (ev_Index e)) else Inr (meta e ''xfrm_plan_hash''))"

definition verifyObservedEvent ::
  "EnforcementEvent \<Rightarrow> string \<Rightarrow> string \<Rightarrow> string \<Rightarrow> policy_error + unit" where
  "verifyObservedEvent e outcome requiredProfile expectedPlanHash =
     rbind (requireXFRMPlanHash e) (\<lambda>planHash.
     if planHash \<noteq> expectedPlanHash then Inl (ObservedPlanMismatch (ev_Index e))
     else let mode = strings_ToLower (strings_TrimSpace (meta e ''xfrm_mode''));
              actualProfile = strings_ToLower (strings_TrimSpace (meta e ''observer_source''));
              val = strings_ToLower (strings_TrimSpace (meta e outcome)) in
     if requiredProfile = ''dry-run'' then
       (if mode = ''apply'' \<or> val \<noteq> ''assumed'' then Inl (DryRunNotSatisfied (ev_Index e)) else Inr ())
     else if mode \<noteq> ''apply'' \<or> val \<noteq> ''true'' then
       Inl (NotObserved (if outcome = ''deleted'' then ''delete'' else ''apply'') (ev_Index e))
     else if requiredProfile = ''posthoc'' then
       (if actualProfile \<noteq> ''posthoc'' \<and> actualProfile \<noteq> ''posthoc+ebpf''
        then Inl (ProfileMissing ''posthoc'' (ev_Index e)) else Inr ())
     else if requiredProfile = ''hybrid'' then
       (if actualProfile \<noteq> ''posthoc+ebpf'' \<or> meta e ''ebpf_matched'' \<noteq> ''true''
        then Inl (ProfileMissing ''hybrid'' (ev_Index e)) else Inr ())
     else if requiredProfile = ''ebpf'' then
       (if actualProfile \<noteq> ''ebpf'' \<or> meta e ''ebpf_matched'' \<noteq> ''true''
        then Inl (ProfileMissing ''eBPF'' (ev_Index e)) else Inr ())
     else Inl (UnsupportedProfile requiredProfile))"

definition eventExpiry :: "EnforcementEvent \<Rightarrow> string" where
  "eventExpiry e = (if ev_Metadata e = None then '''' else strings_TrimSpace (meta e ''expires_at''))"

text \<open>\<^verbatim>\<open>time.Duration(maxLifetime+1)*time.Second\<close> wraps at 64 bits, twice; \<^verbatim>\<open>exp.Sub(ts)\<close> saturates.\<close>

definition validateSessionLifetime :: "EnforcementEvent \<Rightarrow> int \<Rightarrow> policy_error + unit" where
  "validateSessionLifetime e maxLifetime =
     (let expRaw = eventExpiry e in
      if expRaw = '''' then Inl (MissingExpiry (ev_Index e))
      else case Parse_RFC3339 expRaw of None \<Rightarrow> Inl (InvalidExpiry (ev_Index e))
      | Some exp \<Rightarrow>
        (case Parse_RFC3339 (ev_Timestamp e) of None \<Rightarrow> Inl (InvalidEventTime (ev_Index e))
         | Some ts \<Rightarrow>
            if maxLifetime > 0 \<and> time_Sub exp ts > dur_seconds (wrap64 (maxLifetime + 1))
            then Inl (LifetimeExceedsMaximum (ev_Index e)) else Inr ()))"

definition validateExpirationEvent :: "EnforcementEvent \<Rightarrow> trackedSession \<Rightarrow> policy_error + unit" where
  "validateExpirationEvent e tracked =
     (if eventExpiry e \<noteq> ts_ExpiresAt tracked then Inl (ExpirationMismatch (ev_Index e))
      else case Parse_RFC3339 (ts_ExpiresAt tracked) of None \<Rightarrow> Inl (InvalidExpiry (ev_Index e))
      | Some exp \<Rightarrow>
        (case Parse_RFC3339 (ev_Timestamp e) of None \<Rightarrow> Inl (InvalidEventTime (ev_Index e))
         | Some ts \<Rightarrow> if ts < exp then Inl (ExpiredTooEarly (ev_Index e)) else Inr ()))"

subsection \<open>The policy\<close>

definition allowedTypes :: "string list" where
  "allowedTypes =
     [''pep_start'', ''capacity_requested'', ''capacity_accepted'', ''xfrm_apply_intent'',
      ''xfrm_apply_observed'', ''session_activated'', ''session_expired'', ''xfrm_delete_intent'',
      ''xfrm_delete_observed'']"

definition requiredProfile_of :: "string list \<Rightarrow> string" where
  "requiredProfile_of requiredProfiles =
     (case requiredProfiles of [] \<Rightarrow> ''posthoc''
      | p # _ \<Rightarrow> if strings_TrimSpace p \<noteq> '''' then strings_ToLower (strings_TrimSpace p) else ''posthoc'')"

text \<open>\<^verbatim>\<open>stages[key].phase\<close>: a missing stage is the zero struct.\<close>

definition stage_at :: "lifecycleStage smap \<Rightarrow> string \<Rightarrow> lifecycleStage" where
  "stage_at stages key = (case map_of stages key of None \<Rightarrow> \<lparr>ls_phase = '''', ls_xfrmPlanHash = ''''\<rparr> | Some s \<Rightarrow> s)"

definition set_stage :: "string \<Rightarrow> string \<Rightarrow> string \<Rightarrow> lifecycleStage smap \<Rightarrow> lifecycleStage smap" where
  "set_stage key phase planHash stages = AList.update key \<lparr>ls_phase = phase, ls_xfrmPlanHash = planHash\<rparr> stages"

definition tracked_of :: "EnforcementEvent \<Rightarrow> string \<Rightarrow> string \<Rightarrow> trackedSession" where
  "tracked_of e exp planHash =
     \<lparr>ts_ServiceID = ev_ServiceID e, ts_ClientPubKey = ev_ClientPubKey e,
      ts_ClientInnerIP = ev_ClientInnerIP e, ts_ClientInSPI = ev_ClientInSPI e,
      ts_PEPInSPI = ev_PEPInSPI e, ts_ReqID = ev_ReqID e, ts_ExpiresAt = exp,
      ts_XFRMPlanHash = planHash\<rparr>"

type_synonym policy_state = "trackedSession smap \<times> lifecycleStage smap"

text \<open>
  The body of the loop over the events; the state is the maps \<^verbatim>\<open>active\<close> and \<^verbatim>\<open>stages\<close>. First the
  switch on the event type, then the guards before it.
\<close>

definition policy_switch ::
  "int \<Rightarrow> string \<Rightarrow> EnforcementEvent \<Rightarrow> policy_state \<Rightarrow> policy_error + policy_state" where
  "policy_switch maxLifetime requiredProfile e = (\<lambda>(active, stages).
     let key = sessionKey e in
     if ev_EventType e = ''xfrm_apply_intent'' then
       rbind (requireCompleteSessionEvent e) (\<lambda>_.
       if map_of active key \<noteq> None then Inl (AlreadyActive (ev_Index e))
       else if map_of stages key \<noteq> None then Inl (OverlappingIntent (ev_Index e))
       else rbind (requireXFRMPlanHash e) (\<lambda>planHash.
       rbind (validateSessionLifetime e maxLifetime) (\<lambda>_.
       Inr (active, set_stage key ''apply_intent'' planHash stages))))
     else if ev_EventType e = ''xfrm_apply_observed'' then
       rbind (requireCompleteSessionEvent e) (\<lambda>_.
       let stage = stage_at stages key in
       if ls_phase stage \<noteq> ''apply_intent'' then Inl (ObservedWithoutIntent (ev_Index e))
       else rbind (verifyObservedEvent e ''applied'' requiredProfile (ls_xfrmPlanHash stage)) (\<lambda>_.
       Inr (active, set_stage key ''apply_observed'' (ls_xfrmPlanHash stage) stages)))
     else if ev_EventType e = ''session_activated'' then
       rbind (requireCompleteSessionEvent e) (\<lambda>_.
       let stage = stage_at stages key in
       if ls_phase stage \<noteq> ''apply_observed'' then Inl (ActivatedWithoutObserved (ev_Index e))
       else let exp = eventExpiry e in
       if exp = '''' then Inl (ActivationMissingExpiry (ev_Index e))
       else Inr (AList.update key (tracked_of e exp (ls_xfrmPlanHash stage)) active,
                 set_stage key ''active'' (ls_xfrmPlanHash stage) stages))
     else if ev_EventType e = ''session_expired'' then
       rbind (requireCompleteSessionEvent e) (\<lambda>_.
       case map_of active key of None \<Rightarrow> Inl (ExpirationUnknown (ev_Index e))
       | Some tracked \<Rightarrow>
         rbind (validateExpirationEvent e tracked) (\<lambda>_.
         Inr (active, set_stage key ''expired'' (ts_XFRMPlanHash tracked) stages)))
     else if ev_EventType e = ''xfrm_delete_intent'' then
       rbind (requireCompleteSessionEvent e) (\<lambda>_.
       case map_of active key of None \<Rightarrow> Inl (DeleteUnknown (ev_Index e))
       | Some tracked \<Rightarrow>
         if ls_phase (stage_at stages key) \<noteq> ''expired'' then Inl (DeleteWithoutExpired (ev_Index e))
         else rbind (requireXFRMPlanHash e) (\<lambda>planHash.
         if planHash \<noteq> ts_XFRMPlanHash tracked then Inl (DeletePlanMismatch (ev_Index e))
         else Inr (active, set_stage key ''delete_intent'' planHash stages)))
     else if ev_EventType e = ''xfrm_delete_observed'' then
       rbind (requireCompleteSessionEvent e) (\<lambda>_.
       let stage = stage_at stages key in
       if ls_phase stage \<noteq> ''delete_intent'' then Inl (DeletedWithoutIntent (ev_Index e))
       else rbind (verifyObservedEvent e ''deleted'' requiredProfile (ls_xfrmPlanHash stage)) (\<lambda>_.
       Inr (AList.delete key active, set_stage key ''deleted'' (ls_xfrmPlanHash stage) stages)))
     else Inr (active, stages))"

definition policy_event ::
  "string list \<Rightarrow> int \<Rightarrow> string \<Rightarrow> EnforcementEvent \<Rightarrow> policy_state \<Rightarrow> policy_error + policy_state" where
  "policy_event scope maxLifetime requiredProfile e st =
     (if ev_EventType e \<notin> set allowedTypes then Inl (UnsupportedEventType (ev_EventType e))
      else if ev_ServiceID e \<noteq> '''' \<and> \<not> contains scope (ev_ServiceID e) \<and> \<not> contains scope ''*''
      then Inl (ServiceOutsideScope (ev_ServiceID e))
      else policy_switch maxLifetime requiredProfile e st)"

fun policy_events ::
  "string list \<Rightarrow> int \<Rightarrow> string \<Rightarrow> EnforcementEvent list \<Rightarrow> policy_state \<Rightarrow> policy_error + policy_state" where
  "policy_events scope maxLifetime requiredProfile [] st = Inr st"
| "policy_events scope maxLifetime requiredProfile (e # es) st =
     rbind (policy_event scope maxLifetime requiredProfile e st)
       (policy_events scope maxLifetime requiredProfile es)"

text \<open>The two loops after it, over the maps in their iteration order.\<close>

fun check_stages :: "lifecycleStage smap \<Rightarrow> policy_error + unit" where
  "check_stages [] = Inr ()"
| "check_stages ((key, stage) # stages) =
     (if ls_phase stage \<in> {''apply_intent'', ''apply_observed'', ''expired'', ''delete_intent''}
      then Inl (IncompleteTransaction key (ls_phase stage)) else check_stages stages)"

fun check_active :: "time \<Rightarrow> trackedSession smap \<Rightarrow> policy_error + unit" where
  "check_active checkpointTime [] = Inr ()"
| "check_active checkpointTime ((key, session) # active) =
     (case Parse_RFC3339 (ts_ExpiresAt session) of None \<Rightarrow> Inl (InvalidActiveExpiry key)
      | Some exp \<Rightarrow> if \<not> checkpointTime < exp then Inl (ExpiredStillActive key (ts_ExpiresAt session))
                    else check_active checkpointTime active)"

text \<open>\<^verbatim>\<open>active\<close> is updated in place by the source; here the updated map is the result.\<close>

definition verifyEnforcementPolicy ::
  "HistoryEvidence \<Rightarrow> CapacityRequest \<Rightarrow> trackedSession smap \<Rightarrow> string list \<Rightarrow> policy_error + trackedSession smap" where
  "verifyEnforcementPolicy history req active requiredProfiles =
     rbind (policy_events (cr_Scope req) (cr_MaxSALifetime req) (requiredProfile_of requiredProfiles)
              (he_Events history) (active, [])) (\<lambda>(active, stages).
     rbind (check_stages stages) (\<lambda>_.
     case Parse_RFC3339 (cp_CreatedAt (he_Checkpoint history)) of None \<Rightarrow> Inl InvalidCheckpointTime
     | Some checkpointTime \<Rightarrow> rbind (check_active checkpointTime active) (\<lambda>_. Inr active)))"

subsection \<open>The helpers meet their specifications\<close>

lemma contains_iff: "contains vs w \<longleftrightarrow> w \<in> strings_TrimSpace ` set vs"
  by (induction vs) auto

lemma scope_loop_iff: "scope_loop req allowed \<longleftrightarrow> (\<forall>s \<in> set req. s = '''' \<or> contains allowed s)"
  by (induction req) auto

lemma count_of_update [simp]: "count_of (AList.update k n m) k' = (if k' = k then n else count_of m k')"
  by (simp add: count_of_def update_conv')

lemma count_up_count:
  "count_of (count_up m vs) k = count_of m k + int (count (mset (map strings_TrimSpace vs)) k)"
  by (induction vs arbitrary: m) (auto simp: Let_def)

lemma count_up_distinct: "distinct (keys m) \<Longrightarrow> distinct (keys (count_up m vs))"
  by (induction vs arbitrary: m) (auto simp: Let_def)

lemma count_down_distinct: "distinct (keys m) \<Longrightarrow> count_down m vs = Some m' \<Longrightarrow> distinct (keys m')"
  by (induction vs arbitrary: m) (auto simp: Let_def split: if_splits)

lemma count_down_count:
  "count_down m vs = Some m' \<Longrightarrow> count_of m' k = count_of m k - int (count (mset (map strings_TrimSpace vs)) k)"
  by (induction vs arbitrary: m) (auto simp: Let_def split: if_splits)

lemma count_down_Some:
  assumes "\<And>k. int (count (mset (map strings_TrimSpace vs)) k) \<le> count_of m k"
  shows "count_down m vs \<noteq> None"
  using assms
proof (induction vs arbitrary: m)
  case (Cons v vs)
  have "int (count (mset (map strings_TrimSpace vs)) k)
      \<le> count_of (AList.update (strings_TrimSpace v) (count_of m (strings_TrimSpace v) - 1) m) k" for k
    using Cons.prems [of k] by (simp split: if_splits)
  moreover from Cons.prems [of "strings_TrimSpace v"] have "1 \<le> count_of m (strings_TrimSpace v)" by simp
  ultimately show ?case using Cons.IH by (simp add: Let_def)
qed simp

lemma sameStringsUnordered_mset:
  "sameStringsUnordered left right \<longleftrightarrow> mset (map strings_TrimSpace left) = mset (map strings_TrimSpace right)"
    (is "?S \<longleftrightarrow> ?L = ?R")
proof
  assume ?S
  then obtain m where len: "length left = length right"
    and m: "count_down (count_up [] left) right = Some m" and z: "list_all (\<lambda>(k, c). c = 0) m"
    by (auto simp: sameStringsUnordered_def split: if_splits option.splits)
  have "count_of m k = 0" for k
  proof (cases "map_of m k")
    case (Some c)
    then have "(k, c) \<in> set m" by (rule map_of_SomeD)
    with z Some show ?thesis by (auto simp: list_all_iff count_of_def)
  qed (simp add: count_of_def)
  with count_down_count [OF m] have "int (count ?L k) = int (count ?R k)" for k
    by (simp add: count_up_count) (simp add: count_of_def)
  then show "?L = ?R" by (intro multiset_eqI) simp
next
  assume eq: "?L = ?R"
  then have len: "length left = length right" by (metis length_map mset_eq_length)
  have up: "count_of (count_up [] left) k = int (count ?R k)" for k
    using eq by (simp add: count_up_count) (simp add: count_of_def)
  then obtain m where m: "count_down (count_up [] left) right = Some m"
    using count_down_Some [of right "count_up [] left"] by force
  have z: "count_of m k = 0" for k using count_down_count [OF m, of k] up by simp
  have "distinct (keys m)" using m by (rule count_down_distinct [rotated]) (simp add: count_up_distinct)
  then have "c = 0" if "(k, c) \<in> set m" for k c
    using that z [of k] by (simp add: count_of_def)
  with m len show ?S by (auto simp: sameStringsUnordered_def list_all_iff)
qed

subsection \<open>The lifecycle as a step relation\<close>

text \<open>
  One rule per event type: the moves that \<open>policy_event\<close> accepts, with what each of them checks.
  The conditions common to all events are \<open>admissible\<close>.
\<close>

definition admissible :: "string list \<Rightarrow> EnforcementEvent \<Rightarrow> bool" where
  "admissible scope e \<longleftrightarrow>
     ev_EventType e \<in> set allowedTypes
     \<and> (ev_ServiceID e = '''' \<or> contains scope (ev_ServiceID e) \<or> contains scope ''*'')"

inductive lifecycle ::
  "string list \<Rightarrow> int \<Rightarrow> string \<Rightarrow> EnforcementEvent \<Rightarrow> policy_state \<Rightarrow> policy_state \<Rightarrow> bool"
  for scope maxL prof e where
  intent: "ev_EventType e = ''xfrm_apply_intent'' \<Longrightarrow> admissible scope e
    \<Longrightarrow> requireCompleteSessionEvent e = Inr () \<Longrightarrow> map_of A (sessionKey e) = None
    \<Longrightarrow> map_of S (sessionKey e) = None \<Longrightarrow> requireXFRMPlanHash e = Inr h
    \<Longrightarrow> validateSessionLifetime e maxL = Inr ()
    \<Longrightarrow> lifecycle scope maxL prof e (A, S) (A, set_stage (sessionKey e) ''apply_intent'' h S)"
| applied: "ev_EventType e = ''xfrm_apply_observed'' \<Longrightarrow> admissible scope e
    \<Longrightarrow> requireCompleteSessionEvent e = Inr ()
    \<Longrightarrow> map_of S (sessionKey e) = Some \<lparr>ls_phase = ''apply_intent'', ls_xfrmPlanHash = h\<rparr>
    \<Longrightarrow> verifyObservedEvent e ''applied'' prof h = Inr ()
    \<Longrightarrow> lifecycle scope maxL prof e (A, S) (A, set_stage (sessionKey e) ''apply_observed'' h S)"
| activated: "ev_EventType e = ''session_activated'' \<Longrightarrow> admissible scope e
    \<Longrightarrow> requireCompleteSessionEvent e = Inr ()
    \<Longrightarrow> map_of S (sessionKey e) = Some \<lparr>ls_phase = ''apply_observed'', ls_xfrmPlanHash = h\<rparr>
    \<Longrightarrow> eventExpiry e \<noteq> ''''
    \<Longrightarrow> lifecycle scope maxL prof e (A, S)
          (AList.update (sessionKey e) (tracked_of e (eventExpiry e) h) A, set_stage (sessionKey e) ''active'' h S)"
| expired: "ev_EventType e = ''session_expired'' \<Longrightarrow> admissible scope e
    \<Longrightarrow> requireCompleteSessionEvent e = Inr () \<Longrightarrow> map_of A (sessionKey e) = Some t
    \<Longrightarrow> validateExpirationEvent e t = Inr ()
    \<Longrightarrow> lifecycle scope maxL prof e (A, S) (A, set_stage (sessionKey e) ''expired'' (ts_XFRMPlanHash t) S)"
| deleting: "ev_EventType e = ''xfrm_delete_intent'' \<Longrightarrow> admissible scope e
    \<Longrightarrow> requireCompleteSessionEvent e = Inr () \<Longrightarrow> map_of A (sessionKey e) = Some t
    \<Longrightarrow> map_of S (sessionKey e) = Some \<lparr>ls_phase = ''expired'', ls_xfrmPlanHash = h\<rparr>
    \<Longrightarrow> requireXFRMPlanHash e = Inr (ts_XFRMPlanHash t)
    \<Longrightarrow> lifecycle scope maxL prof e (A, S) (A, set_stage (sessionKey e) ''delete_intent'' (ts_XFRMPlanHash t) S)"
| deleted: "ev_EventType e = ''xfrm_delete_observed'' \<Longrightarrow> admissible scope e
    \<Longrightarrow> requireCompleteSessionEvent e = Inr ()
    \<Longrightarrow> map_of S (sessionKey e) = Some \<lparr>ls_phase = ''delete_intent'', ls_xfrmPlanHash = h\<rparr>
    \<Longrightarrow> verifyObservedEvent e ''deleted'' prof h = Inr ()
    \<Longrightarrow> lifecycle scope maxL prof e (A, S)
          (AList.delete (sessionKey e) A, set_stage (sessionKey e) ''deleted'' h S)"
| other: "ev_EventType e \<in> {''pep_start'', ''capacity_requested'', ''capacity_accepted''} \<Longrightarrow> admissible scope e
    \<Longrightarrow> lifecycle scope maxL prof e (A, S) (A, S)"

lemma stage_at_phase:
  "ls_phase (stage_at S k) = p \<Longrightarrow> p \<noteq> '''' \<Longrightarrow>
     map_of S k = Some \<lparr>ls_phase = p, ls_xfrmPlanHash = ls_xfrmPlanHash (stage_at S k)\<rparr>"
  by (auto simp: stage_at_def split: option.splits)

lemma policy_event_admissible:
  "policy_event scope maxL prof e st = Inr st' \<longleftrightarrow> admissible scope e \<and> policy_switch maxL prof e st = Inr st'"
  by (auto simp: policy_event_def admissible_def)

lemma policy_event_lifecycle:
  assumes adm: "admissible scope e" and sw: "policy_switch maxL prof e (A, S) = Inr st'"
  shows "lifecycle scope maxL prof e (A, S) st'"
proof -
  from adm consider "ev_EventType e = ''xfrm_apply_intent''" | "ev_EventType e = ''xfrm_apply_observed''"
    | "ev_EventType e = ''session_activated''" | "ev_EventType e = ''session_expired''"
    | "ev_EventType e = ''xfrm_delete_intent''" | "ev_EventType e = ''xfrm_delete_observed''"
    | "ev_EventType e \<in> {''pep_start'', ''capacity_requested'', ''capacity_accepted''}"
    unfolding admissible_def allowedTypes_def by auto
  then show ?thesis
  proof cases
    case 1
    with sw adm show ?thesis
      by (auto simp: policy_switch_def result_iffs Let_def intro!: lifecycle.intent split: if_splits)
  next
    case 2
    with sw adm show ?thesis
      by (auto simp: policy_switch_def result_iffs Let_def intro!: lifecycle.applied
          dest: stage_at_phase split: if_splits)
  next
    case 3
    with sw adm show ?thesis
      by (auto simp: policy_switch_def result_iffs Let_def intro!: lifecycle.activated
          dest: stage_at_phase split: if_splits)
  next
    case 4
    with sw adm show ?thesis
      by (auto simp: policy_switch_def result_iffs Let_def intro!: lifecycle.expired split: option.splits)
  next
    case 5
    with sw adm show ?thesis
      by (auto simp: policy_switch_def result_iffs Let_def intro!: lifecycle.deleting
          dest: stage_at_phase split: if_splits option.splits)
  next
    case 6
    with sw adm show ?thesis
      by (auto simp: policy_switch_def result_iffs Let_def intro!: lifecycle.deleted
          dest: stage_at_phase split: if_splits)
  next
    case 7
    with sw adm show ?thesis by (auto simp: policy_switch_def Let_def intro!: lifecycle.other)
  qed
qed

lemma lifecycle_policy_event:
  "lifecycle scope maxL prof e st st' \<Longrightarrow> admissible scope e \<and> policy_switch maxL prof e st = Inr st'"
proof (induction rule: lifecycle.induct)
  case (other A S)
  then show ?case by (elim insertE emptyE) (simp_all add: policy_switch_def)
qed (simp_all add: policy_switch_def stage_at_def Let_def)

lemma policy_event_iff: "policy_event scope maxL prof e st = Inr st' \<longleftrightarrow> lifecycle scope maxL prof e st st'"
  by (cases st) (metis policy_event_admissible policy_event_lifecycle lifecycle_policy_event)

subsection \<open>What an accepted history proves about a session\<close>

text \<open>
  The events that open a session \<open>k\<close> tracked as \<open>t\<close>, and those that close it, as subsequences of the
  history: intent, matching observation and activation; expiry, intent to delete and observation.
\<close>

definition intent_ev :: "int \<Rightarrow> string \<Rightarrow> string \<Rightarrow> EnforcementEvent \<Rightarrow> bool" where
  "intent_ev maxL k h i \<longleftrightarrow> ev_EventType i = ''xfrm_apply_intent'' \<and> sessionKey i = k
     \<and> requireXFRMPlanHash i = Inr h \<and> validateSessionLifetime i maxL = Inr ()"

definition applied_ev :: "string \<Rightarrow> string \<Rightarrow> string \<Rightarrow> EnforcementEvent \<Rightarrow> bool" where
  "applied_ev prof k h e \<longleftrightarrow> ev_EventType e = ''xfrm_apply_observed'' \<and> sessionKey e = k
     \<and> verifyObservedEvent e ''applied'' prof h = Inr ()"

definition activated_ev :: "string \<Rightarrow> trackedSession \<Rightarrow> EnforcementEvent \<Rightarrow> bool" where
  "activated_ev k t e \<longleftrightarrow> ev_EventType e = ''session_activated'' \<and> sessionKey e = k
     \<and> t = tracked_of e (eventExpiry e) (ts_XFRMPlanHash t)"

definition expired_ev :: "string \<Rightarrow> trackedSession \<Rightarrow> EnforcementEvent \<Rightarrow> bool" where
  "expired_ev k t e \<longleftrightarrow> ev_EventType e = ''session_expired'' \<and> sessionKey e = k
     \<and> validateExpirationEvent e t = Inr ()"

definition deleting_ev :: "string \<Rightarrow> string \<Rightarrow> EnforcementEvent \<Rightarrow> bool" where
  "deleting_ev k h e \<longleftrightarrow> ev_EventType e = ''xfrm_delete_intent'' \<and> sessionKey e = k
     \<and> requireXFRMPlanHash e = Inr h"

definition deleted_ev :: "string \<Rightarrow> string \<Rightarrow> string \<Rightarrow> EnforcementEvent \<Rightarrow> bool" where
  "deleted_ev prof k h e \<longleftrightarrow> ev_EventType e = ''xfrm_delete_observed'' \<and> sessionKey e = k
     \<and> verifyObservedEvent e ''deleted'' prof h = Inr ()"

definition opened :: "int \<Rightarrow> string \<Rightarrow> EnforcementEvent list \<Rightarrow> string \<Rightarrow> trackedSession \<Rightarrow> bool" where
  "opened maxL prof es k t \<longleftrightarrow> (\<exists>i e a. subseq [i, e, a] es \<and> intent_ev maxL k (ts_XFRMPlanHash t) i
     \<and> applied_ev prof k (ts_XFRMPlanHash t) e \<and> activated_ev k t a)"

definition closed :: "string \<Rightarrow> EnforcementEvent list \<Rightarrow> string \<Rightarrow> trackedSession \<Rightarrow> bool" where
  "closed prof es k t \<longleftrightarrow> (\<exists>x d e. subseq [x, d, e] es \<and> expired_ev k t x
     \<and> deleting_ev k (ts_XFRMPlanHash t) d \<and> deleted_ev prof k (ts_XFRMPlanHash t) e)"

text \<open>
  The invariant of the loop, for one session: \<open>a0\<close> is what was tracked under its key before the
  events \<open>es\<close>, \<open>a\<close> what is tracked now, \<open>s\<close> its stage.
\<close>

fun session_inv ::
  "int \<Rightarrow> string \<Rightarrow> EnforcementEvent list \<Rightarrow> string \<Rightarrow> trackedSession option \<Rightarrow> trackedSession option
    \<Rightarrow> lifecycleStage option \<Rightarrow> bool" where
  "session_inv maxL prof es k a0 a None = (a0 = a)"
| "session_inv maxL prof es k a0 a (Some s) =
     (let p = ls_phase s; h = ls_xfrmPlanHash s in
      if p = ''apply_intent'' then
        a0 = None \<and> a = None \<and> (\<exists>i. subseq [i] es \<and> intent_ev maxL k h i)
      else if p = ''apply_observed'' then
        a0 = None \<and> a = None \<and> (\<exists>i e. subseq [i, e] es \<and> intent_ev maxL k h i \<and> applied_ev prof k h e)
      else \<exists>t. (a0 = Some t \<or> a0 = None \<and> opened maxL prof es k t) \<and> ts_XFRMPlanHash t = h
        \<and> (if p = ''active'' then a = Some t
           else if p = ''expired'' then a = Some t \<and> (\<exists>x. subseq [x] es \<and> expired_ev k t x)
           else if p = ''delete_intent'' then
             a = Some t \<and> (\<exists>x d. subseq [x, d] es \<and> expired_ev k t x \<and> deleting_ev k h d)
           else p = ''deleted'' \<and> a = None \<and> closed prof es k t))"

lemma subseq_extend [intro]: "subseq xs es \<Longrightarrow> subseq xs (es @ [e])"
  by (metis append_Nil2 list_emb_append_mono list_emb_Nil)

lemma subseq_snoc [intro]: "subseq xs es \<Longrightarrow> subseq (xs @ [e]) (es @ [e])"
  by (intro list_emb_append_mono) auto

lemma subseq_snoc1 [intro]: "subseq [e] (es @ [e])"
  using subseq_snoc [of "[]" es e] by simp

lemma subseq_snoc2 [intro]: "subseq [a] es \<Longrightarrow> subseq [a, e] (es @ [e])"
  using subseq_snoc [of "[a]" es e] by simp

lemma subseq_snoc3 [intro]: "subseq [a, b] es \<Longrightarrow> subseq [a, b, e] (es @ [e])"
  using subseq_snoc [of "[a, b]" es e] by simp

lemma opened_extend [intro]: "opened maxL prof es k t \<Longrightarrow> opened maxL prof (es @ [e]) k t"
  unfolding opened_def by blast

lemma closed_extend [intro]: "closed prof es k t \<Longrightarrow> closed prof (es @ [e]) k t"
  unfolding closed_def by blast

lemma closed_snoc:
  "subseq [x, d] es \<Longrightarrow> expired_ev k t x \<Longrightarrow> deleting_ev k (ts_XFRMPlanHash t) d
   \<Longrightarrow> deleted_ev prof k (ts_XFRMPlanHash t) e \<Longrightarrow> closed prof (es @ [e]) k t"
  unfolding closed_def by blast

lemma session_inv_extend:
  "session_inv maxL prof es k a0 a s \<Longrightarrow> session_inv maxL prof (es @ [e]) k a0 a s"
  by (cases s) (fastforce simp: Let_def split: if_splits)+

lemma map_of_set_stage [simp]:
  "map_of (set_stage k p h S) k' = (if k' = k then Some \<lparr>ls_phase = p, ls_xfrmPlanHash = h\<rparr> else map_of S k')"
  by (simp add: set_stage_def update_conv')

lemma session_inv_step:
  assumes "lifecycle scope maxL prof e (A, S) (A', S')"
    and "session_inv maxL prof es k (map_of A0 k) (map_of A k) (map_of S k)"
  shows "session_inv maxL prof (es @ [e]) k (map_of A0 k) (map_of A' k) (map_of S' k)"
proof (cases "sessionKey e = k")
  case False
  from assms(1) have "map_of A' k = map_of A k \<and> map_of S' k = map_of S k"
    by (cases rule: lifecycle.cases) (use False in \<open>auto simp: update_conv' delete_conv'\<close>)
  with session_inv_extend [OF assms(2)] show ?thesis by simp
next
  case k: True
  from assms(1) show ?thesis
  proof (cases rule: lifecycle.cases)
    case (intent h)
    with assms(2) k show ?thesis by (auto simp: intent_ev_def)
  next
    case (applied h)
    with assms(2) k show ?thesis by (auto simp: applied_ev_def)
  next
    case (activated h)
    with k have "activated_ev k (tracked_of e (eventExpiry e) h) e"
      by (simp add: activated_ev_def tracked_of_def)
    with activated assms(2) k have "opened maxL prof (es @ [e]) k (tracked_of e (eventExpiry e) h)"
      unfolding opened_def by (fastforce simp: tracked_of_def)
    with activated assms(2) k show ?thesis by (auto simp: update_conv' tracked_of_def)
  next
    case (expired t)
    with k have "expired_ev k t e" by (simp add: expired_ev_def)
    with expired assms(2) k show ?thesis
      by (cases "map_of S k") (auto simp: Let_def split: if_splits)
  next
    case (deleting t h)
    with k have "deleting_ev k (ts_XFRMPlanHash t) e" by (simp add: deleting_ev_def)
    with deleting assms(2) k show ?thesis by auto
  next
    case (deleted h)
    with k have "deleted_ev prof k h e" by (simp add: deleted_ev_def)
    with deleted assms(2) k show ?thesis by (auto simp: delete_conv' intro: closed_snoc)
  next
    case other
    with session_inv_extend [OF assms(2)] show ?thesis by simp
  qed
qed

lemma session_inv_events:
  assumes "policy_events scope maxL prof es (A, S) = Inr (A', S')"
    and "session_inv maxL prof ds k (map_of A0 k) (map_of A k) (map_of S k)"
  shows "session_inv maxL prof (ds @ es) k (map_of A0 k) (map_of A' k) (map_of S' k)"
  using assms
proof (induction es arbitrary: ds A S)
  case (Cons e es)
  then obtain A1 S1 where "lifecycle scope maxL prof e (A, S) (A1, S1)"
    and "policy_events scope maxL prof es (A1, S1) = Inr (A', S')"
    by (auto simp: result_iffs policy_event_iff)
  with Cons.IH [of A1 S1 "ds @ [e]"] session_inv_step Cons.prems(2) show ?case by simp
qed simp

lemma check_stages_iff:
  "check_stages S = Inr () \<longleftrightarrow>
     (\<forall>(k, s) \<in> set S. ls_phase s \<notin> {''apply_intent'', ''apply_observed'', ''expired'', ''delete_intent''})"
  by (induction S rule: check_stages.induct) auto

lemma check_active_iff:
  "check_active now A = Inr () \<longleftrightarrow>
     (\<forall>(k, t) \<in> set A. \<exists>exp. Parse_RFC3339 (ts_ExpiresAt t) = Some exp \<and> now < exp)"
  by (induction now A rule: check_active.induct) (auto split: option.splits)

lemma policy_events_distinct:
  "policy_events scope maxL prof es (A, S) = Inr (A', S') \<Longrightarrow> distinct (keys A) \<Longrightarrow> distinct (keys A')"
proof (induction es arbitrary: A S)
  case (Cons e es)
  then obtain A1 S1 where l: "lifecycle scope maxL prof e (A, S) (A1, S1)"
    and "policy_events scope maxL prof es (A1, S1) = Inr (A', S')"
    by (auto simp: result_iffs policy_event_iff)
  moreover from l Cons.prems(2) have "distinct (keys A1)"
    by (cases rule: lifecycle.cases) auto
  ultimately show ?case using Cons.IH by blast
qed simp

lemma policy_events_admissible:
  "policy_events scope maxL prof es st = Inr st' \<Longrightarrow> \<forall>e \<in> set es. admissible scope e"
  by (induction es arbitrary: st) (auto simp: result_iffs policy_event_admissible)

lemma policy_events_each:
  "policy_events scope maxL prof es st = Inr st' \<Longrightarrow> e \<in> set es \<Longrightarrow> \<exists>s s'. lifecycle scope maxL prof e s s'"
  by (induction es arbitrary: st) (auto simp: result_iffs policy_event_iff)

lemma validateSessionLifetime_bound:
  assumes "validateSessionLifetime e maxL = Inr ()" and "0 < maxL" "maxL < 9000000000"
  obtains exp ts where "Parse_RFC3339 (eventExpiry e) = Some exp" "Parse_RFC3339 (ev_Timestamp e) = Some ts"
    "exp \<le> ts + (maxL + 1) * Second"
proof -
  from assms obtain exp ts where p: "Parse_RFC3339 (eventExpiry e) = Some exp"
      "Parse_RFC3339 (ev_Timestamp e) = Some ts"
    and le: "time_Sub exp ts \<le> dur_seconds (wrap64 (maxL + 1))"
    by (auto simp: validateSessionLifetime_def Let_def split: if_splits option.splits)
  have "wrap64 (maxL + 1) = maxL + 1" using assms by (intro wrap64_id) auto
  with assms have d: "dur_seconds (wrap64 (maxL + 1)) = (maxL + 1) * Second" by (simp add: dur_seconds_small)
  have "(maxL + 1) * Second < max_duration"
    using assms by (simp add: Second_def max_duration_def)
  with le d have "exp - ts \<le> (maxL + 1) * Second"
    by (simp add: time_Sub_def min_def max_def split: if_splits)
  with p show thesis by (intro that) auto
qed

lemma verifyEnforcementPolicy_elim:
  assumes "verifyEnforcementPolicy hist req A profs = Inr A'"
  obtains S cpt where
    "policy_events (cr_Scope req) (cr_MaxSALifetime req) (requiredProfile_of profs) (he_Events hist) (A, [])
       = Inr (A', S)"
    "check_stages S = Inr ()" "Parse_RFC3339 (cp_CreatedAt (he_Checkpoint hist)) = Some cpt"
    "check_active cpt A' = Inr ()"
  using assms by (auto simp: verifyEnforcementPolicy_def result_iffs split: option.splits)

lemma session_inv_final:
  assumes "verifyEnforcementPolicy hist req A profs = Inr A'"
  shows "\<exists>s. session_inv (cr_MaxSALifetime req) (requiredProfile_of profs) (he_Events hist) k (map_of A k) (map_of A' k) s
    \<and> (\<forall>st. s = Some st \<longrightarrow>
          ls_phase st \<notin> {''apply_intent'', ''apply_observed'', ''expired'', ''delete_intent''})"
proof -
  from assms obtain S cpt where S:
    "policy_events (cr_Scope req) (cr_MaxSALifetime req) (requiredProfile_of profs) (he_Events hist) (A, [])
       = Inr (A', S)" and stages: "check_stages S = Inr ()"
    by (rule verifyEnforcementPolicy_elim)
  have "session_inv (cr_MaxSALifetime req) (requiredProfile_of profs) ([] @ he_Events hist) k
      (map_of A k) (map_of A' k) (map_of S k)"
    by (rule session_inv_events [OF S]) simp
  moreover have "ls_phase st \<notin> {''apply_intent'', ''apply_observed'', ''expired'', ''delete_intent''}"
    if "map_of S k = Some st" for st
    using stages map_of_SomeD [OF that] unfolding check_stages_iff by blast
  ultimately show ?thesis by (intro exI [of _ "map_of S k"]) auto
qed

text \<open>Each key ends untouched, freshly opened or closed.\<close>

lemma session_outcomes:
  assumes "verifyEnforcementPolicy hist req A profs = Inr A'"
  shows "map_of A' k = map_of A k
    \<or> (\<exists>t. map_of A k = None \<and> map_of A' k = Some t
          \<and> opened (cr_MaxSALifetime req) (requiredProfile_of profs) (he_Events hist) k t)
    \<or> (\<exists>t. map_of A' k = None \<and> (map_of A k = Some t \<or> map_of A k = None)
          \<and> closed (requiredProfile_of profs) (he_Events hist) k t)"
  using session_inv_final [OF assms, of k]
  by (elim exE conjE) (case_tac s; force simp: Let_def split: if_splits)

lemma sessionKey_Join:
  "sessionKey e = strings_Join ''|'' [ev_ClientPubKey e, ev_ServiceID e, ev_ClientOuterIP e,
     ev_ClientInnerIP e, ev_ClientInSPI e, ev_PEPInSPI e, utoa (ev_ReqID e)]"
  by (simp add: sessionKey_def)

lemma utoa_no_bar: "CHR ''|'' \<notin> set (utoa w)"
  using dec_nat_digits [of "CHR ''|''"] by (auto simp: utoa_def is_digit_def)

subsection \<open>Properties\<close>

text \<open>
  (C12) A session that an accepted history leaves active was either active before or has, in the
  history and in this order, an apply intent, an observation that meets the required profile for
  the same XFRM plan, and an activation; and it is unexpired at the checkpoint.
\<close>
theorem policy_active_backed:
  assumes "verifyEnforcementPolicy hist req A profs = Inr A'" and "map_of A' k = Some t"
  shows "(map_of A k = Some t \<or>
          map_of A k = None \<and> opened (cr_MaxSALifetime req) (requiredProfile_of profs) (he_Events hist) k t)
    \<and> (\<exists>cpt exp. Parse_RFC3339 (cp_CreatedAt (he_Checkpoint hist)) = Some cpt
          \<and> Parse_RFC3339 (ts_ExpiresAt t) = Some exp \<and> cpt < exp)"
proof
  from session_outcomes [OF assms(1), of k] assms(2) show "map_of A k = Some t \<or>
      map_of A k = None \<and> opened (cr_MaxSALifetime req) (requiredProfile_of profs) (he_Events hist) k t"
    by auto
  from assms(1) obtain S cpt where "Parse_RFC3339 (cp_CreatedAt (he_Checkpoint hist)) = Some cpt"
    "check_active cpt A' = Inr ()" by (rule verifyEnforcementPolicy_elim)
  with map_of_SomeD [OF assms(2)] show "\<exists>cpt exp. Parse_RFC3339 (cp_CreatedAt (he_Checkpoint hist)) = Some cpt
      \<and> Parse_RFC3339 (ts_ExpiresAt t) = Some exp \<and> cpt < exp"
    unfolding check_active_iff by blast
qed

text \<open>
  A session that an accepted history removes from the active ones has, in this order, an expiry
  event not earlier than its expiry, an intent to delete its XFRM plan and an observed deletion.
\<close>
theorem policy_removed_closed:
  assumes "verifyEnforcementPolicy hist req A profs = Inr A'" and "map_of A k = Some t"
    and "map_of A' k = None"
  shows "closed (requiredProfile_of profs) (he_Events hist) k t"
  using session_outcomes [OF assms(1), of k] assms(2,3) by auto

text \<open>
  Every event of an accepted history has one of the nine known types, and names no service or
  one that the requested scope contains, the wildcard included.
\<close>
theorem policy_scope_confined:
  assumes "verifyEnforcementPolicy hist req A profs = Inr A'" and "e \<in> set (he_Events hist)"
  shows "ev_EventType e \<in> set allowedTypes
    \<and> (ev_ServiceID e = '''' \<or> ev_ServiceID e \<in> strings_TrimSpace ` set (cr_Scope req)
        \<or> ''*'' \<in> strings_TrimSpace ` set (cr_Scope req))"
proof -
  from assms(1) obtain S where
    "policy_events (cr_Scope req) (cr_MaxSALifetime req) (requiredProfile_of profs) (he_Events hist) (A, [])
       = Inr (A', S)"
    by (rule verifyEnforcementPolicy_elim)
  with assms(2) policy_events_admissible have "admissible (cr_Scope req) e" by blast
  then show ?thesis by (simp add: admissible_def contains_iff)
qed

text \<open>
  \<^verbatim>\<open>sameStringsUnordered\<close> decides equality of the two lists as multisets, up to surrounding
  white space.
\<close>
theorem sameStringsUnordered_spec:
  "sameStringsUnordered left right \<longleftrightarrow> mset (map strings_TrimSpace left) = mset (map strings_TrimSpace right)"
  by (rule sameStringsUnordered_mset)

text \<open>
  The key under which the policy tracks a session identifies it: events whose string fields
  contain no vertical bar have the same key only if client, service, addresses, SPIs and request
  id agree.
\<close>
theorem sessionKey_inject:
  assumes "sessionKey e = sessionKey e'"
    and "\<forall>x \<in> {e, e'}. \<forall>f \<in> {ev_ClientPubKey, ev_ServiceID, ev_ClientOuterIP, ev_ClientInnerIP,
           ev_ClientInSPI, ev_PEPInSPI}. CHR ''|'' \<notin> set (f x)"
  shows "ev_ClientPubKey e = ev_ClientPubKey e' \<and> ev_ServiceID e = ev_ServiceID e'
    \<and> ev_ClientOuterIP e = ev_ClientOuterIP e' \<and> ev_ClientInnerIP e = ev_ClientInnerIP e'
    \<and> ev_ClientInSPI e = ev_ClientInSPI e' \<and> ev_PEPInSPI e = ev_PEPInSPI e' \<and> ev_ReqID e = ev_ReqID e'"
proof -
  let ?fields = "\<lambda>x. [ev_ClientPubKey x, ev_ServiceID x, ev_ClientOuterIP x, ev_ClientInnerIP x,
     ev_ClientInSPI x, ev_PEPInSPI x, utoa (ev_ReqID x)]"
  have "?fields e = ?fields e'"
    by (rule strings_Join_inject [of _ _ "CHR ''|''"])
      (use assms in \<open>auto simp: sessionKey_Join utoa_no_bar simp del: strings_Join.simps\<close>)
  then show ?thesis by simp
qed

text \<open>
  In an accepted history every apply intent announces an expiry at most one second beyond the
  requested maximum SA lifetime after its timestamp.
\<close>
theorem policy_intent_bounded:
  assumes "verifyEnforcementPolicy hist req A profs = Inr A'" and "e \<in> set (he_Events hist)"
    and "ev_EventType e = ''xfrm_apply_intent''" and "0 < cr_MaxSALifetime req" "cr_MaxSALifetime req < 9000000000"
  shows "\<exists>exp ts. Parse_RFC3339 (eventExpiry e) = Some exp \<and> Parse_RFC3339 (ev_Timestamp e) = Some ts
    \<and> exp \<le> ts + (cr_MaxSALifetime req + 1) * Second"
proof -
  from assms(1) obtain S where
    "policy_events (cr_Scope req) (cr_MaxSALifetime req) (requiredProfile_of profs) (he_Events hist) (A, [])
       = Inr (A', S)"
    by (rule verifyEnforcementPolicy_elim)
  with assms(2) policy_events_each obtain s s' where
    "lifecycle (cr_Scope req) (cr_MaxSALifetime req) (requiredProfile_of profs) e s s'" by meson
  then have "validateSessionLifetime e (cr_MaxSALifetime req) = Inr ()"
    by (cases rule: lifecycle.cases) (use assms(3) in auto)
  then show ?thesis using assms(4,5) by (rule validateSessionLifetime_bound) blast
qed

subsection \<open>Examples\<close>

definition ex_event :: "u64 \<Rightarrow> string \<Rightarrow> string \<Rightarrow> string smap \<Rightarrow> EnforcementEvent" where
  "ex_event n ty ts md =
     \<lparr>ev_Version = 1, ev_Index = n, ev_EventType = ty, ev_PEPID = ''pep'', ev_Timestamp = ts,
      ev_ServiceID = ''svc'', ev_ClientPubKey = ''ck'', ev_ClientOuterIP = ''o'', ev_ClientInnerIP = ''i'',
      ev_ClientInSPI = ''s1'', ev_PEPInSPI = ''s2'', ev_ReqID = 7, ev_Observed = True, ev_XFRMMode = ''apply'',
      ev_XFRMPlanHash = ''ph'', ev_Metadata = Some md, ev_PrevHash = '''', ev_EventHash = ''''\<rparr>"

definition ex_meta :: "string \<Rightarrow> string \<Rightarrow> string smap" where
  "ex_meta outcome exp = [(''xfrm_plan_hash'', ''ph''), (''xfrm_mode'', ''apply''),
     (''observer_source'', ''posthoc''), (outcome, ''true''), (''expires_at'', exp)]"

definition ex_checkpoint :: "string \<Rightarrow> EnforcementCheckpoint" where
  "ex_checkpoint at = \<lparr>cp_Version = 1, cp_PEPID = ''pep'', cp_Epoch = 1, cp_PreviousCheckpointHash = '''',
     cp_LastEventIndex = 3, cp_LastEventHash = '''', cp_EventCount = 3, cp_CreatedAt = at, cp_Signature = ''''\<rparr>"

definition ex_history :: "EnforcementEvent list \<Rightarrow> string \<Rightarrow> HistoryEvidence" where
  "ex_history es at = \<lparr>he_PreviousCheckpointHash = '''', he_Events = es, he_Checkpoint = ex_checkpoint at\<rparr>"

definition ex_req :: CapacityRequest where
  "ex_req = \<lparr>cr_PEPID = ''pep'', cr_PEPSigningPubKey = ''pk'', cr_Measurement = ''m'', cr_PolicyHash = ''p'',
     cr_Scope = [''svc''], cr_MaxSALifetime = 60, cr_History = None\<rparr>"

definition ex_open :: "string \<Rightarrow> HistoryEvidence" where
  "ex_open exp = ex_history
     [ex_event 1 ''xfrm_apply_intent'' ''2025-01-01T00:00:00Z'' (ex_meta ''applied'' ''2025-01-01T00:01:00Z''),
      ex_event 2 ''xfrm_apply_observed'' ''2025-01-01T00:00:00Z'' (ex_meta ''applied'' exp),
      ex_event 3 ''session_activated'' ''2025-01-01T00:00:00Z'' (ex_meta ''applied'' exp)]
     ''2025-01-01T00:00:05Z''"

definition ex_tracked :: "string \<Rightarrow> trackedSession" where
  "ex_tracked exp = \<lparr>ts_ServiceID = ''svc'', ts_ClientPubKey = ''ck'', ts_ClientInnerIP = ''i'',
     ts_ClientInSPI = ''s1'', ts_PEPInSPI = ''s2'', ts_ReqID = 7, ts_ExpiresAt = exp, ts_XFRMPlanHash = ''ph''\<rparr>"

definition ex_key :: string where "ex_key = ''ck|svc|o|i|s1|s2|7''"

definition ex_close :: HistoryEvidence where
  "ex_close = ex_history
     [ex_event 4 ''session_expired'' ''2025-01-01T00:01:00Z'' (ex_meta ''deleted'' ''2025-01-01T00:01:00Z''),
      ex_event 5 ''xfrm_delete_intent'' ''2025-01-01T00:01:00Z'' (ex_meta ''deleted'' ''2025-01-01T00:01:00Z''),
      ex_event 6 ''xfrm_delete_observed'' ''2025-01-01T00:01:00Z'' (ex_meta ''deleted'' ''2025-01-01T00:01:00Z'')]
     ''2025-01-01T00:01:05Z''"

lemma ex_open_accepted:
  "verifyEnforcementPolicy (ex_open ''2025-01-01T00:01:00Z'') ex_req [] [''posthoc'']
     = Inr [(ex_key, ex_tracked ''2025-01-01T00:01:00Z'')]"
  by code_simp

lemma ex_close_accepted:
  "verifyEnforcementPolicy ex_close ex_req [(ex_key, ex_tracked ''2025-01-01T00:01:00Z'')] [''posthoc''] = Inr []"
  by code_simp


theorem policy_intent_bounded_witness:
  "\<exists>exp ts. Parse_RFC3339 (eventExpiry (hd (he_Events (ex_open ''2025-01-01T00:01:00Z'')))) = Some exp
    \<and> Parse_RFC3339 (ev_Timestamp (hd (he_Events (ex_open ''2025-01-01T00:01:00Z'')))) = Some ts
    \<and> exp \<le> ts + (cr_MaxSALifetime ex_req + 1) * Second"
  by (rule policy_intent_bounded [OF ex_open_accepted])
    (simp_all add: ex_req_def ex_open_def ex_history_def ex_event_def)

theorem policy_active_backed_witness:
  "opened 60 (requiredProfile_of [''posthoc'']) (he_Events (ex_open ''2025-01-01T00:01:00Z'')) ex_key
     (ex_tracked ''2025-01-01T00:01:00Z'')"
  using policy_active_backed [OF ex_open_accepted, of ex_key "ex_tracked ''2025-01-01T00:01:00Z''"]
  by (simp add: ex_req_def)

theorem policy_removed_closed_witness:
  "closed (requiredProfile_of [''posthoc'']) (he_Events ex_close) ex_key (ex_tracked ''2025-01-01T00:01:00Z'')"
  by (rule policy_removed_closed [OF ex_close_accepted]) simp_all

theorem policy_scope_confined_witness:
  "\<exists>e \<in> set (he_Events ex_close). ev_ServiceID e \<in> strings_TrimSpace ` set (cr_Scope ex_req)"
proof (rule bexI)
  let ?e = "hd (he_Events ex_close)"
  show e: "?e \<in> set (he_Events ex_close)" by (simp add: ex_close_def ex_history_def)
  have "ev_ServiceID ?e \<noteq> ''''" "''*'' \<notin> strings_TrimSpace ` set (cr_Scope ex_req)" by code_simp+
  with policy_scope_confined [OF ex_close_accepted e]
  show "ev_ServiceID ?e \<in> strings_TrimSpace ` set (cr_Scope ex_req)" by blast
qed

theorem sessionKey_inject_witness:
  "ev_ReqID (ex_event 1 ''a'' ''b'' []) = ev_ReqID (ex_event 2 ''c'' ''d'' [])"
  using sessionKey_inject [of "ex_event 1 ''a'' ''b'' []" "ex_event 2 ''c'' ''d'' []"]
  by (simp add: sessionKey_def ex_event_def)

end
