(* ===== verification/Logutil.thy ===== *)
theory Logutil
  imports Verifier_Policy
begin

text \<open>
  \<^verbatim>\<open>common/logutil\<close>: a call of \<^verbatim>\<open>log.Printf\<close> is its format and its arguments; what a function writes is
  the list of these calls. The arguments are given as the strings that they print.
\<close>

type_synonym log_call = "string \<times> string list"

definition Enabled :: "env \<Rightarrow> bool" where
  "Enabled env = (let v = os_Getenv env ''CRYPTNA_DEBUG'' in v = ''1'' \<or> v = ''true'' \<or> v = ''TRUE'' \<or> v = ''yes'')"

definition Debugf :: "env \<Rightarrow> string \<Rightarrow> string \<Rightarrow> string list \<Rightarrow> log_call list" where
  "Debugf env component format args =
     (if \<not> Enabled env then [] else [(''[DEBUG][%s] '' @ format, component # args)])"

definition Infof :: "string \<Rightarrow> string \<Rightarrow> string list \<Rightarrow> log_call list" where
  "Infof component format args = [(''[%s] '' @ format, component # args)]"

definition Short :: "string \<Rightarrow> string" where
  "Short s = (if length s \<le> 16 then s else take 8 s @ ''...'' @ drop (length s - 8) s)"

text \<open>\<^verbatim>\<open>shortHash\<close> of the verifier is the same function.\<close>

lemma Short_shortHash: "Short = shortHash"
  by (rule ext) (simp add: Short_def shortHash_def)

lemma Short_length: "length (Short s) \<le> 19"
  by (auto simp: Short_def)

lemma Short_eq_iff:
  assumes "16 < length s" "16 < length t"
  shows "Short s = Short t \<longleftrightarrow> take 8 s = take 8 t \<and> drop (length s - 8) s = drop (length t - 8) t"
  using assms by (simp add: Short_def)

text \<open>
  What a log line shows of a key or a hash: of a text longer than 16 characters the first and the
  last eight and nothing else, not even its length, and never more than 19 characters.
\<close>
theorem short_shows:
  "length (Short s) \<le> 19 \<and> (length s \<le> 16 \<longrightarrow> Short s = s)
   \<and> (16 < length s \<and> 16 < length t \<longrightarrow>
        (Short s = Short t \<longleftrightarrow> take 8 s = take 8 t \<and> drop (length s - 8) s = drop (length t - 8) t))"
  using Short_length Short_eq_iff by (auto simp: Short_def)

theorem short_shows_witness: "Short ''0123456789abcdefX'' = Short ''01234567........9abcdefX'' \<and> Short ''0123456789abcdefX'' = ''01234567...9abcdefX''"
proof -
  have "Short ''0123456789abcdefX'' = Short ''01234567........9abcdefX''"
    using short_shows [of "''0123456789abcdefX''" "''01234567........9abcdefX''"] by simp
  then show ?thesis by (simp add: Short_def)
qed

end
