(* ===== verification/Transition.thy ===== *)
theory Transition
  imports Main
begin

text \<open>
  The step relations of the services have one shape: steps of concurrent handlers over a shared state,
  and a property of the state that every step keeps. The locales state once what follows for runs.
  \<open>transition_system\<close> is a relation with an invariant; \<open>logged_system\<close> one whose invariant holds as long
  as a log that only grows is short enough; \<open>metered_system\<close> one in which a number counts the steps that
  are left, so that every run ends, in the same number of steps, and can always be continued to its end.
\<close>

locale transition_system =
  fixes step :: "'s \<Rightarrow> 's \<Rightarrow> bool" and inv :: "'s \<Rightarrow> bool"
  assumes inv_step: "step s s' \<Longrightarrow> inv s \<Longrightarrow> inv s'"
begin

lemma inv_reachable: "step\<^sup>*\<^sup>* s s' \<Longrightarrow> inv s \<Longrightarrow> inv s'"
  by (induction rule: rtranclp_induct) (blast intro: inv_step)+

lemma inv_run: "(step ^^ m) s s' \<Longrightarrow> inv s \<Longrightarrow> inv s'"
  by (rule inv_reachable) (auto dest: relpowp_imp_rtranclp)

end

locale logged_system =
  fixes step :: "'s \<Rightarrow> 's \<Rightarrow> bool" and good :: "'s \<Rightarrow> bool" and entries :: "'s \<Rightarrow> 'e list" and bound :: nat
  assumes entries_step: "step s s' \<Longrightarrow> length (entries s) \<le> length (entries s')"
    and good_step: "step s s' \<Longrightarrow> length (entries s) < bound \<Longrightarrow> good s \<Longrightarrow> good s'"

sublocale logged_system \<subseteq> transition_system step "\<lambda>s. length (entries s) < bound \<longrightarrow> good s"
proof
  fix s s'
  assume "step s s'" "length (entries s) < bound \<longrightarrow> good s"
  then show "length (entries s') < bound \<longrightarrow> good s'"
    using entries_step [of s s'] good_step [of s s'] by (auto dest: le_less_trans)
qed

context logged_system
begin

lemma good_reachable: "step\<^sup>*\<^sup>* s s' \<Longrightarrow> good s \<Longrightarrow> length (entries s') < bound \<Longrightarrow> good s'"
  using inv_reachable by blast

end

locale metered_system = transition_system +
  fixes left :: "'s \<Rightarrow> nat"
  assumes left_step: "step s s' \<Longrightarrow> inv s \<Longrightarrow> left s = Suc (left s')"
    and progress: "inv s \<Longrightarrow> left s \<noteq> 0 \<Longrightarrow> \<exists>s'. step s s'"
begin

lemma left_run: "(step ^^ m) s s' \<Longrightarrow> inv s \<Longrightarrow> left s' + m = left s"
proof (induction m arbitrary: s')
  case (Suc m)
  then obtain q where q: "(step ^^ m) s q" "step q s'" by auto
  from Suc.IH [OF q(1)] left_step [OF q(2)] inv_run [OF q(1)] Suc.prems(2) show ?case by simp
qed simp

lemma continues: "(step ^^ m) s s' \<Longrightarrow> inv s \<Longrightarrow> m < left s \<Longrightarrow> \<exists>s''. step s' s''"
  using left_run [of m s s'] inv_run [of m s s'] progress [of s'] by auto

lemma completes: "inv s \<Longrightarrow> \<exists>s'. (step ^^ left s) s s' \<and> inv s' \<and> left s' = 0"
proof (induction "left s" arbitrary: s)
  case (Suc n)
  from progress [OF Suc.prems] Suc.hyps(2) obtain s1 where s1: "step s s1" by auto
  then have l: "n = left s1" "inv s1" using left_step [OF s1 Suc.prems] Suc.hyps(2) inv_step [OF s1 Suc.prems] by simp_all
  from Suc.hyps(1) [OF l] s1 Suc.hyps(2) l(1) show ?case by (metis relpowp_Suc_I2)
qed auto

lemma no_endless_run: "inv s \<Longrightarrow> f 0 = s \<Longrightarrow> \<exists>i. \<not> step (f i) (f (Suc i))"
proof (rule ccontr)
  assume a: "inv s" "f 0 = s" "\<nexists>i. \<not> step (f i) (f (Suc i))"
  have "(step ^^ m) s (f m)" for m using a(2,3) by (induction m) auto
  from left_run [OF this [of "Suc (left s)"] a(1)] show False by simp
qed

end

end
