(* ===== verification/Pep_Observer.thy ===== *)
theory Pep_Observer
  imports Pep_Xfrm Logutil Transition
begin

text \<open>
  \<^verbatim>\<open>pep/xfrm_observer.go\<close>: the eBPF observer. The monitor process is a parameter, the record \<open>monitor\<close>: whether
  its pipes open and it starts, and what it does, line by line, until it exits. The goroutines that read
  it change the observer (\<open>monitor_do\<close>), concurrently with the two polling loops (\<open>waitReady\<close>,
  \<open>eventsSinceWithWait\<close>), which read, in iteration \<open>i\<close>, a snapshot of the observer and the clock; as they
  end only when the clock moves, they are partial functions, and that they return is a theorem.
\<close>

definition xfrmObserverPosthoc :: string where "xfrmObserverPosthoc = ''posthoc''"
definition xfrmObserverEBPF :: string where "xfrmObserverEBPF = ''ebpf''"
definition xfrmObserverHybrid :: string where "xfrmObserverHybrid = ''hybrid''"

lemmas observer_modes = xfrmObserverPosthoc_def xfrmObserverEBPF_def xfrmObserverHybrid_def

record xfrmObservationPoint =
  op_Index :: int
  op_Time :: time

record xfrmKernelEvent =
  ke_ObservedAt :: time
  ke_Raw :: string
  ke_Probe :: string
  ke_Action :: string

record xfrmObserver =
  xo_mode :: string
  xo_strict :: bool
  xo_logEvents :: bool
  xo_minApplyEvents :: int
  xo_minDeleteEvents :: int
  xo_events :: "xfrmKernelEvent list"
  xo_started :: bool
  xo_ready :: bool
  xo_exited :: bool
  xo_exitErr :: string
  xo_cancel :: bool \<comment> \<open>\<^verbatim>\<open>cancel\<close> and \<^verbatim>\<open>cmd\<close> are set\<close>

text \<open>\<^verbatim>\<open>getenvInt\<close> of the PEP does not trim the value.\<close>

definition pep_getenvInt :: "env \<Rightarrow> string \<Rightarrow> int \<Rightarrow> int" where
  "pep_getenvInt env k fallback =
     (let v = os_Getenv env k in
      if v = '''' then fallback else case strconv_Atoi v of None \<Rightarrow> fallback | Some out \<Rightarrow> out)"

subsection \<open>Reading the monitor's output\<close>

fun event_fields :: "string list \<Rightarrow> string \<times> string \<Rightarrow> string \<times> string" where
  "event_fields [] (probe, action) = (probe, action)"
| "event_fields (field # fs) (probe, action) =
     event_fields fs
       (if strings_HasPrefix field ''probe='' then strings_TrimPrefix field ''probe='' else probe,
        if strings_HasPrefix field ''action='' then strings_TrimPrefix field ''action='' else action)"

definition parseXFRMKernelEvent :: "time \<Rightarrow> string \<Rightarrow> xfrmKernelEvent" where
  "parseXFRMKernelEvent now line =
     (let (probe0, action) = event_fields (strings_Fields line) ('''', ''unknown'');
          action = (if action = ''unknown'' then
             (let probe = strings_ToLower probe0 in
              if strings_Contains probe ''delete'' \<or> strings_Contains probe ''del'' then ''delete''
              else if strings_Contains probe ''insert'' \<or> strings_Contains probe ''add'' \<or> strings_Contains probe ''update'' then ''apply''
              else action) else action)
      in \<lparr>ke_ObservedAt = now, ke_Raw = line, ke_Probe = probe0, ke_Action = action\<rparr>)"

text \<open>One line of the monitor's standard output.\<close>

definition read_line :: "time \<Rightarrow> string \<Rightarrow> xfrmObserver \<Rightarrow> xfrmObserver" where
  "read_line now text obs =
     (let line = strings_TrimSpace text in
      if line = '''' then obs
      else if strings_Contains line ''cryptna_ebpf_ready'' then obs\<lparr>xo_ready := True\<rparr>
      else if \<not> strings_Contains line ''cryptna_xfrm_event'' then obs
      else let events = xo_events obs @ [parseXFRMKernelEvent now line] in
           obs\<lparr>xo_events := (if length events > 4096 then drop (length events - 2048) events else events)\<rparr>)"

fun readEvents :: "(time \<times> string) list \<Rightarrow> xfrmObserver \<Rightarrow> xfrmObserver" where
  "readEvents [] obs = obs"
| "readEvents ((now, line) # lines) obs = readEvents lines (read_line now line obs)"

text \<open>The lines of its standard error are only logged.\<close>

fun readDiagnostics :: "string list \<Rightarrow> log_call list" where
  "readDiagnostics [] = []"
| "readDiagnostics (text # rest) =
     (let line = strings_TrimSpace text in
      if line = '''' then readDiagnostics rest
      else if strings_Contains line ''cryptna_ebpf_selected'' then
        Infof ''pep'' ''XFRM eBPF selected probes %s'' [strings_TrimPrefix line ''cryptna_ebpf_selected ''] @ readDiagnostics rest
      else Infof ''pep'' ''xfrm-ebpf stderr: %s'' [line] @ readDiagnostics rest)"

text \<open>The goroutine that waits for the process: its exit, with the error of \<^verbatim>\<open>cmd.Wait\<close>.\<close>

definition monitor_exit :: "string option \<Rightarrow> xfrmObserver \<Rightarrow> xfrmObserver" where
  "monitor_exit err obs =
     (let obs = obs\<lparr>xo_exited := True\<rparr> in case err of None \<Rightarrow> obs | Some e \<Rightarrow> obs\<lparr>xo_exitErr := e\<rparr>)"

text \<open>What the goroutines do, and a monitor: the outcome of its start and its actions between two polls.\<close>

datatype monitor_act = Line time string | Exit "string option"

fun monitor_do :: "monitor_act \<Rightarrow> xfrmObserver \<Rightarrow> xfrmObserver" where
  "monitor_do (Line now text) obs = read_line now text obs"
| "monitor_do (Exit err) obs = monitor_exit err obs"

record monitor =
  mo_stdoutPipe :: "string option"
  mo_stderrPipe :: "string option"
  mo_start :: "string option"
  mo_acts :: "nat \<Rightarrow> monitor_act list"
  mo_clock :: "nat \<Rightarrow> time"
  mo_now :: time

primrec observer_at :: "monitor \<Rightarrow> xfrmObserver \<Rightarrow> nat \<Rightarrow> xfrmObserver" where
  "observer_at mo obs 0 = fold monitor_do (mo_acts mo 0) obs"
| "observer_at mo obs (Suc i) = fold monitor_do (mo_acts mo (Suc i)) (observer_at mo obs i)"

subsection \<open>Polling\<close>

definition mark :: "time \<Rightarrow> xfrmObserver \<Rightarrow> xfrmObservationPoint" where
  "mark now obs = \<lparr>op_Index = int (length (xo_events obs)), op_Time = now\<rparr>"

definition markXFRMObservationPoint :: "time \<Rightarrow> xfrmObserver option \<Rightarrow> xfrmObservationPoint" where
  "markXFRMObservationPoint now obs =
     (case obs of None \<Rightarrow> \<lparr>op_Index = 0, op_Time = now\<rparr> | Some ob \<Rightarrow> mark now ob)"

definition eventsSince :: "xfrmObserver option \<Rightarrow> xfrmObservationPoint \<Rightarrow> xfrmKernelEvent list" where
  "eventsSince obs m =
     (case obs of None \<Rightarrow> []
      | Some ob \<Rightarrow>
        let start = op_Index m;
            start = (if start < 0 \<or> start > int (length (xo_events ob)) then int (length (xo_events ob)) else start)
        in drop (nat start) (xo_events ob))"

text \<open>The states of a monitor that are polled: the observer and the clock in each iteration.\<close>

partial_function (option) wait_events ::
  "(nat \<Rightarrow> xfrmObserver) \<Rightarrow> (nat \<Rightarrow> time) \<Rightarrow> xfrmObservationPoint \<Rightarrow> string \<Rightarrow> time \<Rightarrow> nat \<Rightarrow> xfrmKernelEvent list option" where
  "wait_events obs clock m expectedAction deadline i =
     (let events = eventsSince (Some (obs i)) m in
      if list_ex (\<lambda>e. ke_Action e = expectedAction) events then Some events
      else if clock i > deadline then Some events
      else wait_events obs clock m expectedAction deadline (Suc i))"

definition eventsSinceWithWait ::
  "(nat \<Rightarrow> xfrmObserver) \<Rightarrow> (nat \<Rightarrow> time) \<Rightarrow> time \<Rightarrow> xfrmObservationPoint \<Rightarrow> string \<Rightarrow> int \<Rightarrow> xfrmKernelEvent list option" where
  "eventsSinceWithWait obs clock start m expectedAction timeout =
     wait_events obs clock m expectedAction (start + timeout) 0"

text \<open>The readiness wait gives, with its result, the iteration in which it ended.\<close>

partial_function (option) wait_ready ::
  "(nat \<Rightarrow> xfrmObserver) \<Rightarrow> (nat \<Rightarrow> time) \<Rightarrow> time \<Rightarrow> nat \<Rightarrow> ((string + unit) \<times> nat) option" where
  "wait_ready obs clock deadline i =
     (if \<not> clock i < deadline then Some (Inl ''eBPF monitor did not become ready'', i)
      else if xo_ready (obs i) then Some (Inr (), i)
      else if xo_exited (obs i) then
        Some (Inl (''eBPF monitor exited before readiness: ''
                   @ (if xo_exitErr (obs i) = '''' then ''process exited'' else xo_exitErr (obs i))), i)
      else wait_ready obs clock deadline (Suc i))"

definition waitReady :: "(nat \<Rightarrow> xfrmObserver) \<Rightarrow> (nat \<Rightarrow> time) \<Rightarrow> time \<Rightarrow> int \<Rightarrow> ((string + unit) \<times> nat) option" where
  "waitReady obs clock start timeout = wait_ready obs clock (start + timeout) 0"

definition xfrm_start :: "monitor \<Rightarrow> xfrmObserver \<Rightarrow> ((string + unit) \<times> xfrmObserver) option" where
  "xfrm_start mo obs =
     (case mo_stdoutPipe mo of Some err \<Rightarrow> Some (Inl err, obs)
      | None \<Rightarrow>
        (case mo_stderrPipe mo of Some err \<Rightarrow> Some (Inl err, obs)
         | None \<Rightarrow>
           (case mo_start mo of Some err \<Rightarrow> Some (Inl err, obs)
            | None \<Rightarrow>
              let obs = obs\<lparr>xo_cancel := True, xo_started := True\<rparr> in
              map_option (\<lambda>(r, i). (r, observer_at mo obs i))
                (waitReady (observer_at mo obs) (mo_clock mo) (mo_now mo) (5 * Second)))))"

text \<open>Whether the context of the monitor is cancelled, which kills the process.\<close>

definition xfrm_stop :: "xfrmObserver \<Rightarrow> bool" where
  "xfrm_stop obs = xo_cancel obs"

definition shutdownXFRMObserver :: "xfrmObserver option \<Rightarrow> bool" where
  "shutdownXFRMObserver observer = (case observer of None \<Rightarrow> False | Some ob \<Rightarrow> xfrm_stop ob)"

subsection \<open>Configuration\<close>

definition new_observer :: "env \<Rightarrow> xfrmObserver" where
  "new_observer env =
     (let mode = strings_ToLower (getenv env ''XFRM_OBSERVER'' xfrmObserverPosthoc);
          mode = (if mode = '''' then xfrmObserverPosthoc else mode);
          mode = (if mode \<noteq> xfrmObserverPosthoc \<and> mode \<noteq> xfrmObserverEBPF \<and> mode \<noteq> xfrmObserverHybrid
                  then xfrmObserverPosthoc else mode)
      in \<lparr>xo_mode = mode, xo_strict = (getenv env ''XFRM_EBPF_STRICT'' ''0'' = ''1''),
          xo_logEvents = (getenv env ''XFRM_EBPF_LOG_EVENTS'' ''0'' = ''1''),
          xo_minApplyEvents = pep_getenvInt env ''XFRM_EBPF_MIN_APPLY_EVENTS'' 2,
          xo_minDeleteEvents = pep_getenvInt env ''XFRM_EBPF_MIN_DELETE_EVENTS'' 2,
          xo_events = [], xo_started = False, xo_ready = False, xo_exited = False, xo_exitErr = '''', xo_cancel = False\<rparr>)"

text \<open>\<open>Inl\<close> is the panic of the strict mode; \<open>None\<close> a wait for readiness that has not ended.\<close>

definition initXFRMObserver :: "env \<Rightarrow> monitor \<Rightarrow> (string + xfrmObserver) option" where
  "initXFRMObserver env mo =
     (let obs = new_observer env in
      if xo_mode obs = xfrmObserverPosthoc then Some (Inr obs)
      else map_option (\<lambda>(r, obs). case r of
             Inr _ \<Rightarrow> Inr obs
           | Inl err \<Rightarrow> if xo_strict obs then Inl err else Inr (obs\<lparr>xo_mode := xfrmObserverPosthoc\<rparr>))
         (xfrm_start mo obs))"

definition validateXFRMObserverConfiguration :: "env \<Rightarrow> bool \<Rightarrow> xfrmObserver option \<Rightarrow> string + unit" where
  "validateXFRMObserverConfiguration env attestationEnabled observer =
     (if \<not> attestationEnabled then Inr ()
      else let required = strings_ToLower (strings_TrimSpace (getenv env ''PEP_REQUIRED_OBSERVER_PROFILE'' ''posthoc''));
               applyMode = (getenv env ''XFRM_MODE'' ''dry-run'' = ''apply'') in
      if required = ''dry-run'' then
        (if applyMode then Inl ''dry-run observer profile cannot authorize XFRM apply mode'' else Inr ())
      else if \<not> applyMode then Inl ''observer profile requires XFRM apply mode''
      else case observer of None \<Rightarrow> Inl ''XFRM observer is not initialized''
      | Some ob \<Rightarrow>
        if required = ''posthoc'' then
          (if xo_mode ob \<noteq> xfrmObserverPosthoc \<and> xo_mode ob \<noteq> xfrmObserverHybrid
           then Inl ''posthoc profile is not provided by observer mode'' else Inr ())
        else if required = ''hybrid'' then
          (if xo_mode ob \<noteq> xfrmObserverHybrid \<or> \<not> xo_ready ob then Inl ''hybrid observer is required but not ready'' else Inr ())
        else if required = ''ebpf'' then
          (if xo_mode ob \<noteq> xfrmObserverEBPF \<or> \<not> xo_ready ob then Inl ''eBPF observer is required but not ready'' else Inr ())
        else Inl ''unsupported required observer profile'')"

subsection \<open>Annotations\<close>

definition minEventsForAction :: "xfrmObserver \<Rightarrow> string \<Rightarrow> int" where
  "minEventsForAction obs action =
     (if action = ''apply'' \<and> xo_minApplyEvents obs > 0 then xo_minApplyEvents obs
      else if action = ''delete'' \<and> xo_minDeleteEvents obs > 0 then xo_minDeleteEvents obs
      else 1)"

text \<open>\<open>events\<close> is what \<open>eventsSinceWithWait\<close> returned for the action.\<close>

definition annotate :: "xfrmObserver \<Rightarrow> string smap option \<Rightarrow> xfrmKernelEvent list \<Rightarrow> string \<Rightarrow> string smap" where
  "annotate obs md events expectedAction =
     (let md = AList.update ''observer_mode'' (xo_mode obs) (slice md) in
      if mget md ''xfrm_mode'' \<noteq> ''apply'' then
        AList.update ''ebpf_matched'' ''not-applicable'' (AList.update ''observer_source'' ''dry-run'' md)
      else if xo_mode obs = xfrmObserverPosthoc then AList.update ''observer_source'' ''posthoc'' md
      else
        let minEvents = minEventsForAction obs expectedAction;
            actionEvents = filter (\<lambda>e. ke_Action e = expectedAction) events;
            probes = filter (\<lambda>p. p \<noteq> '''') (map ke_Probe actionEvents);
            matched = (int (length actionEvents) \<ge> minEvents);
            md = AList.update ''observer_source'' ''ebpf'' md;
            md = (if xo_mode obs = xfrmObserverHybrid then AList.update ''observer_source'' ''posthoc+ebpf'' md else md);
            md = AList.update ''ebpf_event_count'' (itoa (int (length actionEvents))) md;
            md = AList.update ''ebpf_total_event_count'' (itoa (int (length events))) md;
            md = AList.update ''ebpf_min_event_count'' (itoa minEvents) md;
            md = AList.update ''ebpf_matched'' (strconv_FormatBool matched) md;
            md = (if length probes > 0 then AList.update ''ebpf_probes'' (strings_Join '','' (take 6 probes)) md else md)
        in if xo_mode obs = xfrmObserverEBPF then
             (if expectedAction = ''apply'' then AList.update ''applied'' (strconv_FormatBool matched) md
              else if expectedAction = ''delete'' then AList.update ''deleted'' (strconv_FormatBool matched) md
              else md)
           else md)"

text \<open>The durations that the source measures are inputs, in microseconds.\<close>

definition with_durations :: "int \<Rightarrow> int \<Rightarrow> int \<Rightarrow> xfrmObserver option \<Rightarrow> string smap \<Rightarrow> xfrmKernelEvent list \<Rightarrow> string \<Rightarrow> string smap" where
  "with_durations posthoc correlation tot obs md events action =
     (let md = AList.update ''posthoc_duration_us'' (itoa posthoc) md in
      case obs of None \<Rightarrow> AList.update ''observer_total_duration_us'' (itoa tot) md
      | Some ob \<Rightarrow>
        let md = annotate ob (Some md) events action;
            md = AList.update ''ebpf_correlation_duration_us'' (itoa correlation) md
        in AList.update ''observer_total_duration_us'' (itoa tot) md)"

definition observeXFRMAppliedWithObserver ::
  "prims \<Rightarrow> env \<Rightarrow> (string list \<Rightarrow> string \<times> string option) \<Rightarrow> int \<Rightarrow> int \<Rightarrow> int \<Rightarrow> xfrmObserver option \<Rightarrow> Session
    \<Rightarrow> xfrmKernelEvent list \<Rightarrow> string smap" where
  "observeXFRMAppliedWithObserver P env ip posthoc correlation tot obs s events =
     with_durations posthoc correlation tot obs (observeXFRMAppliedPosthoc P env ip s) events ''apply''"

definition observeXFRMDeletedWithObserver ::
  "prims \<Rightarrow> env \<Rightarrow> (string list \<Rightarrow> string \<times> string option) \<Rightarrow> int \<Rightarrow> int \<Rightarrow> int \<Rightarrow> xfrmObserver option \<Rightarrow> Session
    \<Rightarrow> xfrmKernelEvent list \<Rightarrow> string smap" where
  "observeXFRMDeletedWithObserver P env ip posthoc correlation tot obs s events =
     with_durations posthoc correlation tot obs (observeXFRMDeletedPosthoc P env ip s) events ''delete''"

subsection \<open>Lemmas\<close>

declare wait_events.simps [code] wait_ready.simps [code]

lemma wait_events_returns:
  assumes "\<exists>n \<ge> i. clock n > deadline"
  shows "\<exists>j \<ge> i. wait_events obs clock m act deadline i = Some (eventsSince (Some (obs j)) m)
    \<and> (list_ex (\<lambda>e. ke_Action e = act) (eventsSince (Some (obs j)) m) \<or> clock j > deadline)
    \<and> (\<forall>l. i \<le> l \<and> l < j \<longrightarrow> \<not> list_ex (\<lambda>e. ke_Action e = act) (eventsSince (Some (obs l)) m) \<and> clock l \<le> deadline)"
proof -
  let ?stop = "\<lambda>j. list_ex (\<lambda>e. ke_Action e = act) (eventsSince (Some (obs j)) m) \<or> clock j > deadline"
  from assms obtain n where n: "i \<le> n" "?stop n" by auto
  from n show ?thesis
  proof (induction "n - i" arbitrary: i rule: less_induct)
    case less
    show ?case
    proof (cases "?stop i")
      case True
      then have "wait_events obs clock m act deadline i = Some (eventsSince (Some (obs i)) m)"
        by (auto simp: wait_events.simps [of _ _ _ _ _ i] Let_def)
      with True show ?thesis by (intro exI [of _ i]) auto
    next
      case False
      with less(3) have "i \<noteq> n" by blast
      with less(2) have i: "n - Suc i < n - i" "Suc i \<le> n" by auto
      have step: "wait_events obs clock m act deadline i = wait_events obs clock m act deadline (Suc i)"
        using False by (simp add: wait_events.simps [of _ _ _ _ _ i] Let_def)
      from less(1) [OF i less(3)] obtain j where j: "Suc i \<le> j"
        "wait_events obs clock m act deadline (Suc i) = Some (eventsSince (Some (obs j)) m)" "?stop j"
        "\<forall>l. Suc i \<le> l \<and> l < j \<longrightarrow> \<not> list_ex (\<lambda>e. ke_Action e = act) (eventsSince (Some (obs l)) m) \<and> clock l \<le> deadline"
        by blast
      have "\<forall>l. i \<le> l \<and> l < j \<longrightarrow> \<not> list_ex (\<lambda>e. ke_Action e = act) (eventsSince (Some (obs l)) m) \<and> clock l \<le> deadline"
        using j(4) False by (metis le_antisym not_less_eq_eq not_le)
      with j step show ?thesis by (intro exI [of _ j]) auto
    qed
  qed
qed

lemma wait_ready_returns:
  assumes "\<exists>n \<ge> i. \<not> clock n < deadline"
  shows "\<exists>r j. wait_ready obs clock deadline i = Some (r, j) \<and> i \<le> j
    \<and> (r = Inr () \<longrightarrow> xo_ready (obs j) \<and> clock j < deadline)"
proof -
  from assms obtain n where "i \<le> n" "\<not> clock n < deadline" by blast
  then show ?thesis
  proof (induction "n - i" arbitrary: i rule: less_induct)
    case less
    show ?case
    proof (cases "\<not> clock i < deadline \<or> xo_ready (obs i) \<or> xo_exited (obs i)")
      case True
      then show ?thesis by (auto simp: wait_ready.simps [of _ _ _ i])
    next
      case False
      with less(3) have "i \<noteq> n" by blast
      with less(2) have i: "n - Suc i < n - i" "Suc i \<le> n" by auto
      have "wait_ready obs clock deadline i = wait_ready obs clock deadline (Suc i)"
        using False by (simp add: wait_ready.simps [of _ _ _ i])
      with less(1) [OF i less(3)] show ?thesis by (metis Suc_leD)
    qed
  qed
qed

lemma read_line_bounded: "length (xo_events obs) \<le> 4096 \<Longrightarrow> length (xo_events (read_line now l obs)) \<le> 4096"
  by (simp add: read_line_def Let_def)

lemma monitor_exit_fields [simp]:
  "xo_events (monitor_exit err obs) = xo_events obs" "xo_ready (monitor_exit err obs) = xo_ready obs"
  "xo_mode (monitor_exit err obs) = xo_mode obs" "xo_strict (monitor_exit err obs) = xo_strict obs"
  "xo_started (monitor_exit err obs) = xo_started obs" "xo_cancel (monitor_exit err obs) = xo_cancel obs"
  by (simp_all add: monitor_exit_def Let_def split: option.split)

lemma read_line_fields [simp]:
  "xo_mode (read_line now l obs) = xo_mode obs" "xo_strict (read_line now l obs) = xo_strict obs"
  "xo_started (read_line now l obs) = xo_started obs" "xo_cancel (read_line now l obs) = xo_cancel obs"
  by (simp_all add: read_line_def Let_def)

text \<open>
  The goroutines as a transition system: whatever the monitor prints, the window stays bounded and
  the configuration and the start are not touched.
\<close>

definition monitor_inv :: "xfrmObserver \<Rightarrow> xfrmObserver \<Rightarrow> bool" where
  "monitor_inv obs0 obs \<longleftrightarrow> length (xo_events obs) \<le> 4096 \<and> xo_mode obs = xo_mode obs0 \<and> xo_strict obs = xo_strict obs0
     \<and> xo_started obs = xo_started obs0 \<and> xo_cancel obs = xo_cancel obs0 \<and> (xo_ready obs0 \<longrightarrow> xo_ready obs)"

lemma monitor_do_inv: "monitor_inv obs0 obs \<Longrightarrow> monitor_inv obs0 (monitor_do a obs)"
  by (cases a) (auto simp: monitor_inv_def read_line_bounded, auto simp: read_line_def Let_def)

interpretation observer: transition_system "\<lambda>obs obs'. \<exists>a. obs' = monitor_do a obs" "monitor_inv obs0" for obs0
  by unfold_locales (auto intro: monitor_do_inv)

lemma fold_steps: "(\<lambda>obs obs'. \<exists>a. obs' = monitor_do a obs)\<^sup>*\<^sup>* obs (fold monitor_do as obs)"
  by (induction as arbitrary: obs) (auto intro: converse_rtranclp_into_rtranclp)

lemma fold_inv: "monitor_inv obs0 obs \<Longrightarrow> monitor_inv obs0 (fold monitor_do as obs)"
  by (rule observer.inv_reachable [OF fold_steps])

lemma monitor_inv_refl: "length (xo_events obs) \<le> 4096 \<Longrightarrow> monitor_inv obs obs"
  by (simp add: monitor_inv_def)

lemma observer_at_inv: "length (xo_events obs) \<le> 4096 \<Longrightarrow> monitor_inv obs (observer_at mo obs i)"
  by (induction i) (auto intro: fold_inv monitor_inv_refl)

lemma readEvents_fold: "readEvents ls obs = fold monitor_do (map (\<lambda>(now, l). Line now l) ls) obs"
  by (induction ls obs rule: readEvents.induct) simp_all

lemma readEvents_bounded: "length (xo_events obs) \<le> 4096 \<Longrightarrow> length (xo_events (readEvents ls obs)) \<le> 4096"
  using monitor_inv_refl [THEN fold_inv, of obs "map (\<lambda>(now, l). Line now l) ls"] by (simp add: readEvents_fold monitor_inv_def)

text \<open>The monitor reported readiness.\<close>

fun reports_ready :: "monitor_act \<Rightarrow> bool" where
  "reports_ready (Line now text) \<longleftrightarrow> strings_Contains (strings_TrimSpace text) ''cryptna_ebpf_ready''"
| "reports_ready (Exit err) \<longleftrightarrow> False"

lemma not_contains_Nil: "\<not> strings_Contains '''' ''cryptna_ebpf_ready''" by code_simp

lemma monitor_do_ready: "xo_ready (monitor_do a obs) \<longleftrightarrow> xo_ready obs \<or> reports_ready a"
  by (cases a) (auto simp: read_line_def Let_def not_contains_Nil)

lemma fold_ready: "xo_ready (fold monitor_do as obs) \<longleftrightarrow> xo_ready obs \<or> (\<exists>a \<in> set as. reports_ready a)"
  by (induction as arbitrary: obs) (auto simp: monitor_do_ready)

lemma observer_at_ready:
  "xo_ready (observer_at mo obs i) \<longleftrightarrow> xo_ready obs \<or> (\<exists>j \<le> i. \<exists>a \<in> set (mo_acts mo j). reports_ready a)"
  by (induction i) (auto simp: fold_ready le_Suc_eq)

text \<open>The events a list of lines contains.\<close>

definition line_events :: "(time \<times> string) list \<Rightarrow> xfrmKernelEvent list" where
  "line_events ls = map (\<lambda>(now, l). parseXFRMKernelEvent now (strings_TrimSpace l))
     (filter (\<lambda>(now, l). \<not> strings_Contains (strings_TrimSpace l) ''cryptna_ebpf_ready''
        \<and> strings_Contains (strings_TrimSpace l) ''cryptna_xfrm_event'') ls)"

lemma readEvents_all:
  "length (xo_events obs) + length (line_events ls) \<le> 4096 \<Longrightarrow>
     xo_events (readEvents ls obs) = xo_events obs @ line_events ls"
proof (induction ls obs rule: readEvents.induct)
  case (2 now line lines obs)
  have "xo_events (read_line now line obs) = xo_events obs @ line_events [(now, line)]"
    using 2(2) by (auto simp: read_line_def Let_def line_events_def)
  moreover have "line_events ((now, line) # lines) = line_events [(now, line)] @ line_events lines"
    by (simp add: line_events_def)
  ultimately show ?case using 2 by simp
qed (simp add: line_events_def)

lemma annotate_meta:
  assumes "k \<notin> {''observer_mode'', ''observer_source'', ''ebpf_matched'', ''ebpf_event_count'', ''ebpf_total_event_count'',
      ''ebpf_min_event_count'', ''ebpf_probes'', ''applied'', ''deleted''}"
  shows "mget (annotate obs (Some md) evs act) k = mget md k"
  using assms by (simp add: annotate_def Let_def mget_update)

lemma annotate_source:
  assumes "mget md ''xfrm_mode'' = ''apply''"
  shows "xo_mode obs = ''posthoc'' \<Longrightarrow> mget (annotate obs (Some md) evs act) ''observer_source'' = ''posthoc''"
    "xo_mode obs = ''hybrid'' \<Longrightarrow> mget (annotate obs (Some md) evs act) ''observer_source'' = ''posthoc+ebpf''"
    "xo_mode obs = ''ebpf'' \<Longrightarrow> mget (annotate obs (Some md) evs act) ''observer_source'' = ''ebpf''"
  using assms by (simp_all add: annotate_def Let_def mget_update observer_modes)

lemma new_observer_fields [simp]:
  "xo_events (new_observer env) = []" "\<not> xo_ready (new_observer env)" "\<not> xo_cancel (new_observer env)"
  by (simp_all add: new_observer_def Let_def)

lemma start_returns:
  assumes "\<exists>n. \<not> mo_clock mo n < mo_now mo + 5 * Second"
  shows "\<exists>r obs'. xfrm_start mo (new_observer env) = Some (r, obs')
    \<and> xo_mode obs' = xo_mode (new_observer env) \<and> xo_strict obs' = xo_strict (new_observer env)
    \<and> (r = Inr () \<longrightarrow> xo_started obs' \<and> xo_cancel obs'
         \<and> (\<exists>j i. i \<le> j \<and> mo_clock mo j < mo_now mo + 5 * Second \<and> (\<exists>a \<in> set (mo_acts mo i). reports_ready a) \<and> xo_ready obs'))"
proof (cases "mo_stdoutPipe mo = None \<and> mo_stderrPipe mo = None \<and> mo_start mo = None")
  case True
  let ?obs = "(new_observer env)\<lparr>xo_cancel := True, xo_started := True\<rparr>"
  from wait_ready_returns [of 0 "mo_clock mo" "mo_now mo + 5 * Second" "observer_at mo ?obs"] assms
  obtain r j where w: "waitReady (observer_at mo ?obs) (mo_clock mo) (mo_now mo) (5 * Second) = Some (r, j)"
    "r = Inr () \<longrightarrow> xo_ready (observer_at mo ?obs j) \<and> mo_clock mo j < mo_now mo + 5 * Second"
    by (auto simp: waitReady_def)
  have "monitor_inv ?obs (observer_at mo ?obs j)" by (rule observer_at_inv) simp
  with True w observer_at_ready [of mo ?obs j] show ?thesis by (auto simp: xfrm_start_def monitor_inv_def)
next
  case False
  then obtain err where "xfrm_start mo (new_observer env) = Some (Inl err, new_observer env)"
    by (cases "mo_stdoutPipe mo"; cases "mo_stderrPipe mo"; cases "mo_start mo") (simp_all add: xfrm_start_def)
  then show ?thesis by simp
qed

subsection \<open>Properties\<close>

text \<open>
  (C29) The wait for kernel events ends: if the clock passes the deadline in some iteration, the loop
  returns, in the first iteration that has an event of the expected action or is past the deadline,
  and its result is the events seen in that iteration.
\<close>
theorem events_wait_terminates:
  assumes "\<exists>n. clock n > start + timeout"
  shows "\<exists>j. eventsSinceWithWait obs clock start m act timeout = Some (eventsSince (Some (obs j)) m)
    \<and> (list_ex (\<lambda>e. ke_Action e = act) (eventsSince (Some (obs j)) m) \<or> clock j > start + timeout)
    \<and> (\<forall>l < j. \<not> list_ex (\<lambda>e. ke_Action e = act) (eventsSince (Some (obs l)) m) \<and> clock l \<le> start + timeout)"
  using wait_events_returns [of 0 "start + timeout" clock] assms by (auto simp: eventsSinceWithWait_def)

text \<open>A clock that counts, and a monitor that reports one event in its third poll.\<close>

definition ex_event :: xfrmKernelEvent where
  "ex_event = \<lparr>ke_ObservedAt = 0, ke_Raw = ''e'', ke_Probe = ''p'', ke_Action = ''apply''\<rparr>"

definition ex_polls :: "nat \<Rightarrow> xfrmObserver" where
  "ex_polls i = (new_observer (\<lambda>_. None))\<lparr>xo_events := (if i < 2 then [] else [ex_event]), xo_ready := (2 \<le> i)\<rparr>"

theorem events_wait_terminates_witness:
  "\<exists>j. eventsSinceWithWait ex_polls int 0 (mark 0 (ex_polls 0)) ''apply'' 5
       = Some (eventsSince (Some (ex_polls j)) (mark 0 (ex_polls 0)))"
proof -
  have "\<exists>n. int n > 0 + 5" by (rule exI [of _ 6]) simp
  from events_wait_terminates [OF this, of ex_polls "mark 0 (ex_polls 0)" "''apply''"] show ?thesis by blast
qed

text \<open>
  The start of the observer ends, at the latest when the clock has passed the five seconds, whatever the
  monitor does, and a mode that relies on kernel events is never entered blindly: the observer that
  results is in the posthoc mode, or in the configured one with a started monitor that has reported
  that its probes are loaded before the deadline. The start panics only in strict mode, and then no
  observer results.
\<close>
theorem observer_ready_or_posthoc:
  assumes "\<exists>n. \<not> mo_clock mo n < mo_now mo + 5 * Second"
  shows "\<exists>r. initXFRMObserver env mo = Some r
    \<and> (case r of
         Inl err \<Rightarrow> getenv env ''XFRM_EBPF_STRICT'' ''0'' = ''1'' \<and> xo_mode (new_observer env) \<noteq> ''posthoc''
       | Inr ob \<Rightarrow> xo_mode ob = ''posthoc''
           \<or> xo_mode ob = xo_mode (new_observer env) \<and> xo_ready ob \<and> shutdownXFRMObserver (Some ob)
              \<and> (\<exists>j i. i \<le> j \<and> mo_clock mo j < mo_now mo + 5 * Second \<and> (\<exists>a \<in> set (mo_acts mo i). reports_ready a)))"
proof (cases "xo_mode (new_observer env) = xfrmObserverPosthoc")
  case True
  then show ?thesis by (simp add: initXFRMObserver_def observer_modes)
next
  case False
  from start_returns [OF assms, of env] obtain r obs' where s: "xfrm_start mo (new_observer env) = Some (r, obs')"
    "xo_mode obs' = xo_mode (new_observer env)" "xo_strict obs' = xo_strict (new_observer env)"
    and ok: "r = Inr () \<longrightarrow> xo_started obs' \<and> xo_cancel obs' \<and> (\<exists>j i. i \<le> j \<and> mo_clock mo j < mo_now mo + 5 * Second
         \<and> (\<exists>a \<in> set (mo_acts mo i). reports_ready a) \<and> xo_ready obs')" by blast
  have st: "xo_strict (new_observer env) \<longleftrightarrow> getenv env ''XFRM_EBPF_STRICT'' ''0'' = ''1''"
    by (simp add: new_observer_def Let_def)
  show ?thesis
  proof (cases r)
    case (Inl err)
    with False s st show ?thesis by (auto simp: initXFRMObserver_def observer_modes)
  next
    case (Inr u)
    with False s ok show ?thesis by (auto simp: initXFRMObserver_def observer_modes shutdownXFRMObserver_def xfrm_stop_def)
  qed
qed

text \<open>A monitor that becomes ready in its second poll, in the hybrid mode.\<close>

definition ex_monitor :: monitor where
  "ex_monitor = \<lparr>mo_stdoutPipe = None, mo_stderrPipe = None, mo_start = None,
     mo_acts = (\<lambda>i. if i = 1 then [Line 0 ''cryptna_ebpf_ready''] else []), mo_clock = (\<lambda>i. int i * Second), mo_now = 0\<rparr>"

definition ex_hybrid :: env where
  "ex_hybrid = (\<lambda>k. if k = ''XFRM_OBSERVER'' then Some ''hybrid'' else None)"

theorem observer_ready_or_posthoc_witness:
  "\<exists>ob. initXFRMObserver ex_hybrid ex_monitor = Some (Inr ob)"
proof -
  have "\<exists>n. \<not> mo_clock ex_monitor n < mo_now ex_monitor + 5 * Second"
    by (rule exI [of _ 5]) (simp add: ex_monitor_def Second_def)
  note init = observer_ready_or_posthoc [OF this, of ex_hybrid]
  have "getenv ex_hybrid ''XFRM_EBPF_STRICT'' ''0'' \<noteq> ''1''" by code_simp
  with init show ?thesis by (cases "initXFRMObserver ex_hybrid ex_monitor") (auto split: sum.splits)
qed

text \<open>
  The window of kernel events stays within 4096 entries, and as long as it does not overflow,
  the events since a mark are exactly the ones read after it.
\<close>
theorem observer_window:
  "length (xo_events (readEvents ls (new_observer env))) \<le> 4096
   \<and> (length (xo_events obs) + length (line_events ls) \<le> 4096 \<longrightarrow>
        eventsSince (Some (readEvents ls obs)) (mark now obs) = line_events ls)"
proof -
  have "length (xo_events (readEvents ls (new_observer env))) \<le> 4096"
    by (rule readEvents_bounded) (simp add: new_observer_def Let_def)
  then show ?thesis by (auto simp: eventsSince_def mark_def readEvents_all)
qed

theorem observer_window_witness:
  "eventsSince (Some (readEvents [] (ex_polls 2))) (mark 0 (ex_polls 2)) = []"
  using observer_window [of "[]" "\<lambda>_. None" "ex_polls 2" 0] by (simp add: line_events_def ex_polls_def)

lemma ex_line: "line_events [(0, ''cryptna_xfrm_event'')] = [parseXFRMKernelEvent 0 ''cryptna_xfrm_event'']"
proof -
  have "strings_TrimSpace ''cryptna_xfrm_event'' = ''cryptna_xfrm_event''"
    "\<not> strings_Contains ''cryptna_xfrm_event'' ''cryptna_ebpf_ready''"
    "strings_Contains ''cryptna_xfrm_event'' ''cryptna_xfrm_event''" by code_simp+
  then show ?thesis by (simp add: line_events_def)
qed

text \<open>
  An overflow of the window loses events of a running observation: with 4096 events in the window
  and one more arriving after a mark, the events since the mark are none.
\<close>
theorem observer_overflow_loses:
  assumes "length (xo_events obs) = 4096" and "line_events [(t, l)] = [e]"
  shows "eventsSince (Some (readEvents [(t, l)] obs)) (mark now obs) = []"
proof -
  have "xo_events (read_line t l obs) = drop 2049 (xo_events obs @ [e])"
    using assms by (auto simp: read_line_def Let_def line_events_def split: if_splits)
  then show ?thesis using assms(1) by (simp add: eventsSince_def mark_def)
qed

theorem observer_overflow_loses_witness:
  "eventsSince (Some (readEvents [(0, ''cryptna_xfrm_event'')] ((ex_polls 0)\<lparr>xo_events := replicate 4096 ex_event\<rparr>)))
     (mark 0 ((ex_polls 0)\<lparr>xo_events := replicate 4096 ex_event\<rparr>)) = []"
  by (rule observer_overflow_loses [OF _ ex_line]) simp

text \<open>
  Configuration check: with attestation enabled the PEP starts only if the required profile and
  the mode fit together: a dry run never in apply mode, and a kernel profile only in apply mode with
  an observer that provides it, ready when it is an eBPF one.
\<close>
theorem observer_configuration_exact:
  "validateXFRMObserverConfiguration env True observer = Inr () \<longleftrightarrow>
     (let req = strings_ToLower (strings_TrimSpace (getenv env ''PEP_REQUIRED_OBSERVER_PROFILE'' ''posthoc''));
          applying = (getenv env ''XFRM_MODE'' ''dry-run'' = ''apply'') in
      req = ''dry-run'' \<and> \<not> applying
      \<or> applying \<and> (\<exists>ob. observer = Some ob
          \<and> (req = ''posthoc'' \<and> xo_mode ob \<in> {''posthoc'', ''hybrid''}
             \<or> req \<in> {''hybrid'', ''ebpf''} \<and> xo_mode ob = req \<and> xo_ready ob)))"
proof -
  let ?req = "strings_ToLower (strings_TrimSpace (getenv env ''PEP_REQUIRED_OBSERVER_PROFILE'' ''posthoc''))"
  consider "?req = ''dry-run''" | "?req = ''posthoc''" | "?req = ''hybrid''" | "?req = ''ebpf''"
    | "?req \<notin> {''dry-run'', ''posthoc'', ''hybrid'', ''ebpf''}" by blast
  then show ?thesis
    by cases (simp_all add: validateXFRMObserverConfiguration_def Let_def observer_modes split: option.split)
qed

end
