(* ===== verification/Pep_State.thy ===== *)
theory Pep_State
  imports Pep_Observer
begin

text \<open>
  The state of the PEP and its durable part, \<^verbatim>\<open>pep/state.go\<close>. The package-level variables of the PEP
  are the record \<open>pep\<close>; what lies outside the process (environment variables, the clock, the
  outcome of system calls, the kernel, random bytes, the verifier's replies, kernel events) is the
  record \<open>world\<close>. A reading of the outside world takes the value at the current tick and advances
  the tick, so that two readings may differ.

  The three operations on the pending slots (\<open>setPendingPEPOperation\<close>, \<open>clearPendingPEPOperation\<close>,
  \<open>setPendingCapacityEvidence\<close>) share one contract, the locale \<open>pending_slot\<close>: the slot is written
  through to the disk, or it is as it was, in memory and on disk.
\<close>

record pendingEnforcementOperation =
  po_Operation :: string
  po_Session :: Session

record persistentPEPState =
  ps_Version :: int
  ps_History :: enforcementHistorySnapshot
  ps_Sessions :: "Session smap option"
  ps_Pending :: "pendingEnforcementOperation option"
  ps_PendingCapacity :: "HistoryEvidence option"

record pepAttestationState =
  at_enabled :: bool
  at_pepID :: string
  at_verifierURL :: string
  at_measurement :: string
  at_policyHash :: string
  at_scope :: "string list"
  at_maxSALifetime :: int
  at_verifierPubKey :: string
  at_requiredObserver :: string
  at_key :: Ed25519Identity
  at_token :: "CapacityToken option"

record 'k pep =
  p_history :: "EnforcementHistory option"
  p_sessions :: "Session smap"
  p_pending :: "pendingEnforcementOperation option"
  p_pendingCapacity :: "HistoryEvidence option"
  p_statePath :: string
  p_nextReqID :: u32
  p_nextClientInnerID :: u32
  p_healthy :: bool
  p_attestation :: "pepAttestationState option"
  p_observer :: "xfrmObserver option"
  p_disk :: "persistentPEPState disk"
  p_kernel :: 'k
  p_tick :: nat

text \<open>The reply to the request that the PEP posts to the verifier.\<close>

datatype verifier_reply = NoReply | Status int | BadBody | Reply CapacityToken

record 'k world =
  w_prims :: prims
  w_env :: env
  w_clock :: "nat \<Rightarrow> time"
  w_os :: "nat \<Rightarrow> os_result"
  w_kernel :: "'k kernel"
  w_rand :: "nat \<Rightarrow> bytes option"
  w_post :: "nat \<Rightarrow> CapacityRequest \<Rightarrow> verifier_reply"
  w_events :: "nat \<Rightarrow> xfrmKernelEvent list" \<comment> \<open>what \<open>eventsSinceWithWait\<close> returns\<close>
  w_durations :: "nat \<Rightarrow> int \<times> int \<times> int"

abbreviation tick :: "'k pep \<Rightarrow> 'k pep" where
  "tick p \<equiv> p\<lparr>p_tick := Suc (p_tick p)\<rparr>"

abbreviation stored :: "'k pep \<Rightarrow> persistentPEPState content option" where
  "stored p \<equiv> p_disk p (p_statePath p)"

text \<open>\<^verbatim>\<open>historyAppend\<close> on the package's history, with a reading of the clock.\<close>

definition pep_append :: "'k world \<Rightarrow> string \<Rightarrow> Session option \<Rightarrow> string smap option \<Rightarrow> 'k pep \<Rightarrow> 'k pep" where
  "pep_append W eventType session md p =
     tick (p\<lparr>p_history := historyAppend (w_prims W) (w_clock W (p_tick p)) eventType session md (p_history p)\<rparr>)"

subsection \<open>Saving\<close>

definition pep_snapshot :: "EnforcementHistory \<Rightarrow> 'k pep \<Rightarrow> persistentPEPState" where
  "pep_snapshot h p =
     \<lparr>ps_Version = 1, ps_History = Snapshot h, ps_Sessions = Some (p_sessions p), ps_Pending = p_pending p,
      ps_PendingCapacity = p_pendingCapacity p\<rparr>"

definition persistPEPState :: "'k world \<Rightarrow> 'k pep \<Rightarrow> (os_error + unit) \<times> 'k pep" where
  "persistPEPState W p =
     (case p_history p of None \<Rightarrow> (Inr (), p)
      | Some h \<Rightarrow>
        if p_statePath p = '''' then (Inr (), p)
        else let (r, disk) = replace_file (w_os W (p_tick p)) (p_statePath p) (pep_snapshot h p) (p_disk p)
             in (r, tick (p\<lparr>p_disk := disk\<rparr>)))"

definition setPendingPEPOperation :: "'k world \<Rightarrow> string \<Rightarrow> Session \<Rightarrow> 'k pep \<Rightarrow> (os_error + unit) \<times> 'k pep" where
  "setPendingPEPOperation W operation session p =
     (let previous = p_pending p;
          p = p\<lparr>p_pending := Some \<lparr>po_Operation = operation, po_Session = session\<rparr>\<rparr>
      in (case persistPEPState W p of
            (Inl err, p) \<Rightarrow> (Inl err, p\<lparr>p_pending := previous\<rparr>)
          | (Inr _, p) \<Rightarrow> (Inr (), p)))"

definition clearPendingPEPOperation :: "'k world \<Rightarrow> 'k pep \<Rightarrow> (os_error + unit) \<times> 'k pep" where
  "clearPendingPEPOperation W p =
     (let previous = p_pending p;
          p = p\<lparr>p_pending := None\<rparr>
      in (case persistPEPState W p of
            (Inl err, p) \<Rightarrow> (Inl err, p\<lparr>p_pending := previous\<rparr>)
          | (Inr _, p) \<Rightarrow> (Inr (), p)))"

definition getPendingCapacityEvidence :: "'k pep \<Rightarrow> HistoryEvidence option" where
  "getPendingCapacityEvidence p = p_pendingCapacity p"

definition setPendingCapacityEvidence :: "'k world \<Rightarrow> HistoryEvidence option \<Rightarrow> 'k pep \<Rightarrow> (os_error + unit) \<times> 'k pep" where
  "setPendingCapacityEvidence W evidence p =
     (let previous = p_pendingCapacity p;
          p = p\<lparr>p_pendingCapacity := evidence\<rparr>
      in (case persistPEPState W p of
            (Inl err, p) \<Rightarrow> (Inl err, p\<lparr>p_pendingCapacity := previous\<rparr>)
          | (Inr _, p) \<Rightarrow> (Inr (), p)))"

subsection \<open>Loading\<close>

datatype load_error =
    UnreadableState | UnsupportedVersion int | IncompletePending string | LoadHistory hist_error

text \<open>
  \<open>loadPEPState\<close> on a disk whose file can be opened if it exists. The path is set in every case, and
  the pending capacity evidence before the history is checked.
\<close>

definition loadPEPState :: "prims \<Rightarrow> string \<Rightarrow> EnforcementHistory \<Rightarrow> 'k pep \<Rightarrow> (load_error + unit) \<times> 'k pep" where
  "loadPEPState P path history p0 =
     (let p = p0\<lparr>p_statePath := path, p_history := Some history\<rparr> in
      if path = '''' then (Inr (), p)
      else case p_disk p path of None \<Rightarrow> (Inr (), p)
      | Some Torn \<Rightarrow> (Inl UnreadableState, p)
      | Some (Doc persisted) \<Rightarrow>
        if ps_Version persisted \<noteq> 1 then (Inl (UnsupportedVersion (ps_Version persisted)), p)
        else case ps_Pending persisted of
          Some opn \<Rightarrow> (Inl (IncompletePending (po_Operation opn)), p)
        | None \<Rightarrow>
          let p = p\<lparr>p_pendingCapacity := ps_PendingCapacity persisted\<rparr> in
          case Restore P (ps_History persisted) history of
            Inl e \<Rightarrow> (Inl (LoadHistory e), p)
          | Inr history \<Rightarrow>
            (Inr (), (case ps_Sessions persisted of
               None \<Rightarrow> p\<lparr>p_history := Some history\<rparr>
             | Some ss \<Rightarrow> p\<lparr>p_history := Some history, p_sessions := ss\<rparr>)))"

subsection \<open>The contract of the pending slots\<close>

text \<open>What a write to a slot leaves alone.\<close>

definition same_core :: "'k pep \<Rightarrow> 'k pep \<Rightarrow> bool" where
  "same_core p p' \<longleftrightarrow>
     p_history p' = p_history p \<and> p_sessions p' = p_sessions p \<and> p_statePath p' = p_statePath p
     \<and> p_nextReqID p' = p_nextReqID p \<and> p_nextClientInnerID p' = p_nextClientInnerID p
     \<and> p_healthy p' = p_healthy p \<and> p_attestation p' = p_attestation p \<and> p_observer p' = p_observer p
     \<and> p_kernel p' = p_kernel p"

definition durable :: "'k pep \<Rightarrow> bool" where
  "durable p \<longleftrightarrow> p_history p \<noteq> None \<and> p_statePath p \<noteq> ''''"

lemma durable_core: "same_core p p' \<Longrightarrow> durable p' = durable p"
  by (simp add: same_core_def durable_def)

locale pending_slot =
  fixes put :: "'v \<Rightarrow> 'k pep \<Rightarrow> (os_error + unit) \<times> 'k pep"
    and slot :: "'k pep \<Rightarrow> 'v"
    and saved :: "persistentPEPState \<Rightarrow> 'v"
  assumes write_core: "put v p = (r, p') \<Longrightarrow> same_core p p'"
    and write_ok: "put v p = (Inr u, p') \<Longrightarrow> slot p' = v"
    and write_stored: "put v p = (Inr u, p') \<Longrightarrow> durable p \<Longrightarrow> \<exists>d. stored p' = Some (Doc d) \<and> saved d = v"
    and write_error: "put v p = (Inl e, p') \<Longrightarrow> slot p' = slot p \<and> stored p' = stored p"
begin

definition in_sync :: "'k pep \<Rightarrow> bool" where
  "in_sync p \<longleftrightarrow> durable p \<and> (\<exists>d. stored p = Some (Doc d) \<and> saved d = slot p)"

lemma write_in_sync:
  assumes "put v p = (r, p')" "in_sync p"
  shows "in_sync p'"
proof (cases r)
  case (Inl e)
  with assms write_error [of v p e p'] durable_core [OF write_core [OF assms(1)]] show ?thesis
    by (simp add: in_sync_def)
next
  case (Inr u)
  with assms write_ok [of v p u p'] write_stored [of v p u p'] durable_core [OF write_core [OF assms(1)]]
  show ?thesis by (simp add: in_sync_def)
qed

text \<open>Any sequence of writes, whatever fails, ends with the last value that was written, in both places.\<close>

fun writes :: "'v list \<Rightarrow> 'k pep \<Rightarrow> 'k pep" where
  "writes [] p = p"
| "writes (v # vs) p = writes vs (snd (put v p))"

lemma writes_in_sync: "in_sync p \<Longrightarrow> in_sync (writes vs p)"
proof (induction vs p rule: writes.induct)
  case (2 v vs p)
  then show ?case using write_in_sync [of v p "fst (put v p)" "snd (put v p)"] by simp
qed simp

end

lemma persist_cases:
  assumes "persistPEPState W p = (r, p')"
  obtains "\<not> durable p" "r = Inr ()" "p' = p"
  | h disk where "durable p" "p_history p = Some h"
      "replace_file (w_os W (p_tick p)) (p_statePath p) (pep_snapshot h p) (p_disk p) = (r, disk)"
      "p' = p\<lparr>p_disk := disk, p_tick := Suc (p_tick p)\<rparr>"
  using assms by (auto simp: persistPEPState_def durable_def split: option.splits if_splits prod.splits)

lemma persist_ok:
  assumes "persistPEPState W p = (Inr u, p')"
  shows "durable p \<Longrightarrow> \<exists>h. p_history p = Some h \<and> stored p' = Some (Doc (pep_snapshot h p))"
    and "same_core p p' \<and> p_pending p' = p_pending p \<and> p_pendingCapacity p' = p_pendingCapacity p"
  using assms by (auto elim!: persist_cases simp: same_core_def dest: replace_file_target)

lemma persist_error:
  assumes "persistPEPState W p = (Inl e, p')"
  shows "stored p' = stored p \<and> same_core p p' \<and> p_pending p' = p_pending p \<and> p_pendingCapacity p' = p_pendingCapacity p"
  using assms by (auto elim!: persist_cases simp: same_core_def dest: replace_file_target)

lemma durable_slots [simp]:
  "durable (p\<lparr>p_pending := a\<rparr>) = durable p" "durable (p\<lparr>p_pendingCapacity := c\<rparr>) = durable p"
  "same_core (p\<lparr>p_pending := a\<rparr>) q = same_core p q" "same_core (p\<lparr>p_pendingCapacity := c\<rparr>) q = same_core p q"
  "same_core p (q\<lparr>p_pending := a\<rparr>) = same_core p q" "same_core p (q\<lparr>p_pendingCapacity := c\<rparr>) = same_core p q"
  by (simp_all add: durable_def same_core_def)

lemma snapshot_fields [simp]:
  "ps_Version (pep_snapshot h p) = 1" "ps_History (pep_snapshot h p) = Snapshot h"
  "ps_Sessions (pep_snapshot h p) = Some (p_sessions p)" "ps_Pending (pep_snapshot h p) = p_pending p"
  "ps_PendingCapacity (pep_snapshot h p) = p_pendingCapacity p"
  by (simp_all add: pep_snapshot_def)

text \<open>One characterisation per operation; everything later rests on these.\<close>

lemma setPending_ok:
  assumes "setPendingPEPOperation W opn s p = (Inr u, p')"
  shows "same_core p p'" "p_pending p' = Some \<lparr>po_Operation = opn, po_Session = s\<rparr>" "p_pendingCapacity p' = p_pendingCapacity p"
    "durable p \<Longrightarrow> \<exists>h. p_history p = Some h \<and> stored p' = Some (Doc (pep_snapshot h p'))"
proof -
  let ?q = "p\<lparr>p_pending := Some \<lparr>po_Operation = opn, po_Session = s\<rparr>\<rparr>"
  from assms have q: "persistPEPState W ?q = (Inr (), p')"
    by (auto simp: setPendingPEPOperation_def Let_def split: prod.splits sum.splits)
  from persist_ok(2) [OF q] show c: "same_core p p'" and "p_pending p' = Some \<lparr>po_Operation = opn, po_Session = s\<rparr>"
    and "p_pendingCapacity p' = p_pendingCapacity p" by auto
  with persist_ok(1) [OF q] show "durable p \<Longrightarrow> \<exists>h. p_history p = Some h \<and> stored p' = Some (Doc (pep_snapshot h p'))"
    by (auto simp: pep_snapshot_def same_core_def)
qed

lemma setPending_error:
  assumes "setPendingPEPOperation W opn s p = (Inl e, p')"
  shows "same_core p p'" "p_pending p' = p_pending p" "p_pendingCapacity p' = p_pendingCapacity p" "stored p' = stored p"
  using assms persist_error by (auto simp: setPendingPEPOperation_def Let_def split: prod.splits sum.splits dest!: persist_error)

lemma clearPending_ok:
  assumes "clearPendingPEPOperation W p = (Inr u, p')"
  shows "same_core p p'" "p_pending p' = None" "p_pendingCapacity p' = p_pendingCapacity p"
    "durable p \<Longrightarrow> \<exists>h. p_history p = Some h \<and> stored p' = Some (Doc (pep_snapshot h p'))"
proof -
  from assms have q: "persistPEPState W (p\<lparr>p_pending := None\<rparr>) = (Inr (), p')"
    by (auto simp: clearPendingPEPOperation_def Let_def split: prod.splits sum.splits)
  from persist_ok(2) [OF q] show "same_core p p'" and "p_pending p' = None"
    and "p_pendingCapacity p' = p_pendingCapacity p" by auto
  with persist_ok(1) [OF q] show "durable p \<Longrightarrow> \<exists>h. p_history p = Some h \<and> stored p' = Some (Doc (pep_snapshot h p'))"
    by (auto simp: pep_snapshot_def same_core_def)
qed

lemma clearPending_error:
  assumes "clearPendingPEPOperation W p = (Inl e, p')"
  shows "same_core p p'" "p_pending p' = p_pending p" "p_pendingCapacity p' = p_pendingCapacity p" "stored p' = stored p"
  using assms by (auto simp: clearPendingPEPOperation_def Let_def split: prod.splits sum.splits dest!: persist_error)

lemma setPendingCapacity_ok:
  assumes "setPendingCapacityEvidence W ev p = (Inr u, p')"
  shows "same_core p p'" "p_pending p' = p_pending p" "p_pendingCapacity p' = ev"
    "durable p \<Longrightarrow> \<exists>h. p_history p = Some h \<and> stored p' = Some (Doc (pep_snapshot h p'))"
proof -
  from assms have q: "persistPEPState W (p\<lparr>p_pendingCapacity := ev\<rparr>) = (Inr (), p')"
    by (auto simp: setPendingCapacityEvidence_def Let_def split: prod.splits sum.splits)
  from persist_ok(2) [OF q] show "same_core p p'" and "p_pending p' = p_pending p"
    and "p_pendingCapacity p' = ev" by auto
  with persist_ok(1) [OF q] show "durable p \<Longrightarrow> \<exists>h. p_history p = Some h \<and> stored p' = Some (Doc (pep_snapshot h p'))"
    by (auto simp: pep_snapshot_def same_core_def)
qed

lemma setPendingCapacity_error:
  assumes "setPendingCapacityEvidence W ev p = (Inl e, p')"
  shows "same_core p p'" "p_pending p' = p_pending p" "p_pendingCapacity p' = p_pendingCapacity p" "stored p' = stored p"
  using assms by (auto simp: setPendingCapacityEvidence_def Let_def split: prod.splits sum.splits dest!: persist_error)

text \<open>Writing the slot of the pending operation: \<open>None\<close> clears it.\<close>

definition putPending :: "'k world \<Rightarrow> pendingEnforcementOperation option \<Rightarrow> 'k pep \<Rightarrow> (os_error + unit) \<times> 'k pep" where
  "putPending W v = (case v of None \<Rightarrow> clearPendingPEPOperation W
     | Some opn \<Rightarrow> setPendingPEPOperation W (po_Operation opn) (po_Session opn))"

interpretation op_slot: pending_slot "putPending W" p_pending ps_Pending
proof
  fix v and p p' :: "'a pep" and r u e
  show "putPending W v p = (r, p') \<Longrightarrow> same_core p p'"
    by (cases r) (auto simp: putPending_def split: option.splits
        dest: setPending_ok setPending_error clearPending_ok clearPending_error)
  show "putPending W v p = (Inr u, p') \<Longrightarrow> p_pending p' = v"
    by (auto simp: putPending_def split: option.splits dest: setPending_ok clearPending_ok)
  show "\<exists>d. stored p' = Some (Doc d) \<and> ps_Pending d = v" if "putPending W v p = (Inr u, p')" "durable p"
    using that setPending_ok(2,4) [of W _ _ p u p'] clearPending_ok(2,4) [of W p u p']
    by (fastforce simp: putPending_def split: option.splits)
  show "putPending W v p = (Inl e, p') \<Longrightarrow> p_pending p' = p_pending p \<and> stored p' = stored p"
    by (auto simp: putPending_def split: option.splits dest: setPending_error clearPending_error)
qed

interpretation capacity_slot: pending_slot "setPendingCapacityEvidence W" p_pendingCapacity ps_PendingCapacity
proof
  fix v and p p' :: "'a pep" and r u e
  show "setPendingCapacityEvidence W v p = (r, p') \<Longrightarrow> same_core p p'"
    by (cases r) (auto dest: setPendingCapacity_ok setPendingCapacity_error)
  show "setPendingCapacityEvidence W v p = (Inr u, p') \<Longrightarrow> p_pendingCapacity p' = v"
    by (rule setPendingCapacity_ok)
  show "\<exists>d. stored p' = Some (Doc d) \<and> ps_PendingCapacity d = v"
    if "setPendingCapacityEvidence W v p = (Inr u, p')" "durable p"
    using that setPendingCapacity_ok(3,4) [of W v p u p'] by fastforce
  show "setPendingCapacityEvidence W v p = (Inl e, p') \<Longrightarrow> p_pendingCapacity p' = p_pendingCapacity p \<and> stored p' = stored p"
    by (auto dest: setPendingCapacity_error)
qed

subsection \<open>Properties\<close>

lemma load_incomplete:
  assumes "path \<noteq> ''''" "p_disk p path = Some (Doc d)" "ps_Version d = 1" "ps_Pending d = Some opn"
  shows "fst (loadPEPState P path h0 p) = Inl (IncompletePending (po_Operation opn))"
  using assms by (simp add: loadPEPState_def Let_def)

text \<open>
  A pending slot of the PEP is never half written: from a state in which memory and disk agree on
  the pending operation, any sequence of sets and clears, each of which may fail in any system call,
  ends in a state in which they agree.
\<close>
theorem pending_slot_in_sync:
  assumes "durable p" "stored p = Some (Doc d)" "ps_Pending d = p_pending p"
  shows "\<exists>d'. stored (op_slot.writes W vs p) = Some (Doc d') \<and> ps_Pending d' = p_pending (op_slot.writes W vs p)"
  using op_slot.writes_in_sync [of p W vs] assms by (auto simp: op_slot.in_sync_def)

text \<open>
  Write-ahead marker: once a pending operation has been recorded, a restart from the disk is
  refused, and so is a restart from any disk that a crash during the next save can leave, except the
  one in which that save is complete.
\<close>
theorem pending_marker_blocks_restart:
  assumes "setPendingPEPOperation W opn s p = (Inr (), p')" "durable p"
    and "disk \<in> set (crash_points (p_statePath p) d (p_disk p'))" and "disk (p_statePath p) \<noteq> Some (Doc d)"
  shows "fst (loadPEPState P (p_statePath p) h0 (q\<lparr>p_disk := disk\<rparr>)) = Inl (IncompletePending opn)"
proof -
  note ok = setPending_ok [OF assms(1)]
  from ok(1,2,4) assms(2) obtain h where st: "p_disk p' (p_statePath p) = Some (Doc (pep_snapshot h p'))"
    by (auto simp: same_core_def)
  from crash_points_target [OF assms(3)] assms(4) have "disk (p_statePath p) = p_disk p' (p_statePath p)" by auto
  moreover from assms(2) have "p_statePath p \<noteq> ''''" by (simp add: durable_def)
  ultimately show ?thesis
    using load_incomplete [of "p_statePath p" "q\<lparr>p_disk := disk\<rparr>" "pep_snapshot h p'"] st ok(2) by simp
qed

text \<open>
  Round trip through the state file: a PEP that restarts from a state saved with no operation
  pending has the sessions, the history and the pending capacity evidence of the one that saved it.
\<close>
theorem pep_state_roundtrip:
  assumes "persistPEPState W p = (Inr (), p')" "p_history p = Some h" "p_statePath p \<noteq> ''''" "p_pending p = None"
    and "hist_ok (w_prims W) h" "eh_pepID h0 = eh_pepID h"
  shows "\<exists>q'. loadPEPState (w_prims W) (p_statePath p) h0 (q\<lparr>p_disk := p_disk p'\<rparr>) = (Inr (), q')
    \<and> p_history q' = Some h \<and> p_sessions q' = p_sessions p \<and> p_pendingCapacity q' = p_pendingCapacity p"
proof -
  have "durable p" using assms(2,3) by (simp add: durable_def)
  with persist_ok [OF assms(1)] assms(2)
  have "p_disk p' (p_statePath p) = Some (Doc (pep_snapshot h p))" by (auto simp: same_core_def)
  with assms(3,4) Restore_Snapshot [OF assms(5,6)] show ?thesis by (simp add: loadPEPState_def Let_def)
qed

text \<open>
  (C33) What a start accepts: loading succeeds exactly when there is no state file, or the file is of
  version 1 with no operation pending and a history that is an intact chain for this PEP.
\<close>
theorem load_state_exact:
  assumes "path \<noteq> ''''"
  shows "fst (loadPEPState P path h0 p) = Inr () \<longleftrightarrow>
    p_disk p path = None
    \<or> (\<exists>d. p_disk p path = Some (Doc d) \<and> ps_Version d = 1 \<and> ps_Pending d = None
          \<and> hs_PEPID (ps_History d) = eh_pepID h0 \<and> chained P (eh_pepID h0) '''' 0 (hs_Events (ps_History d))
          \<and> hs_LastEventHash (ps_History d) = end_hash '''' (hs_Events (ps_History d))
          \<and> hs_LastIndex (ps_History d) = end_index 0 (hs_Events (ps_History d))
          \<and> hs_LastAcceptedCheckpointIndex (ps_History d) \<le> hs_LastIndex (ps_History d))"
proof -
  have "(\<exists>h'. Restore P s h0 = Inr h') \<longleftrightarrow>
      hs_PEPID s = eh_pepID h0 \<and> chained P (eh_pepID h0) '''' 0 (hs_Events s)
      \<and> hs_LastEventHash s = end_hash '''' (hs_Events s) \<and> hs_LastIndex s = end_index 0 (hs_Events s)
      \<and> hs_LastAcceptedCheckpointIndex s \<le> hs_LastIndex s" for s
    by (auto simp: Restore_iff)
  note this [symmetric, simp]
  show ?thesis
    using assms by (auto simp: loadPEPState_def Let_def split: option.splits content.splits sum.splits)
qed

subsection \<open>Examples\<close>

definition ex_session :: Session where
  "ex_session = \<lparr>ss_ClientPubKey = ''c'', ss_ServiceID = ''s'', ss_ReqID = 1, ss_ClientInSPI = ''0x1'', ss_PEPInSPI = ''0x2'',
     ss_ClientOuterIP = ''a'', ss_ClientInnerIP = ''b'', ss_PEPOuterIP = ''p'', ss_ServiceIP = ''d'', ss_NATTPort = 4500,
     ss_ClientDHPub = ''e'', ss_PEPDHPub = ''f'', ss_AEAD = ''g'', ss_C2PKey = ''h'', ss_P2CKey = ''i'', ss_ExpiresAt = ''x'',
     ss_XFRM = \<lparr>xp_Mode = ''tunnel'', xp_Commands = [], xp_DeleteCommands = []\<rparr>\<rparr>"

definition ex_pep :: "unit pep" where
  "ex_pep = \<lparr>p_history = Some (NewEnforcementHistory ''p''), p_sessions = [(''0x2'', ex_session)], p_pending = None,
     p_pendingCapacity = None, p_statePath = ''/d/s'', p_nextReqID = 0, p_nextClientInnerID = 0, p_healthy = True,
     p_attestation = None, p_observer = None,
     p_disk = [''/d/s'' \<mapsto> Doc \<lparr>ps_Version = 1, ps_History = Snapshot (NewEnforcementHistory ''p''), ps_Sessions = None,
        ps_Pending = None, ps_PendingCapacity = None\<rparr>],
     p_kernel = (), p_tick = 0\<rparr>"

definition ex_world :: "unit world" where
  "ex_world = \<lparr>w_prims = demo_prims, w_env = (\<lambda>_. None), w_clock = int, w_os = (\<lambda>_. os_fine),
     w_kernel = \<lparr>k_sh = (\<lambda>_ k. (None, k)), k_ip = (\<lambda>_ _. ([], None))\<rparr>, w_rand = (\<lambda>_. None),
     w_post = (\<lambda>_ _. NoReply), w_events = (\<lambda>_. []), w_durations = (\<lambda>_. (0, 0, 0))\<rparr>"

lemma ex_pep_durable: "durable ex_pep" by (simp add: durable_def ex_pep_def)

lemma ex_set: "\<exists>p'. setPendingPEPOperation ex_world ''xfrm_apply'' ex_session ex_pep = (Inr (), p')"
  by (simp add: setPendingPEPOperation_def persistPEPState_def replace_file_def ex_world_def os_fine_def Let_def
      split: option.split)

theorem pending_slot_in_sync_witness:
  "\<exists>d'. stored (op_slot.writes ex_world [None, None] ex_pep) = Some (Doc d')
    \<and> ps_Pending d' = p_pending (op_slot.writes ex_world [None, None] ex_pep)"
proof -
  obtain d where "stored ex_pep = Some (Doc d)" "ps_Pending d = p_pending ex_pep" by (simp add: ex_pep_def)
  from pending_slot_in_sync [OF ex_pep_durable this, of ex_world "[None, None]"] show ?thesis .
qed

theorem pending_marker_blocks_restart_witness:
  "\<exists>p'. setPendingPEPOperation ex_world ''xfrm_apply'' ex_session ex_pep = (Inr (), p')
    \<and> fst (loadPEPState demo_prims ''/d/s'' (NewEnforcementHistory ''p'') (ex_pep\<lparr>p_disk := p_disk p'\<rparr>))
        = Inl (IncompletePending ''xfrm_apply'')"
proof -
  from ex_set obtain p' where p': "setPendingPEPOperation ex_world ''xfrm_apply'' ex_session ex_pep = (Inr (), p')" ..
  let ?d = "pep_snapshot (NewEnforcementHistory ''p'') ex_pep"
  from setPending_ok [OF p'] ex_pep_durable have "p_disk p' (p_statePath ex_pep) \<noteq> Some (Doc ?d)"
    by (auto simp: same_core_def ex_pep_def pep_snapshot_def)
  moreover have "p_disk p' \<in> set (crash_points (p_statePath ex_pep) ?d (p_disk p'))"
    by (simp add: crash_points_def Let_def)
  ultimately have "fst (loadPEPState demo_prims (p_statePath ex_pep) (NewEnforcementHistory ''p'') (ex_pep\<lparr>p_disk := p_disk p'\<rparr>))
      = Inl (IncompletePending ''xfrm_apply'')"
    by (intro pending_marker_blocks_restart [OF p' ex_pep_durable])
  moreover have "p_statePath ex_pep = ''/d/s''" by (simp add: ex_pep_def)
  ultimately show ?thesis using p' by auto
qed

lemma ex_persist: "\<exists>p'. persistPEPState ex_world ex_pep = (Inr (), p')"
  by (simp add: persistPEPState_def replace_file_def ex_world_def os_fine_def Let_def split: option.split)

theorem pep_state_roundtrip_witness:
  "\<exists>p' q'. persistPEPState ex_world ex_pep = (Inr (), p')
    \<and> loadPEPState demo_prims ''/d/s'' (NewEnforcementHistory ''p'') (ex_pep\<lparr>p_disk := p_disk p'\<rparr>) = (Inr (), q')
    \<and> p_sessions q' = [(''0x2'', ex_session)]"
proof -
  from ex_persist obtain p' where p': "persistPEPState ex_world ex_pep = (Inr (), p')" ..
  have "p_history ex_pep = Some (NewEnforcementHistory ''p'')" "p_statePath ex_pep \<noteq> ''''" "p_pending ex_pep = None"
    by (simp_all add: ex_pep_def)
  from pep_state_roundtrip [OF p' this hist_ok_new refl, of ex_pep] p' show ?thesis
    by (auto simp: ex_pep_def ex_world_def)
qed

theorem load_state_exact_witness:
  "fst (loadPEPState demo_prims ''/d/s'' (NewEnforcementHistory ''p'') ex_pep) = Inr ()"
  by (subst load_state_exact) (simp_all add: ex_pep_def Snapshot_def NewEnforcementHistory_def)

end
