(* ===== verification/Pep_Alloc.thy ===== *)
theory Pep_Alloc
  imports Pep_State
begin

text \<open>
  The allocators of \<^verbatim>\<open>pep/main.go\<close>: request identifiers and client inner addresses, with the part of
  \<^verbatim>\<open>net/netip\<close> they use. Both counters are 32-bit words that wrap around. Only IPv4 addresses are
  accepted, so an address that does not parse as IPv4 is \<open>None\<close>, as are an IPv6 address and an error.
\<close>

unbundle bit_operations_syntax

subsection \<open>IPv4 addresses and prefixes\<close>

definition parse_octet :: "string \<Rightarrow> nat option" where
  "parse_octet s =
     (if length s > 1 \<and> hd s = CHR ''0'' then None
      else case parse_digits s of None \<Rightarrow> None | Some n \<Rightarrow> if n > 255 then None else Some n)"

definition netip_ParseAddr4 :: "string \<Rightarrow> u32 option" where
  "netip_ParseAddr4 s =
     (case map parse_octet (split_at (CHR ''.'') s) of
        [Some a, Some b, Some c, Some d] \<Rightarrow> Some (be32_get (map of_nat [a, b, c, d]))
      | _ \<Rightarrow> None)"

definition netip_String4 :: "u32 \<Rightarrow> string" where
  "netip_String4 w = strings_Join ''.'' (map utoa (be32_put w))"

text \<open>\<^verbatim>\<open>netip.ParsePrefix\<close>: the text after the last slash is the length, without a sign or leading zeros.\<close>

definition netip_ParsePrefix4 :: "string \<Rightarrow> (u32 \<times> nat) option" where
  "netip_ParsePrefix4 s =
     (let fs = split_at (CHR ''/'') s; bits = last fs in
      if length fs < 2 then None
      else case netip_ParseAddr4 (strings_Join ''/'' (butlast fs)) of None \<Rightarrow> None
      | Some w \<Rightarrow>
        if length bits > 1 \<and> \<not> (is_digit (hd bits) \<and> hd bits \<noteq> CHR ''0'') then None
        else case strconv_Atoi bits of None \<Rightarrow> None
        | Some n \<Rightarrow> if n < 0 \<or> n > 32 then None else Some (w, nat n))"

definition prefix_masked :: "u32 \<Rightarrow> nat \<Rightarrow> u32" where
  "prefix_masked w bits = push_bit (32 - bits) (drop_bit (32 - bits) w)"

definition prefix_contains :: "u32 \<Rightarrow> nat \<Rightarrow> u32 \<Rightarrow> bool" where
  "prefix_contains w bits a \<longleftrightarrow> drop_bit (32 - bits) (a XOR w) = 0"

subsection \<open>The allocators\<close>

definition clientInnerIPFromOffset :: "string \<Rightarrow> u32 \<Rightarrow> string option" where
  "clientInnerIPFromOffset cidr offset =
     (case netip_ParsePrefix4 cidr of None \<Rightarrow> None
      | Some (addr, bits) \<Rightarrow>
        let base = prefix_masked addr bits;
            hostBits = 32 - bits in
        if hostBits < 2 then None
        else let maxHost = 2 ^ hostBits - 2 in
          if offset = 0 \<or> unat offset > maxHost then None
          else Some (netip_String4 (base + offset)))"

definition clientInnerIPOffset :: "string \<Rightarrow> string \<Rightarrow> u32 option" where
  "clientInnerIPOffset cidr address =
     (case netip_ParsePrefix4 cidr of None \<Rightarrow> None
      | Some (w, bits) \<Rightarrow>
        (case netip_ParseAddr4 address of None \<Rightarrow> None
         | Some a \<Rightarrow> if \<not> prefix_contains w bits a then None else Some (a - prefix_masked w bits)))"

definition allocateReqID :: "'k pep \<Rightarrow> u32 \<times> 'k pep" where
  "allocateReqID p = (let n = p_nextReqID p + 1 in (n, p\<lparr>p_nextReqID := n\<rparr>))"

definition allocateClientInnerIP :: "env \<Rightarrow> 'k pep \<Rightarrow> string option \<times> 'k pep" where
  "allocateClientInnerIP env p =
     (let offset = p_nextClientInnerID p + 1 in
      (clientInnerIPFromOffset (getenv env ''CLIENT_TUNNEL_CIDR'' ''10.200.0.0/16'') offset,
       p\<lparr>p_nextClientInnerID := offset\<rparr>))"

text \<open>A base that does not parse, or is zero, is replaced by the default.\<close>

definition base_value :: "string \<Rightarrow> nat \<Rightarrow> nat" where
  "base_value s fallback = (case strconv_ParseUint s 32 of None \<Rightarrow> fallback | Some n \<Rightarrow> if n = 0 then fallback else n)"

fun max_used :: "string \<Rightarrow> Session list \<Rightarrow> u32 \<times> u32 \<Rightarrow> u32 \<times> u32" where
  "max_used cidr [] acc = acc"
| "max_used cidr (session # ss) (maxReqID, maxInnerOffset) =
     max_used cidr ss
       (if ss_ReqID session > maxReqID then ss_ReqID session else maxReqID,
        case clientInnerIPOffset cidr (ss_ClientInnerIP session) of
          None \<Rightarrow> maxInnerOffset
        | Some offset \<Rightarrow> if offset > maxInnerOffset then offset else maxInnerOffset)"

definition initAllocators :: "env \<Rightarrow> 'k pep \<Rightarrow> 'k pep" where
  "initAllocators env p =
     (let baseReqID = base_value (getenv env ''XFRM_REQID_BASE'' ''1000'') 1000;
          baseInnerHost = base_value (getenv env ''CLIENT_INNER_IP_START'' ''10'') 10;
          cidr = getenv env ''CLIENT_TUNNEL_CIDR'' ''10.200.0.0/16'';
          (maxReqID, maxInnerOffset) =
            max_used cidr (map snd (p_sessions p)) (of_nat (baseReqID - 1), of_nat (baseInnerHost - 1))
      in p\<lparr>p_nextReqID := maxReqID, p_nextClientInnerID := maxInnerOffset\<rparr>)"

subsection \<open>Lemmas\<close>

lemma dec_nat_leading: "length (dec_nat n) > 1 \<Longrightarrow> hd (dec_nat n) \<noteq> CHR ''0''"
proof (induction n rule: dec_nat.induct)
  case (1 n)
  then show ?case
  proof (cases "n < 10")
    case False
    then have eq: "dec_nat n = dec_nat (n div 10) @ [digit_char (n mod 10)]" by (simp add: dec_nat.simps [of n])
    show ?thesis
    proof (cases "n div 10 < 10")
      case True
      with False have "n div 10 \<noteq> 0" by auto
      with True have "digit_char (n div 10) \<noteq> CHR ''0''"
        using digit_char_props(2) [of "n div 10"] by (auto simp: digit_val_def)
      with True eq show ?thesis by (simp add: dec_nat.simps [of "n div 10"])
    next
      case d: False
      then have "length (dec_nat (n div 10)) > 1" by (simp add: dec_nat.simps [of "n div 10"])
      with 1(1) False eq show ?thesis by simp
    qed
  qed (simp add: dec_nat.simps [of n])
qed

lemma parse_octet_dec [simp]: "n \<le> 255 \<Longrightarrow> parse_octet (dec_nat n) = Some n"
  using dec_nat_leading [of n] by (auto simp: parse_octet_def)

lemma parse_octet_utoa [simp]: "parse_octet (utoa (b :: byte)) = Some (unat b)"
  using unat_byte_less [of b] by (simp add: utoa_def)

lemma utoa_no_dot: "CHR ''.'' \<notin> set (utoa w)"
  by (auto simp: utoa_def is_digit_def dest: dec_nat_digits)

lemma ParseAddr_String [simp]: "netip_ParseAddr4 (netip_String4 w) = Some w"
proof -
  obtain a b c d where q: "be32_put w = [a, b, c, d]"
    by (simp add: be32_put_def Let_def)
  have "split_at (CHR ''.'') (netip_String4 w) = map utoa (be32_put w)"
    unfolding netip_String4_def by (rule split_at_Join) (auto simp: q utoa_no_dot)
  then show ?thesis using be32_get_put [of w] by (simp add: netip_ParseAddr4_def q)
qed

lemma host_in_prefix:
  fixes w off :: u32
  assumes "unat off < 2 ^ k" "k \<le> 32"
  shows "drop_bit k ((push_bit k (drop_bit k w) + off) XOR w) = 0"
proof -
  have wl: "unat w < 2 ^ LENGTH(32)" by (rule unsigned_less)
  have m: "unat (push_bit k (drop_bit k w)) = unat w div 2 ^ k * 2 ^ k"
  proof -
    have "unat w div 2 ^ k * 2 ^ k \<le> unat w" by (simp add: div_mult_mod_eq)
    also have "\<dots> < 2 ^ LENGTH(32)" by (rule unsigned_less)
    finally show ?thesis using wl by (simp add: unsigned_push_bit_eq unsigned_drop_bit_eq push_bit_nat_def drop_bit_nat_def take_bit_nat_def)
  qed
  have "unat w div 2 ^ k < 2 ^ (32 - k)"
    using wl assms(2) by (simp add: less_mult_imp_div_less power_add [symmetric])
  then have "unat w div 2 ^ k + 1 \<le> 2 ^ (32 - k)" by simp
  then have "(unat w div 2 ^ k + 1) * 2 ^ k \<le> 2 ^ (32 - k) * 2 ^ k" by (rule mult_le_mono1)
  also have "\<dots> = (2 ^ 32 :: nat)" using assms(2) by (simp add: power_add [symmetric])
  finally have "unat w div 2 ^ k * 2 ^ k + unat off < 2 ^ 32" using assms(1) by (simp add: algebra_simps)
  then have "unat (push_bit k (drop_bit k w) + off) = unat w div 2 ^ k * 2 ^ k + unat off"
    by (simp add: unat_word_ariths m)
  then have "unat (drop_bit k (push_bit k (drop_bit k w) + off)) = unat (drop_bit k w)"
    using assms(1) wl by (simp add: unat_drop_bit_eq drop_bit_nat_def)
  then have "drop_bit k (push_bit k (drop_bit k w) + off) = drop_bit k w" by (rule word_unat_eq_iff [THEN iffD2])
  then show ?thesis by (simp add: drop_bit_xor)
qed

lemma FromOffset_Some:
  "clientInnerIPFromOffset cidr off = Some s \<longleftrightarrow>
     (\<exists>w bits. netip_ParsePrefix4 cidr = Some (w, bits) \<and> bits \<le> 30 \<and> off \<noteq> 0 \<and> unat off \<le> 2 ^ (32 - bits) - 2
        \<and> s = netip_String4 (prefix_masked w bits + off))"
  by (auto simp: clientInnerIPFromOffset_def Let_def split: option.splits if_splits)

lemma Offset_FromOffset:
  assumes "clientInnerIPFromOffset cidr off = Some s"
  shows "clientInnerIPOffset cidr s = Some off"
proof -
  from assms obtain w bits where p: "netip_ParsePrefix4 cidr = Some (w, bits)" "bits \<le> 30"
    "unat off \<le> 2 ^ (32 - bits) - 2" "s = netip_String4 (prefix_masked w bits + off)"
    by (auto simp: FromOffset_Some)
  have "(2 :: nat) ^ (32 - bits) > 0" by simp
  with p(3) have "unat off < 2 ^ (32 - bits)" by linarith
  with p host_in_prefix [of off "32 - bits" w] show ?thesis
    by (simp add: clientInnerIPOffset_def prefix_contains_def prefix_masked_def)
qed

lemma word_less_Suc: "(n :: u32) + 1 \<noteq> 0 \<Longrightarrow> n < n + 1"
  using unatSuc [of n] by (simp add: word_less_nat_alt add.commute)

lemma max_used_bounds:
  "max_used cidr ss (a, b) = (m, n) \<Longrightarrow>
     a \<le> m \<and> b \<le> n \<and> (\<forall>s \<in> set ss. ss_ReqID s \<le> m
        \<and> (\<forall>k. clientInnerIPOffset cidr (ss_ClientInnerIP s) = Some k \<longrightarrow> k \<le> n))"
proof (induction ss arbitrary: a b)
  case (Cons s ss)
  let ?a = "if ss_ReqID s > a then ss_ReqID s else a"
  let ?b = "case clientInnerIPOffset cidr (ss_ClientInnerIP s) of None \<Rightarrow> b | Some k \<Rightarrow> if k > b then k else b"
  have "a \<le> ?a" "ss_ReqID s \<le> ?a" "b \<le> ?b"
    "\<forall>k. clientInnerIPOffset cidr (ss_ClientInnerIP s) = Some k \<longrightarrow> k \<le> ?b"
    by (auto split: option.splits)
  moreover from Cons.prems have "max_used cidr ss (?a, ?b) = (m, n)" by simp
  from Cons.IH [OF this] have "?a \<le> m" "?b \<le> n" "\<forall>s \<in> set ss. ss_ReqID s \<le> m
        \<and> (\<forall>k. clientInnerIPOffset cidr (ss_ClientInnerIP s) = Some k \<longrightarrow> k \<le> n)" by blast+
  ultimately show ?case by (auto intro: order_trans)
qed simp

text \<open>A run of allocations, from the counter of the state.\<close>

fun allocations :: "env \<Rightarrow> nat \<Rightarrow> 'k pep \<Rightarrow> string option list" where
  "allocations env 0 p = []"
| "allocations env (Suc n) p = (let (r, p) = allocateClientInnerIP env p in r # allocations env n p)"

lemma allocations_nth:
  "i < n \<Longrightarrow> allocations env n p ! i =
     clientInnerIPFromOffset (getenv env ''CLIENT_TUNNEL_CIDR'' ''10.200.0.0/16'') (p_nextClientInnerID p + of_nat (Suc i))"
  by (induction n arbitrary: p i)
    (auto simp: allocateClientInnerIP_def Let_def nth_Cons' algebra_simps split: nat.splits)

lemma allocations_length [simp]: "length (allocations env n p) = n"
  by (induction n arbitrary: p) (simp_all add: allocateClientInnerIP_def Let_def)

subsection \<open>Properties\<close>

text \<open>
  Round trip of the address pool: the offset read back from an address that the pool handed out
  is the offset it was made from, for every prefix length that has a pool.
\<close>
theorem inner_ip_roundtrip:
  "clientInnerIPFromOffset cidr off = Some s \<Longrightarrow> clientInnerIPOffset cidr s = Some off"
  by (rule Offset_FromOffset)

text \<open>
  No address is handed out twice within one cycle of the 32-bit counter: of fewer than \<open>2 ^ 32\<close>
  allocations, the ones that succeed are pairwise different.
\<close>
theorem inner_ips_distinct:
  assumes "n < 2 ^ 32" "i < n" "j < n" "i \<noteq> j" "allocations env n p ! i = Some s" "allocations env n p ! j = Some t"
  shows "s \<noteq> t"
proof
  assume "s = t"
  then have "p_nextClientInnerID p + of_nat (Suc i) = p_nextClientInnerID p + of_nat (Suc j)"
    using assms(2,3,5,6) by (auto simp: allocations_nth dest!: Offset_FromOffset)
  then have "of_nat (Suc i) = (of_nat (Suc j) :: u32)" by simp
  then have "unat (of_nat (Suc i) :: u32) = unat (of_nat (Suc j) :: u32)" by simp
  with assms(1-4) show False by (simp add: unat_of_nat del: of_nat_Suc)
qed

text \<open>
  (C23) A restart does not collide with the restored sessions: the first address and the first request
  identifier after \<open>initAllocators\<close> are those of no restored session (the identifier, as long as
  \<open>2 ^ 32 - 1\<close> is not in use).
\<close>
theorem restart_allocates_fresh:
  assumes "(k, s) \<in> set (p_sessions p)"
  shows "fst (allocateClientInnerIP env (initAllocators env p)) \<noteq> Some (ss_ClientInnerIP s)
    \<and> (p_nextReqID (initAllocators env p) \<noteq> - 1 \<longrightarrow> fst (allocateReqID (initAllocators env p)) > ss_ReqID s)"
proof -
  let ?cidr = "getenv env ''CLIENT_TUNNEL_CIDR'' ''10.200.0.0/16''"
  let ?n = "p_nextClientInnerID (initAllocators env p)" and ?m = "p_nextReqID (initAllocators env p)"
  have s: "s \<in> set (map snd (p_sessions p))" using assms by force
  obtain a b where "max_used ?cidr (map snd (p_sessions p)) (a, b) = (?m, ?n)"
    by (rule that, unfold initAllocators_def Let_def) (auto split: prod.splits)
  from max_used_bounds [OF this] s have r: "ss_ReqID s \<le> ?m"
    and k: "\<And>k. clientInnerIPOffset ?cidr (ss_ClientInnerIP s) = Some k \<Longrightarrow> k \<le> ?n" by blast+
  have "clientInnerIPFromOffset ?cidr (?n + 1) \<noteq> Some (ss_ClientInnerIP s)"
  proof
    assume a: "clientInnerIPFromOffset ?cidr (?n + 1) = Some (ss_ClientInnerIP s)"
    from k [OF Offset_FromOffset [OF a]] have "?n + 1 \<le> ?n" .
    moreover from a have "?n + 1 \<noteq> 0" by (auto simp: FromOffset_Some)
    ultimately show False using word_less_Suc [of ?n] by simp
  qed
  moreover have "?m + 1 > ss_ReqID s" if "?m \<noteq> - 1"
  proof -
    from that have "?m < ?m + 1" by (intro word_less_Suc) (simp add: add_eq_0_iff2)
    with r show ?thesis by (rule order.strict_trans1)
  qed
  ultimately show ?thesis by (simp add: allocateClientInnerIP_def allocateReqID_def Let_def)
qed

text \<open>
  The pool does not recycle: once the counter has passed the last host of the prefix, allocation
  fails until the counter wraps around, whether or not any session is left.
\<close>
theorem pool_not_recycled:
  assumes "netip_ParsePrefix4 (getenv env ''CLIENT_TUNNEL_CIDR'' ''10.200.0.0/16'') = Some (w, bits)" "bits \<le> 30"
    and "unat (p_nextClientInnerID p) + n < 2 ^ 32" "2 ^ (32 - bits) - 2 \<le> unat (p_nextClientInnerID p)" "i < n"
  shows "allocations env n p ! i = None"
proof -
  let ?off = "p_nextClientInnerID p + of_nat (Suc i)"
  have "unat ?off = unat (p_nextClientInnerID p) + Suc i"
    using assms(3,5) by (simp add: unat_word_ariths unat_of_nat del: of_nat_Suc)
  with assms(4) have "unat ?off > 2 ^ (32 - bits) - 2" by linarith
  with assms(1) have "clientInnerIPFromOffset (getenv env ''CLIENT_TUNNEL_CIDR'' ''10.200.0.0/16'') ?off = None"
    by (simp add: clientInnerIPFromOffset_def Let_def)
  with allocations_nth [OF assms(5), of env p] show ?thesis by simp
qed

subsection \<open>Examples\<close>

text \<open>A pool of six addresses, four of them handed out.\<close>

definition ex_env :: env where
  "ex_env k = (if k = ''CLIENT_TUNNEL_CIDR'' then Some ''10.0.0.8/29'' else None)"

lemma ex_cidr: "getenv ex_env ''CLIENT_TUNNEL_CIDR'' ''10.200.0.0/16'' = ''10.0.0.8/29''"
  by (simp add: getenv_def os_Getenv_def ex_env_def)

lemma ex_prefix: "netip_ParsePrefix4 ''10.0.0.8/29'' = Some (167772168, 29)"
  by (simp add: netip_ParsePrefix4_def netip_ParseAddr4_def parse_octet_def parse_digits_def strconv_Atoi_def
      is_digit_def digit_val_def be32_get_def Let_def)

lemma ex_address: "clientInnerIPFromOffset ''10.0.0.8/29'' 5 = Some ''10.0.0.13''"
  "clientInnerIPFromOffset ''10.0.0.8/29'' 6 = Some ''10.0.0.14''"
  by (simp_all add: clientInnerIPFromOffset_def ex_prefix prefix_masked_def netip_String4_def be32_put_def Let_def utoa_def
      dec_nat.simps digit_char_def char_of_def bit_numeral_rec bit_0)

theorem inner_ip_roundtrip_witness: "clientInnerIPOffset ''10.0.0.8/29'' ''10.0.0.13'' = Some 5"
  by (rule inner_ip_roundtrip) (rule ex_address)

theorem inner_ips_distinct_witness:
  "allocations ex_env 2 (ex_pep\<lparr>p_nextClientInnerID := 4\<rparr>) = [Some ''10.0.0.13'', Some ''10.0.0.14'']
   \<and> ''10.0.0.13'' \<noteq> ''10.0.0.14''"
proof -
  have a: "allocations ex_env 2 (ex_pep\<lparr>p_nextClientInnerID := 4\<rparr>) = [Some ''10.0.0.13'', Some ''10.0.0.14'']"
    by (simp add: numeral_2_eq_2 allocateClientInnerIP_def ex_cidr ex_address)
  from inner_ips_distinct [of 2 0 1 ex_env "ex_pep\<lparr>p_nextClientInnerID := 4\<rparr>", unfolded a] have "''10.0.0.13'' \<noteq> ''10.0.0.14''"
    by simp
  with a show ?thesis by blast
qed

theorem restart_allocates_fresh_witness:
  "(''0x2'', ex_session) \<in> set (p_sessions ex_pep)
    \<and> fst (allocateClientInnerIP ex_env (initAllocators ex_env ex_pep)) \<noteq> Some ''b''"
proof -
  have m: "(''0x2'', ex_session) \<in> set (p_sessions ex_pep)" by (simp add: ex_pep_def)
  from restart_allocates_fresh [OF m, of ex_env] m show ?thesis by (simp add: ex_session_def)
qed

theorem pool_not_recycled_witness: "allocations ex_env 1 (ex_pep\<lparr>p_nextClientInnerID := 6\<rparr>) ! 0 = None"
  by (rule pool_not_recycled [where w = 167772168 and bits = 29]) (simp_all add: ex_cidr ex_prefix)

end
