(* ===== verification/Pep_Cleanup.thy ===== *)
theory Pep_Cleanup
  imports Pep_Alloc Verifier_Policy
begin

text \<open>
  The removal of expired sessions (\<^verbatim>\<open>pep/main.go\<close>) and the check of restored sessions
  (\<^verbatim>\<open>pep/state.go\<close>). The invariant is fail-closed persistence: a healthy PEP has no operation pending
  and its state file, if any, holds its sessions; an operation that fails half-way leaves either that
  or a state file from which a restart is refused.
\<close>

subsection \<open>What counts as a successful observation\<close>

definition observationSuccessful :: "string smap option \<Rightarrow> string \<Rightarrow> bool" where
  "observationSuccessful metadata outcome =
     (case metadata of None \<Rightarrow> False
      | Some md \<Rightarrow> mget md outcome = ''true'' \<or> mget md outcome = ''assumed'' \<and> mget md ''xfrm_mode'' \<noteq> ''apply'')"

definition observationMeetsLocalProfile :: "env \<Rightarrow> pepAttestationState option \<Rightarrow> string smap option \<Rightarrow> string \<Rightarrow> bool" where
  "observationMeetsLocalProfile env attestation metadata outcome =
     (if \<not> observationSuccessful metadata outcome then False
      else let md = slice metadata;
               required = strings_ToLower (getenv env ''PEP_REQUIRED_OBSERVER_PROFILE'' ''posthoc'') in
      if mget md ''xfrm_mode'' \<noteq> ''apply'' then
        (let baseline = (case attestation of None \<Rightarrow> True | Some a \<Rightarrow> \<not> at_enabled a)
         in mget md outcome = ''assumed'' \<and> (required = ''dry-run'' \<or> baseline))
      else let source = strings_ToLower (mget md ''observer_source'') in
        if required = ''posthoc'' then source = ''posthoc'' \<or> source = ''posthoc+ebpf''
        else if required = ''hybrid'' then source = ''posthoc+ebpf'' \<and> mget md ''ebpf_matched'' = ''true''
        else if required = ''ebpf'' then source = ''ebpf'' \<and> mget md ''ebpf_matched'' = ''true''
        else False)"

subsection \<open>Expired sessions\<close>

datatype cleanup_error = PersistError os_error | XFRMDeleteFailed string | DeleteObservationFailed string

definition session_expired :: "time \<Rightarrow> Session \<Rightarrow> bool" where
  "session_expired now session =
     (case Parse_RFC3339 (ss_ExpiresAt session) of None \<Rightarrow> False | Some expiresAt \<Rightarrow> \<not> now < expiresAt)"

text \<open>The observation reads the kernel, the observer's events and the durations once.\<close>

definition pep_observe_deleted :: "'k world \<Rightarrow> Session \<Rightarrow> 'k pep \<Rightarrow> string smap \<times> 'k pep" where
  "pep_observe_deleted W session p =
     (case w_durations W (p_tick p) of (posthoc, correlation, tot) \<Rightarrow>
        (observeXFRMDeletedWithObserver (w_prims W) (w_env W) (k_ip (w_kernel W) (p_kernel p)) posthoc correlation tot
           (p_observer p) session (w_events W (p_tick p)), tick p))"

text \<open>The body of the loop over the expired sessions: up to the deletion, and from it.\<close>

definition expire_begin :: "'k world \<Rightarrow> Session \<Rightarrow> 'k pep \<Rightarrow> (os_error + unit) \<times> 'k pep" where
  "expire_begin W session p =
     (case setPendingPEPOperation W ''xfrm_delete'' session p of
        (Inl err, p) \<Rightarrow> (Inl err, p)
      | (Inr _, p) \<Rightarrow>
        let p = pep_append W eventSessionExpired (Some session) (Some [(''expires_at'', ss_ExpiresAt session)]) p;
            p = pep_append W eventXFRMDeleteIntent (Some session)
                  (Some [(''xfrm_mode'', getenv (w_env W) ''XFRM_MODE'' ''dry-run''),
                         (''xfrm_plan_hash'', xfrmPlanHash (w_prims W) (ss_XFRM session))]) p
        in (Inr (), p))"

definition expire_delete :: "'k world \<Rightarrow> Session \<Rightarrow> 'k pep \<Rightarrow> (cleanup_error + unit) \<times> 'k pep" where
  "expire_delete W session p =
     (let (derr, k) = maybeDeleteXFRM (w_env W) (w_kernel W) (ss_XFRM session) (p_kernel p); p = p\<lparr>p_kernel := k\<rparr> in
      case derr of Some err \<Rightarrow> (Inl (XFRMDeleteFailed err), p)
      | None \<Rightarrow>
        let (deleteMeta, p) = pep_observe_deleted W session p;
            p = pep_append W eventXFRMDeleteObserved (Some session) (Some deleteMeta) p in
        if \<not> observationMeetsLocalProfile (w_env W) (p_attestation p) (Some deleteMeta) ''deleted''
        then (Inl (DeleteObservationFailed (ss_PEPInSPI session)), p)
        else let p = p\<lparr>p_sessions := AList.delete (ss_PEPInSPI session) (p_sessions p)\<rparr> in
          (case clearPendingPEPOperation W p of
             (Inl err, p) \<Rightarrow> (Inl (PersistError err), p)
           | (Inr _, p) \<Rightarrow> (Inr (), p)))"

fun expire_all :: "'k world \<Rightarrow> Session list \<Rightarrow> 'k pep \<Rightarrow> (cleanup_error + unit) \<times> 'k pep" where
  "expire_all W [] p = (Inr (), p)"
| "expire_all W (session # expired) p =
     (case expire_begin W session p of
        (Inl err, p) \<Rightarrow> (Inl (PersistError err), p)
      | (Inr _, p) \<Rightarrow>
        (case expire_delete W session p of
           (Inl err, p) \<Rightarrow> (Inl err, p)
         | (Inr _, p) \<Rightarrow> expire_all W expired p))"

definition cleanupExpiredSessionsUnderHistoryLock :: "'k world \<Rightarrow> time \<Rightarrow> 'k pep \<Rightarrow> (cleanup_error + unit) \<times> 'k pep" where
  "cleanupExpiredSessionsUnderHistoryLock W now p =
     expire_all W (filter (session_expired now) (map snd (p_sessions p))) p"

definition cleanupExpiredSessions :: "'k world \<Rightarrow> time \<Rightarrow> 'k pep \<Rightarrow> 'k pep" where
  "cleanupExpiredSessions W now p =
     (case cleanupExpiredSessionsUnderHistoryLock W now p of
        (Inl err, p) \<Rightarrow> p\<lparr>p_healthy := False\<rparr>
      | (Inr _, p) \<Rightarrow> p)"

subsection \<open>Restored sessions\<close>

datatype restore_error = CleanupFailed cleanup_error | NoMatchingXFRM string

fun check_restored :: "'k world \<Rightarrow> 'k pep \<Rightarrow> Session list \<Rightarrow> restore_error + unit" where
  "check_restored W p [] = Inr ()"
| "check_restored W p (session # restored) =
     (let metadata = observeXFRMAppliedPosthoc (w_prims W) (w_env W) (k_ip (w_kernel W) (p_kernel p)) session in
      if \<not> observationMeetsLocalProfile (w_env W) (p_attestation p) (Some metadata) ''applied''
      then Inl (NoMatchingXFRM (ss_PEPInSPI session))
      else check_restored W p restored)"

definition validateRestoredSessions :: "'k world \<Rightarrow> 'k pep \<Rightarrow> (restore_error + unit) \<times> 'k pep" where
  "validateRestoredSessions W p =
     (if (case p_attestation p of None \<Rightarrow> True | Some a \<Rightarrow> \<not> at_enabled a) then (Inr (), p)
      else case cleanupExpiredSessionsUnderHistoryLock W (w_clock W (p_tick p)) (tick p) of
        (Inl err, p) \<Rightarrow> (Inl (CleanupFailed err), p)
      | (Inr _, p) \<Rightarrow>
        if getenv (w_env W) ''XFRM_MODE'' ''dry-run'' \<noteq> ''apply'' then (Inr (), p)
        else (check_restored W p (map snd (p_sessions p)), p))"

subsection \<open>Frame conditions\<close>

lemma historyAppend_None [simp]: "historyAppend P now ty s md h = None \<longleftrightarrow> h = None"
  by (auto simp: historyAppend_def split: option.splits sum.splits)

lemma pep_append_frame [simp]:
  "p_sessions (pep_append W ty s md p) = p_sessions p" "p_pending (pep_append W ty s md p) = p_pending p"
  "p_pendingCapacity (pep_append W ty s md p) = p_pendingCapacity p"
  "p_statePath (pep_append W ty s md p) = p_statePath p" "p_disk (pep_append W ty s md p) = p_disk p"
  "p_kernel (pep_append W ty s md p) = p_kernel p" "p_healthy (pep_append W ty s md p) = p_healthy p"
  "p_attestation (pep_append W ty s md p) = p_attestation p" "p_observer (pep_append W ty s md p) = p_observer p"
  "p_nextReqID (pep_append W ty s md p) = p_nextReqID p" "p_nextClientInnerID (pep_append W ty s md p) = p_nextClientInnerID p"
  "durable (pep_append W ty s md p) = durable p"
  by (simp_all add: pep_append_def durable_def)

lemma durable_fields [simp]:
  "durable (p\<lparr>p_tick := t\<rparr>) = durable p" "durable (p\<lparr>p_kernel := k\<rparr>) = durable p"
  "durable (p\<lparr>p_sessions := ss\<rparr>) = durable p" "durable (p\<lparr>p_healthy := b\<rparr>) = durable p"
  by (simp_all add: durable_def)

text \<open>
  \<open>quiescent\<close>: nothing is pending and the state file, if there is one, is intact and holds the sessions
  of the process. \<open>blocked\<close>: a restart from the state file is refused.
\<close>

definition holds_sessions :: "persistentPEPState content option \<Rightarrow> Session smap \<Rightarrow> bool" where
  "holds_sessions c ss =
     (case c of None \<Rightarrow> ss = [] | Some Torn \<Rightarrow> False
      | Some (Doc d) \<Rightarrow> ps_Version d = 1 \<and> ps_Pending d = None \<and> slice (ps_Sessions d) = ss)"

definition quiescent :: "'k pep \<Rightarrow> bool" where
  "quiescent p \<longleftrightarrow> p_pending p = None \<and> holds_sessions (stored p) (p_sessions p)"

definition blocked :: "'k pep \<Rightarrow> bool" where
  "blocked p \<longleftrightarrow> (\<exists>d opn. stored p = Some (Doc d) \<and> ps_Version d = 1 \<and> ps_Pending d = Some opn)"

lemma blocked_refuses:
  assumes "blocked p" "durable p"
  shows "\<exists>opn. fst (loadPEPState P (p_statePath p) h0 (q\<lparr>p_disk := p_disk p\<rparr>)) = Inl (IncompletePending opn)"
  using assms load_incomplete [of "p_statePath p" "q\<lparr>p_disk := p_disk p\<rparr>"] by (fastforce simp: blocked_def durable_def)

lemma blocked_frame [simp]:
  "blocked (p\<lparr>p_tick := t\<rparr>) = blocked p" "blocked (p\<lparr>p_kernel := k\<rparr>) = blocked p" "blocked (p\<lparr>p_sessions := ss\<rparr>) = blocked p"
  "blocked (pep_append W ty s md p) = blocked p" "blocked (p\<lparr>p_healthy := b\<rparr>) = blocked p"
  "quiescent (p\<lparr>p_tick := t\<rparr>) = quiescent p" "quiescent (p\<lparr>p_kernel := k\<rparr>) = quiescent p"
  "quiescent (pep_append W ty s md p) = quiescent p" "quiescent (p\<lparr>p_healthy := b\<rparr>) = quiescent p"
  by (simp_all add: blocked_def quiescent_def)

lemma setPending_blocked: "setPendingPEPOperation W opn s p = (Inr u, p') \<Longrightarrow> durable p \<Longrightarrow> blocked p' \<and> durable p'"
  using setPending_ok [of W opn s p u p'] by (auto simp: blocked_def durable_core)

lemma setPending_refused:
  "setPendingPEPOperation W opn s p = (Inl e, p') \<Longrightarrow> quiescent p \<Longrightarrow> durable p \<Longrightarrow> quiescent p' \<and> durable p'"
  using setPending_error [of W opn s p e p'] durable_core [of p p'] by (auto simp: quiescent_def same_core_def)

lemma clearPending_quiescent: "clearPendingPEPOperation W p = (Inr u, p') \<Longrightarrow> durable p \<Longrightarrow> quiescent p' \<and> durable p'"
  using clearPending_ok [of W p u p'] by (auto simp: quiescent_def holds_sessions_def durable_core)

lemma clearPending_refused:
  "clearPendingPEPOperation W p = (Inl e, p') \<Longrightarrow> blocked p \<Longrightarrow> durable p \<Longrightarrow> blocked p' \<and> durable p'"
  using clearPending_error [of W p e p'] durable_core [of p p'] by (auto simp: blocked_def same_core_def)

subsection \<open>Cleanup is fail-closed\<close>

lemma expire_begin_ok:
  assumes "expire_begin W s p = (Inr u, p')" "durable p"
  shows "blocked p'" "durable p'" "p_sessions p' = p_sessions p" "p_attestation p' = p_attestation p" "p_kernel p' = p_kernel p"
    "p_healthy p' = p_healthy p"
proof -
  from assms(1) obtain q where q: "setPendingPEPOperation W ''xfrm_delete'' s p = (Inr (), q)"
    and p': "p' = pep_append W eventXFRMDeleteIntent (Some s)
      (Some [(''xfrm_mode'', getenv (w_env W) ''XFRM_MODE'' ''dry-run''), (''xfrm_plan_hash'', xfrmPlanHash (w_prims W) (ss_XFRM s))])
      (pep_append W eventSessionExpired (Some s) (Some [(''expires_at'', ss_ExpiresAt s)]) q)"
    by (auto simp: expire_begin_def Let_def split: prod.splits sum.splits)
  from setPending_blocked [OF q assms(2)] setPending_ok(1) [OF q]
  show "blocked p'" "durable p'" "p_sessions p' = p_sessions p" "p_attestation p' = p_attestation p" "p_kernel p' = p_kernel p"
    "p_healthy p' = p_healthy p"
    by (auto simp: p' same_core_def)
qed

lemma expire_begin_error:
  "expire_begin W s p = (Inl e, p') \<Longrightarrow> quiescent p \<Longrightarrow> durable p \<Longrightarrow> quiescent p' \<and> durable p' \<and> same_core p p'"
  using setPending_refused setPending_error(1) by (fastforce simp: expire_begin_def Let_def split: prod.splits sum.splits)

lemma expire_delete_ok:
  assumes "expire_delete W s p = (Inr u, p')" "durable p"
  shows "quiescent p'" "durable p'" "p_sessions p' = AList.delete (ss_PEPInSPI s) (p_sessions p)"
    "p_attestation p' = p_attestation p" "p_healthy p' = p_healthy p"
proof -
  from assms(1) obtain q where q: "clearPendingPEPOperation W q = (Inr (), p')"
    and f: "p_sessions q = AList.delete (ss_PEPInSPI s) (p_sessions p)" "durable q = durable p"
      "p_attestation q = p_attestation p" "p_healthy q = p_healthy p"
    by (auto simp: expire_delete_def pep_observe_deleted_def Let_def split: prod.splits sum.splits option.splits if_splits)
  from clearPending_quiescent [OF q] clearPending_ok(1) [OF q] assms(2) f
  show "quiescent p'" "durable p'" "p_sessions p' = AList.delete (ss_PEPInSPI s) (p_sessions p)"
    "p_attestation p' = p_attestation p" "p_healthy p' = p_healthy p"
    by (auto simp: same_core_def)
qed

lemma expire_delete_error:
  assumes "expire_delete W s p = (Inl e, p')" "durable p" "blocked p"
  shows "blocked p' \<and> durable p'"
proof -
  from assms(1) consider k where "p' = p\<lparr>p_kernel := k\<rparr>"
    | k md where "p' = pep_append W eventXFRMDeleteObserved (Some s) (Some md) (tick (p\<lparr>p_kernel := k\<rparr>))"
    | q err where "clearPendingPEPOperation W q = (Inl err, p')" "blocked q = blocked p" "durable q = durable p"
    by (auto simp: expire_delete_def pep_observe_deleted_def Let_def split: prod.splits sum.splits option.splits if_splits)
  then show ?thesis using assms(2,3) clearPending_refused by cases auto
qed

lemma expire_all_fail_closed:
  "expire_all W ss p = (r, p') \<Longrightarrow> durable p \<Longrightarrow> quiescent p \<Longrightarrow>
     durable p' \<and> (quiescent p' \<or> r \<noteq> Inr () \<and> blocked p')"
proof (induction ss arbitrary: p)
  case (Cons s ss)
  obtain r1 p1 where b: "expire_begin W s p = (r1, p1)" by (cases "expire_begin W s p")
  show ?case
  proof (cases r1)
    case (Inl e)
    with Cons.prems b expire_begin_error [of W s p e p1] show ?thesis by auto
  next
    case (Inr u)
    note ok = expire_begin_ok [OF b [unfolded Inr] Cons.prems(2)]
    obtain r2 p2 where d: "expire_delete W s p1 = (r2, p2)" by (cases "expire_delete W s p1")
    show ?thesis
    proof (cases r2)
      case (Inl e)
      with Cons.prems b d \<open>r1 = Inr u\<close> expire_delete_error [of W s p1 e p2] ok show ?thesis by auto
    next
      case (Inr v)
      with Cons.prems b d \<open>r1 = Inr u\<close> have "expire_all W ss p2 = (r, p')" by simp
      from Cons.IH [OF this] expire_delete_ok [OF d [unfolded Inr] ok(2)] show ?thesis by blast
    qed
  qed
qed auto

lemma expire_all_sessions:
  "expire_all W ss p = (Inr u, p') \<Longrightarrow> durable p \<Longrightarrow>
     p_sessions p' = fold (\<lambda>s. AList.delete (ss_PEPInSPI s)) ss (p_sessions p) \<and> durable p'
     \<and> p_attestation p' = p_attestation p \<and> p_healthy p' = p_healthy p"
proof (induction ss arbitrary: p)
  case (Cons s ss)
  from Cons.prems(1) obtain p1 p2 where b: "expire_begin W s p = (Inr (), p1)" and d: "expire_delete W s p1 = (Inr (), p2)"
    and a: "expire_all W ss p2 = (Inr u, p')" by (auto split: prod.splits sum.splits)
  from expire_begin_ok [OF b Cons.prems(2)] expire_delete_ok [OF d] Cons.IH [OF a] show ?case by simp
qed auto

subsection \<open>Lemmas\<close>

text \<open>A byte that occurs in no encoding of a space is kept by trimming.\<close>

definition solid :: "char \<Rightarrow> bool" where
  "solid c \<longleftrightarrow> list_all (\<lambda>r. c \<notin> set r) space_runes"

lemma TrimSpace_solid:
  assumes "list_all solid s"
  shows "strings_TrimSpace s = s"
proof -
  have no: "\<not> starts_with r t" if "r \<in> set space_runes \<or> rev r \<in> set space_runes" "r \<noteq> []" "set t \<subseteq> set s" for r t
  proof
    assume "starts_with r t"
    then have "hd r \<in> set t" using that(2) by (auto simp: starts_with_iff)
    with that assms have "solid (hd r)" by (auto simp: list_all_iff)
    with that(1,2) show False by (metis hd_in_set list_all_iff set_rev solid_def)
  qed
  have "strip_left space_runes s = s" by (rule strip_left_id) (simp add: no)
  moreover have "strip_left (map rev space_runes) (rev s) = rev s"
    by (rule strip_left_id) (auto simp: no)
  ultimately show ?thesis by (simp add: strings_TrimSpace_def)
qed

lemma solid_lower: "solid (to_lower_char c) \<Longrightarrow> solid c"
proof (cases "65 \<le> (of_char c :: nat) \<and> (of_char c :: nat) \<le> 90")
  case True
  then show ?thesis by (auto simp: solid_def space_runes_def)
qed (auto simp: to_lower_char_def Let_def)

lemma TrimSpace_lower: "strings_ToLower s = w \<Longrightarrow> list_all solid w \<Longrightarrow> strings_ToLower (strings_TrimSpace s) = w"
proof -
  assume w: "strings_ToLower s = w" "list_all solid w"
  then have "list_all solid s" by (auto simp: strings_ToLower_def list_all_iff intro: solid_lower)
  with w show ?thesis by (simp add: TrimSpace_solid)
qed

lemma solid_words:
  "list_all solid ''posthoc''" "list_all solid ''posthoc+ebpf''" "list_all solid ''ebpf''" "list_all solid ''apply''"
  "list_all solid ''true''" "list_all solid ''assumed''"
  by (simp_all add: solid_def space_runes_def)

lemma lower_words [simp]:
  "strings_ToLower ''apply'' = ''apply''" "strings_ToLower ''true'' = ''true''" "strings_ToLower ''assumed'' = ''assumed''"
  "strings_ToLower ''posthoc'' = ''posthoc''" "strings_ToLower ''dry-run'' = ''dry-run''"
  by (simp_all add: strings_ToLower_def to_lower_char_def)

lemma delete_fold:
  "fold (\<lambda>s. AList.delete (ss_PEPInSPI s)) ss m = filter (\<lambda>(k, _). k \<notin> ss_PEPInSPI ` set ss) m"
proof (induction ss arbitrary: m)
  case (Cons s ss)
  have "filter (\<lambda>(k, _). k \<notin> ss_PEPInSPI ` set ss) (AList.delete (ss_PEPInSPI s) m)
      = filter (\<lambda>(k, _). k \<notin> ss_PEPInSPI ` set (s # ss)) m"
    by (simp add: AList.delete_eq case_prod_beta) (rule filter_cong, auto)
  with Cons show ?case by simp
qed simp

text \<open>Every session is stored under its PEP-side SPI.\<close>

definition keyed :: "'k pep \<Rightarrow> bool" where
  "keyed p \<longleftrightarrow> distinct (keys (p_sessions p)) \<and> list_all (\<lambda>(k, s). k = ss_PEPInSPI s) (p_sessions p)"

lemma keyed_unique:
  assumes "keyed p" "(k, s) \<in> set (p_sessions p)" "s' \<in> set (map snd (p_sessions p))" "ss_PEPInSPI s' = k"
  shows "s' = s"
  using assms by (auto simp: keyed_def list_all_iff dest: eq_key_imp_eq_value)

lemma cleanup_sessions:
  assumes "cleanupExpiredSessionsUnderHistoryLock W now p = (Inr (), p')" "durable p" "keyed p"
  shows "p_sessions p' = filter (\<lambda>(k, s). \<not> session_expired now s) (p_sessions p)"
proof -
  let ?ss = "filter (session_expired now) (map snd (p_sessions p))"
  from expire_all_sessions [OF assms(1) [unfolded cleanupExpiredSessionsUnderHistoryLock_def] assms(2)]
  have "p_sessions p' = filter (\<lambda>(k, _). k \<notin> ss_PEPInSPI ` set ?ss) (p_sessions p)" by (simp add: delete_fold)
  also have "\<dots> = filter (\<lambda>(k, s). \<not> session_expired now s) (p_sessions p)"
  proof (rule filter_cong [OF refl], clarify)
    fix k s assume ks: "(k, s) \<in> set (p_sessions p)"
    with assms(3) have "k = ss_PEPInSPI s" by (auto simp: keyed_def list_all_iff)
    with keyed_unique [OF assms(3) ks] ks show "(k \<notin> ss_PEPInSPI ` set ?ss) = (\<not> session_expired now s)" by force
  qed
  finally show ?thesis .
qed

lemma expire_delete_saved:
  assumes "expire_delete W s p = (Inr u, p')" "durable p"
  shows "\<exists>d. stored p' = Some (Doc d) \<and> ps_Pending d = None"
proof -
  from assms(1) obtain q where q: "clearPendingPEPOperation W q = (Inr (), p')" and "durable q = durable p"
    by (auto simp: expire_delete_def pep_observe_deleted_def Let_def split: prod.splits sum.splits option.splits if_splits)
  with clearPending_ok(2,4) [OF q] assms(2) show ?thesis by auto
qed

lemma expire_all_saved:
  "expire_all W ss p = (Inr u, p') \<Longrightarrow> durable p \<Longrightarrow> ss \<noteq> [] \<Longrightarrow>
     p_pending p' = None \<and> (\<exists>d. stored p' = Some (Doc d) \<and> ps_Pending d = None)"
proof (induction ss arbitrary: p)
  case (Cons s ss)
  from Cons.prems(1) obtain p1 p2 where b: "expire_begin W s p = (Inr (), p1)" and d: "expire_delete W s p1 = (Inr (), p2)"
    and a: "expire_all W ss p2 = (Inr u, p')" by (auto split: prod.splits sum.splits)
  note p1 = expire_begin_ok(2) [OF b Cons.prems(2)]
  note p2 = expire_delete_ok(1,2) [OF d p1] expire_delete_saved [OF d p1]
  from a p2 Cons.IH [OF a p2(2)] show ?case by (cases "ss = []") (auto simp: quiescent_def)
qed simp

text \<open>In a dry run without attestation, with a disk that works, cleanup succeeds.\<close>

lemma replace_file_fine: "\<exists>k'. replace_file os_fine path d k = (Inr (), k')"
  by (simp add: replace_file_def os_fine_def Let_def)

lemma persist_fine:
  assumes "\<And>n. w_os W n = os_fine"
  shows "\<exists>p'. persistPEPState W p = (Inr (), p')"
proof (cases "p_history p")
  case (Some h)
  with replace_file_fine [of "p_statePath p" "pep_snapshot h p" "p_disk p"] assms show ?thesis
    by (auto simp: persistPEPState_def)
qed (simp add: persistPEPState_def)

lemma put_fine:
  assumes "\<And>n. w_os W n = os_fine"
  shows "\<exists>p'. setPendingPEPOperation W opn s p = (Inr (), p')" "\<exists>p'. clearPendingPEPOperation W p = (Inr (), p')"
    "\<exists>p'. setPendingCapacityEvidence W ev p = (Inr (), p')"
  using persist_fine [OF assms, of "p\<lparr>p_pending := Some \<lparr>po_Operation = opn, po_Session = s\<rparr>\<rparr>"]
    persist_fine [OF assms, of "p\<lparr>p_pending := None\<rparr>"] persist_fine [OF assms, of "p\<lparr>p_pendingCapacity := ev\<rparr>"]
  by (auto simp: setPendingPEPOperation_def clearPendingPEPOperation_def setPendingCapacityEvidence_def)

lemma mget_with_durations:
  assumes "k \<notin> {''observer_mode'', ''observer_source'', ''ebpf_matched'', ''ebpf_event_count'', ''ebpf_total_event_count'',
      ''ebpf_min_event_count'', ''ebpf_probes'', ''applied'', ''deleted'', ''posthoc_duration_us'',
      ''ebpf_correlation_duration_us'', ''observer_total_duration_us''}"
  shows "mget (with_durations a b c ob md evs act) k = mget md k"
  using assms by (simp add: with_durations_def Let_def mget_update annotate_meta split: option.split)

lemma mget_outcome_dry:
  assumes "mget md ''xfrm_mode'' \<noteq> ''apply''" "k \<in> {''applied'', ''deleted''}"
  shows "mget (with_durations a b c ob md evs act) k = mget md k"
  using assms by (auto simp: with_durations_def Let_def mget_update annotate_def split: option.split)

lemma dry_deleted_accepted:
  assumes "getenv env ''XFRM_MODE'' ''dry-run'' \<noteq> ''apply''" "at = None"
  shows "observationMeetsLocalProfile env' at (Some (observeXFRMDeletedWithObserver P env ip a b c ob s evs)) ''deleted''"
  using assms by (simp add: observationMeetsLocalProfile_def observationSuccessful_def observeXFRMDeletedWithObserver_def
      mget_with_durations mget_outcome_dry observeDeleted_meta observeDeleted_dry)

lemma dry_cleanup:
  assumes os: "\<And>n. w_os W n = os_fine" and dry: "getenv (w_env W) ''XFRM_MODE'' ''dry-run'' \<noteq> ''apply''"
  shows "p_attestation p = None \<Longrightarrow> durable p \<Longrightarrow> \<exists>p'. expire_all W ss p = (Inr (), p')"
proof (induction ss arbitrary: p)
  case (Cons s ss)
  obtain p1 where b: "expire_begin W s p = (Inr (), p1)"
    using put_fine(1) [OF os, of "''xfrm_delete''" s p] by (auto simp: expire_begin_def)
  note p1 = expire_begin_ok [OF b Cons.prems(2)]
  have "\<exists>q. expire_delete W s p1 =
      (case clearPendingPEPOperation W q of (Inl err, p) \<Rightarrow> (Inl (PersistError err), p) | (Inr _, p) \<Rightarrow> (Inr (), p))"
    using p1(4) dry Cons.prems(1)
    by (cases "w_durations W (p_tick p1)")
      (simp add: expire_delete_def maybeDeleteXFRM_def pep_observe_deleted_def dry_deleted_accepted Let_def, blast)
  then obtain q where q: "expire_delete W s p1 =
      (case clearPendingPEPOperation W q of (Inl err, p) \<Rightarrow> (Inl (PersistError err), p) | (Inr _, p) \<Rightarrow> (Inr (), p))" ..
  from put_fine(2) [OF os, of q] q obtain p2 where d: "expire_delete W s p1 = (Inr (), p2)" by auto
  note p2 = expire_delete_ok [OF d p1(2)]
  from Cons.IH [of p2] p2 p1 Cons.prems b d show ?case by auto
qed simp

lemma applied_posthoc_source: "mget (observeXFRMAppliedPosthoc P env ip s) ''observer_source'' = ''''"
proof -
  have "''observer_source'' \<noteq> n @ ''_present''" "''observer_source'' \<noteq> n @ ''_exact''" "''observer_source'' \<noteq> n @ ''_error''" for n
    by (auto dest!: arg_cong [where f = last])
  then have "mget (snd (applied_loop cs b out)) ''observer_source'' = mget out ''observer_source''" for cs b out
    by (induction cs b out rule: applied_loop.induct) (auto simp: Let_def mget_update)
  then show ?thesis by (simp add: observeXFRMAppliedPosthoc_def Let_def mget_update case_prod_beta) (simp add: mget_def)
qed

lemma local_profile_verifier:
  assumes "observationMeetsLocalProfile env (Some a) (Some md) outcome" "at_enabled a" "ev_Metadata e \<noteq> None"
    and m: "\<And>k. k \<in> {outcome, ''xfrm_mode'', ''observer_source'', ''ebpf_matched'', ''xfrm_plan_hash''} \<Longrightarrow> meta e k = mget md k"
    and "mget md ''xfrm_plan_hash'' = h" "strings_TrimSpace h \<noteq> ''''" "h \<noteq> ''hash_error''"
    and "strings_ToLower (strings_TrimSpace (mget md ''xfrm_mode'')) = ''apply'' \<longrightarrow> mget md ''xfrm_mode'' = ''apply''"
  shows "verifyObservedEvent e outcome (strings_ToLower (getenv env ''PEP_REQUIRED_OBSERVER_PROFILE'' ''posthoc'')) h = Inr ()"
proof -
  let ?r = "strings_ToLower (getenv env ''PEP_REQUIRED_OBSERVER_PROFILE'' ''posthoc'')"
  have h: "requireXFRMPlanHash e = Inr h" using assms(3,5-7) m by (simp add: requireXFRMPlanHash_def)
  note trims = TrimSpace_lower [OF _ solid_words(1)] TrimSpace_lower [OF _ solid_words(2)] TrimSpace_lower [OF _ solid_words(3)]
  have val: "strings_ToLower (strings_TrimSpace (mget md outcome)) = mget md outcome"
    if "mget md outcome = ''true'' \<or> mget md outcome = ''assumed''"
    using that TrimSpace_solid [OF solid_words(5)] TrimSpace_solid [OF solid_words(6)] by auto
  show ?thesis
  proof (cases "mget md ''xfrm_mode'' = ''apply''")
    case False
    with assms(1,2) have "?r = ''dry-run''" "mget md outcome = ''assumed''"
      by (auto simp: observationMeetsLocalProfile_def Let_def split: if_splits)
    with False assms(8) val h show ?thesis by (simp add: verifyObservedEvent_def m)
  next
    case True
    with assms(1) have t: "mget md outcome = ''true''"
      by (auto simp: observationMeetsLocalProfile_def observationSuccessful_def split: if_splits)
    have md: "strings_ToLower (strings_TrimSpace (mget md ''xfrm_mode'')) = ''apply''"
      using True TrimSpace_solid [OF solid_words(4)] by simp
    from assms(1) True consider "?r = ''posthoc''" "strings_ToLower (mget md ''observer_source'') \<in> {''posthoc'', ''posthoc+ebpf''}"
      | "?r = ''hybrid''" "strings_ToLower (mget md ''observer_source'') = ''posthoc+ebpf''" "mget md ''ebpf_matched'' = ''true''"
      | "?r = ''ebpf''" "strings_ToLower (mget md ''observer_source'') = ''ebpf''" "mget md ''ebpf_matched'' = ''true''"
      by (auto simp: observationMeetsLocalProfile_def Let_def split: if_splits)
    then show ?thesis
      by cases (use h t md val trims in \<open>auto simp: verifyObservedEvent_def m Let_def\<close>)
  qed
qed

subsection \<open>Properties\<close>

text \<open>
  (C25) The PEP's own check is at least as strict as the verifier's: an observation that the PEP accepts
  locally, recorded with the plan hash of its intent, passes the verifier's check of the observed
  event under the profile that the PEP is configured with. The mode must not be a different spelling
  of \<^verbatim>\<open>apply\<close>, which the PEP takes for a dry run and the verifier for apply mode.
\<close>
theorem local_profile_implies_verifier:
  assumes "observationMeetsLocalProfile env (Some a) (Some md) outcome" "at_enabled a"
    and "ev_Metadata e = Some md" "meta e ''xfrm_plan_hash'' = h" "strings_TrimSpace h \<noteq> ''''" "h \<noteq> ''hash_error''"
    and "strings_ToLower (strings_TrimSpace (mget md ''xfrm_mode'')) = ''apply'' \<longrightarrow> mget md ''xfrm_mode'' = ''apply''"
  shows "verifyObservedEvent e outcome (strings_ToLower (getenv env ''PEP_REQUIRED_OBSERVER_PROFILE'' ''posthoc'')) h = Inr ()"
proof (rule local_profile_verifier [OF assms(1,2)])
  show "meta e k = mget md k" for k using assms(3) by (simp add: meta_def)
  with assms(4) show "mget md ''xfrm_plan_hash'' = h" by simp
qed (use assms in simp_all)

text \<open>
  What a completed cleanup removes: exactly the sessions whose expiry has been reached; a session
  with an unreadable expiry is kept.
\<close>
theorem cleanup_removes_expired:
  assumes "cleanupExpiredSessionsUnderHistoryLock W now p = (Inr (), p')" "durable p" "keyed p"
  shows "p_sessions p' = filter (\<lambda>(k, s). \<not> session_expired now s) (p_sessions p) \<and> keyed p'"
  using cleanup_sessions [OF assms] assms(3)
  by (auto simp: keyed_def list_all_iff distinct_map_filter)

text \<open>
  (C19) Cleanup is fail-closed: from a state with nothing pending, whatever system call, kernel command
  or observation fails, either memory and state file agree again with nothing pending, or the PEP is
  unhealthy and a restart from its state file is refused.
\<close>
theorem cleanup_fail_closed:
  assumes "durable p" "quiescent p" and "p' = cleanupExpiredSessions W now p"
  shows "quiescent p'
    \<or> \<not> p_healthy p' \<and> (\<exists>opn. fst (loadPEPState P (p_statePath p') h0 (q\<lparr>p_disk := p_disk p'\<rparr>)) = Inl (IncompletePending opn))"
proof -
  obtain r p1 where c: "cleanupExpiredSessionsUnderHistoryLock W now p = (r, p1)"
    by (cases "cleanupExpiredSessionsUnderHistoryLock W now p")
  from expire_all_fail_closed [OF c [unfolded cleanupExpiredSessionsUnderHistoryLock_def] assms(1,2)]
  have f: "durable p1" "quiescent p1 \<or> r \<noteq> Inr () \<and> blocked p1" by auto
  show ?thesis
  proof (cases r)
    case (Inl e)
    then have "p' = p1\<lparr>p_healthy := False\<rparr>" using assms(3) c by (simp add: cleanupExpiredSessions_def)
    with f blocked_refuses [of p' P h0 q] show ?thesis by auto
  next
    case (Inr u)
    with f assms(3) c show ?thesis by (simp add: cleanupExpiredSessions_def)
  qed
qed

text \<open>
  A later cleanup erases the marker of an earlier failure: whatever operation was pending before,
  a cleanup that removes at least one session and succeeds leaves no operation pending in the state
  file, so a restart is no longer refused for the earlier one.
\<close>
theorem cleanup_erases_marker:
  assumes "cleanupExpiredSessionsUnderHistoryLock W now p = (Inr (), p')" "durable p"
    and "(k, s) \<in> set (p_sessions p)" "session_expired now s"
  shows "p_pending p' = None \<and> (\<exists>d. stored p' = Some (Doc d) \<and> ps_Pending d = None)"
proof -
  from assms(3,4) have "filter (session_expired now) (map snd (p_sessions p)) \<noteq> []"
    by (force simp: filter_empty_conv)
  from expire_all_saved [OF assms(1) [unfolded cleanupExpiredSessionsUnderHistoryLock_def] assms(2) this] show ?thesis .
qed

text \<open>
  A PEP in apply mode never restarts with a live session: the check of the restored sessions
  looks for the observer's source in metadata that the post-hoc observation does not write, so it
  fails whenever a session is left after the cleanup, even if the kernel state matches exactly.
\<close>
theorem restored_session_always_refused:
  assumes "p_attestation p = Some a" "at_enabled a" "getenv (w_env W) ''XFRM_MODE'' ''dry-run'' = ''apply''"
    and "cleanupExpiredSessionsUnderHistoryLock W (w_clock W (p_tick p)) (tick p) = (Inr (), p')" "durable p"
    and "p_sessions p' = (k, s) # rest"
  shows "fst (validateRestoredSessions W p) = Inl (NoMatchingXFRM (ss_PEPInSPI s))"
proof -
  have "durable (tick p)" using assms(5) by simp
  from expire_all_sessions [OF assms(4) [unfolded cleanupExpiredSessionsUnderHistoryLock_def] this] assms(1)
  have "p_attestation p' = Some a" by simp
  moreover have "\<not> observationMeetsLocalProfile env at (Some (observeXFRMAppliedPosthoc (w_prims W) (w_env W) ip s)) ''applied''"
    for env at ip
    using assms(3) by (simp add: observationMeetsLocalProfile_def Let_def observeApplied_meta applied_posthoc_source strings_ToLower_def)
  ultimately show ?thesis using assms by (simp add: validateRestoredSessions_def)
qed

subsection \<open>Examples\<close>

definition old_session :: Session where
  "old_session = ex_session\<lparr>ss_ExpiresAt := Format_RFC3339 0\<rparr>"

definition old_pep :: "unit pep" where
  "old_pep = ex_pep\<lparr>p_sessions := [(''0x2'', old_session)],
     p_pending := Some \<lparr>po_Operation = ''xfrm_apply'', po_Session = ex_session\<rparr>\<rparr>"

lemma year_zero: "four_digit_year 0"
  by (simp add: four_digit_year_def date_of_days_def year_of_day_def days_before_year_def Let_def)

lemma old_pep_facts:
  "durable old_pep" "keyed old_pep" "(''0x2'', old_session) \<in> set (p_sessions old_pep)" "session_expired 5 old_session"
  by (simp_all add: old_pep_def ex_pep_def old_session_def ex_session_def durable_def keyed_def session_expired_def
      Parse_Format [OF year_zero])

lemma old_pep_cleanup: "\<exists>p'. cleanupExpiredSessionsUnderHistoryLock ex_world 5 old_pep = (Inr (), p')"
proof -
  have "w_os ex_world n = os_fine" "getenv (w_env ex_world) ''XFRM_MODE'' ''dry-run'' \<noteq> ''apply''" for n
    by (simp_all add: ex_world_def getenv_def os_Getenv_def)
  from dry_cleanup [OF this _ old_pep_facts(1)] show ?thesis
    by (simp add: cleanupExpiredSessionsUnderHistoryLock_def old_pep_def ex_pep_def)
qed

theorem local_profile_implies_verifier_witness:
  "verifyObservedEvent (sample_event\<lparr>ev_Metadata := Some [(''xfrm_mode'', ''apply''), (''applied'', ''true''),
      (''observer_source'', ''posthoc''), (''xfrm_plan_hash'', ''h'')]\<rparr>) ''applied''
      (strings_ToLower (getenv (\<lambda>_. None) ''PEP_REQUIRED_OBSERVER_PROFILE'' ''posthoc'')) ''h'' = Inr ()"
proof (rule local_profile_implies_verifier)
  show "observationMeetsLocalProfile (\<lambda>_. None) (Some (undefined\<lparr>at_enabled := True\<rparr>))
      (Some [(''xfrm_mode'', ''apply''), (''applied'', ''true''), (''observer_source'', ''posthoc''), (''xfrm_plan_hash'', ''h'')]) ''applied''"
    by (simp add: observationMeetsLocalProfile_def observationSuccessful_def mget_def getenv_def os_Getenv_def)
  have "list_all solid ''h''" by (simp add: solid_def space_runes_def)
  then show "strings_TrimSpace ''h'' \<noteq> ''''" by (simp add: TrimSpace_solid)
qed (simp_all add: meta_def mget_def)

theorem cleanup_removes_expired_witness:
  "\<exists>p'. cleanupExpiredSessionsUnderHistoryLock ex_world 5 old_pep = (Inr (), p') \<and> p_sessions p' = []"
proof -
  from old_pep_cleanup obtain p' where c: "cleanupExpiredSessionsUnderHistoryLock ex_world 5 old_pep = (Inr (), p')" ..
  from cleanup_removes_expired [OF c old_pep_facts(1,2)] c old_pep_facts(4) show ?thesis by (auto simp: old_pep_def)
qed

theorem cleanup_fail_closed_witness:
  "\<exists>p'. p' = cleanupExpiredSessions (ex_world\<lparr>w_os := (\<lambda>_. os_fine\<lparr>os_Rename_ok := False\<rparr>)\<rparr>) 5 (ex_pep\<lparr>p_sessions := []\<rparr>)
    \<and> (quiescent p' \<or> \<not> p_healthy p')"
proof -
  have "durable (ex_pep\<lparr>p_sessions := []\<rparr>)" "quiescent (ex_pep\<lparr>p_sessions := []\<rparr>)"
    by (simp_all add: durable_def quiescent_def holds_sessions_def ex_pep_def)
  from cleanup_fail_closed [OF this refl] show ?thesis by blast
qed

theorem cleanup_erases_marker_witness:
  "\<exists>p'. p_pending old_pep \<noteq> None \<and> cleanupExpiredSessionsUnderHistoryLock ex_world 5 old_pep = (Inr (), p')
    \<and> p_pending p' = None"
proof -
  from old_pep_cleanup obtain p' where c: "cleanupExpiredSessionsUnderHistoryLock ex_world 5 old_pep = (Inr (), p')" ..
  from cleanup_erases_marker [OF c old_pep_facts(1,3,4)] c show ?thesis by (auto simp: old_pep_def)
qed

definition ex_attestation :: pepAttestationState where
  "ex_attestation = \<lparr>at_enabled = True, at_pepID = ''p'', at_verifierURL = '''', at_measurement = ''m'', at_policyHash = ''h'',
     at_scope = [''s''], at_maxSALifetime = 60, at_verifierPubKey = id_PublicKey demo_key, at_requiredObserver = ''posthoc'',
     at_key = demo_key, at_token = None\<rparr>"

theorem restored_session_always_refused_witness:
  "fst (validateRestoredSessions (ex_world\<lparr>w_env := apply_env\<rparr>) (ex_pep\<lparr>p_attestation := Some ex_attestation\<rparr>))
     = Inl (NoMatchingXFRM ''0x2'')"
proof -
  let ?W = "ex_world\<lparr>w_env := apply_env\<rparr>" and ?p = "ex_pep\<lparr>p_attestation := Some ex_attestation\<rparr>"
  have x: "Parse_RFC3339 ''x'' = None" by code_simp
  then have "cleanupExpiredSessionsUnderHistoryLock ?W (w_clock ?W (p_tick ?p)) (tick ?p) = (Inr (), tick ?p)"
    by (simp add: cleanupExpiredSessionsUnderHistoryLock_def ex_pep_def session_expired_def ex_session_def)
  moreover have "p_sessions (tick ?p) = (''0x2'', ex_session) # []" "durable ?p"
    by (simp_all add: ex_pep_def durable_def)
  moreover have "getenv (w_env ?W) ''XFRM_MODE'' ''dry-run'' = ''apply''" by (simp add: apply_env_def getenv_def os_Getenv_def)
  ultimately show ?thesis
    using restored_session_always_refused [of ?p ex_attestation ?W "tick ?p" "''0x2''" ex_session "[]"]
    by (simp add: ex_attestation_def ex_session_def)
qed

end
