(* ===== verification/Verifier.thy ===== *)
theory Verifier
  imports Attest Verifier_Policy Go_Files Transition
begin

text \<open>
  The verifier service, \<^verbatim>\<open>verifier/main.go\<close>: configuration, the state behind the mutex, its file, and
  the handler of \<^verbatim>\<open>/capacity\<close>. The handler holds the mutex twice; between the two critical sections
  other requests run. It is therefore split at that point: \<open>capacity_prepare\<close> is everything up to the
  second \<^verbatim>\<open>Lock\<close>, \<open>capacity_commit\<close> the rest, and \<open>capacityHandler\<close> their composition. The relation
  \<open>vstep\<close> interleaves any number of requests. The clock reading, the outcome of the file-system calls
  and the decoded request body are inputs; log output is not modelled.
\<close>

record verifierConfig =
  vc_VerifierID :: string
  vc_IdentityPath :: string
  vc_EnrollmentPath :: string
  vc_ExpectedMeasurement :: string
  vc_ExpectedPolicyHash :: string
  vc_TokenTTLSeconds :: int
  vc_AllowedScope :: "string list"
  vc_MaxSALifetime :: int
  vc_RequiredObserver :: string
  vc_StatePath :: string

record enrolledPEP =
  ep_SigningPublicKey :: string

record verifierState =
  vs_checkpoints :: "EnforcementCheckpoint smap"
  vs_activeStates :: "trackedSession smap smap"
  vs_lastTokens :: "CapacityToken smap"

text \<open>The struct written to disk; a map missing in the file decodes to nil.\<close>

record persistentVerifierState =
  pv_Checkpoints :: "EnforcementCheckpoint smap option"
  pv_ActiveStates :: "trackedSession smap smap option"
  pv_LastTokens :: "CapacityToken smap option"

datatype http_reply =
    HttpError nat string
  | HistoryRejected "attest_error + policy_error" \<comment> \<open>403, with the error's text\<close>
  | HttpToken CapacityToken

record http_request =
  rq_Method :: string
  rq_Body :: "CapacityRequest option" \<comment> \<open>None: the body does not decode\<close>

definition verifier_config :: "env \<Rightarrow> verifierConfig" where
  "verifier_config env =
     \<lparr>vc_VerifierID = getenv env ''VERIFIER_ID'' ''cryptna-verifier-v1'',
      vc_IdentityPath = getenv env ''VERIFIER_IDENTITY'' ''/app/identity.json'',
      vc_EnrollmentPath = getenv env ''VERIFIER_ENROLLED_PEPS'' ''/app/enrolled_peps.json'',
      vc_ExpectedMeasurement = getenv env ''VERIFIER_EXPECTED_MEASUREMENT'' '''',
      vc_ExpectedPolicyHash = getenv env ''VERIFIER_EXPECTED_POLICY_HASH'' '''',
      vc_TokenTTLSeconds = getenvInt env ''VERIFIER_TOKEN_TTL_SECONDS'' 120,
      vc_AllowedScope = splitCSV (getenv env ''VERIFIER_ALLOWED_SCOPE'' ''svc-http''),
      vc_MaxSALifetime = getenvInt env ''VERIFIER_MAX_SA_LIFETIME_SECONDS'' 60,
      vc_RequiredObserver = strings_ToLower (getenv env ''VERIFIER_REQUIRED_OBSERVER_PROFILE'' ''posthoc''),
      vc_StatePath = getenv env ''VERIFIER_STATE_PATH'' ''''\<rparr>"

definition new_verifier_state :: verifierState where
  "new_verifier_state = \<lparr>vs_checkpoints = [], vs_activeStates = [], vs_lastTokens = []\<rparr>"

subsection \<open>Persistence\<close>

definition loadVerifierState ::
  "string \<Rightarrow> persistentVerifierState disk \<Rightarrow> verifierState \<Rightarrow> string + verifierState" where
  "loadVerifierState path disk state =
     (if path = '''' then Inr state
      else case disk path of
        None \<Rightarrow> Inr state
      | Some Torn \<Rightarrow> Inl ''decode''
      | Some (Doc persisted) \<Rightarrow> Inr
          \<lparr>vs_checkpoints = (case pv_Checkpoints persisted of None \<Rightarrow> vs_checkpoints state | Some m \<Rightarrow> m),
           vs_activeStates = (case pv_ActiveStates persisted of None \<Rightarrow> vs_activeStates state | Some m \<Rightarrow> m),
           vs_lastTokens = (case pv_LastTokens persisted of None \<Rightarrow> vs_lastTokens state | Some m \<Rightarrow> m)\<rparr>)"

definition savePersistentVerifierState ::
  "os_result \<Rightarrow> string \<Rightarrow> persistentVerifierState \<Rightarrow> persistentVerifierState disk
    \<Rightarrow> (os_error + unit) \<times> persistentVerifierState disk" where
  "savePersistentVerifierState os path persisted disk =
     (if path = '''' then (Inr (), disk) else replace_file os path persisted disk)"

definition saveVerifierState ::
  "os_result \<Rightarrow> string \<Rightarrow> verifierState \<Rightarrow> persistentVerifierState disk
    \<Rightarrow> (os_error + unit) \<times> persistentVerifierState disk" where
  "saveVerifierState os path state =
     savePersistentVerifierState os path
       \<lparr>pv_Checkpoints = Some (vs_checkpoints state), pv_ActiveStates = Some (vs_activeStates state),
        pv_LastTokens = Some (vs_lastTokens state)\<rparr>"

text \<open>Copies: the same value, except that a nil map or slice becomes an empty one.\<close>

definition copyTrackedSessions :: "trackedSession smap option \<Rightarrow> trackedSession smap" where
  "copyTrackedSessions m = slice m"

definition copyCheckpoints :: "EnforcementCheckpoint smap \<Rightarrow> EnforcementCheckpoint smap" where
  "copyCheckpoints m = map (\<lambda>(k, v). (k, v)) m"

definition copyAllActiveStates :: "trackedSession smap smap \<Rightarrow> trackedSession smap smap" where
  "copyAllActiveStates m = map (\<lambda>(pepID, sessions). (pepID, copyTrackedSessions (Some sessions))) m"

definition copyCapacityTokens :: "CapacityToken smap \<Rightarrow> CapacityToken smap" where
  "copyCapacityTokens m = map (\<lambda>(k, v). (k, v\<lparr>ct_Scope := Some (slice (ct_Scope v))\<rparr>)) m"

subsection \<open>The handler\<close>

definition zero_token :: CapacityToken where
  "zero_token = \<lparr>ct_Version = 0, ct_TokenType = '''', ct_VerifierID = '''', ct_PEPID = '''',
     ct_PEPSigningPubKey = '''', ct_Measurement = '''', ct_PolicyHash = '''', ct_Scope = None,
     ct_IssuedAt = '''', ct_ExpiresAt = '''', ct_MaxSALifetime = 0, ct_ObserverProfile = '''',
     ct_CheckpointHash = '''', ct_HistoryEpoch = 0, ct_Signature = ''''\<rparr>"

definition token_at :: "CapacityToken smap \<Rightarrow> string \<Rightarrow> CapacityToken" where
  "token_at m k = (case map_of m k of None \<Rightarrow> zero_token | Some t \<Rightarrow> t)"

definition acceptedCheckpointRetry ::
  "prims \<Rightarrow> HistoryEvidence \<Rightarrow> CapacityRequest \<Rightarrow> verifierConfig \<Rightarrow> EnforcementCheckpoint \<Rightarrow> CapacityToken
    \<Rightarrow> string \<Rightarrow> string \<Rightarrow> CapacityToken option" where
  "acceptedCheckpointRetry P history req cfg current tok pepPubKey verifierPubKey =
     (let cp = he_Checkpoint history in
      if cp \<noteq> current \<or> ct_Signature tok = '''' then None
      else if \<not> is_ok (VerifyEnforcementCheckpoint P cp pepPubKey) then None
      else let h = HashEnforcementCheckpoint P cp in
      if ct_CheckpointHash tok \<noteq> h \<or> ct_PEPID tok \<noteq> cp_PEPID cp \<or> ct_PEPSigningPubKey tok \<noteq> pepPubKey then None
      else case Parse_RFC3339 (ct_IssuedAt tok) of None \<Rightarrow> None
      | Some issuedAt \<Rightarrow>
        if \<not> is_ok (VerifyCapacityToken P tok verifierPubKey issuedAt) then None
        else if ct_VerifierID tok \<noteq> vc_VerifierID cfg \<or> ct_Measurement tok \<noteq> cr_Measurement req
          \<or> ct_PolicyHash tok \<noteq> cr_PolicyHash req \<or> ct_MaxSALifetime tok \<noteq> cr_MaxSALifetime req
          \<or> ct_ObserverProfile tok \<noteq> vc_RequiredObserver cfg
          \<or> \<not> sameStringsUnordered (slice (ct_Scope tok)) (cr_Scope req) then None
        else Some tok)"

text \<open>The guards on the request: the request with its lifetime clamped, the enrolled key, the history.\<close>

definition capacity_guards ::
  "verifierConfig \<Rightarrow> enrolledPEP smap \<Rightarrow> http_request \<Rightarrow> http_reply + CapacityRequest \<times> string \<times> HistoryEvidence" where
  "capacity_guards cfg enrolled r =
     (if rq_Method r \<noteq> ''POST'' then Inl (HttpError 405 ''method not allowed'')
      else case rq_Body r of None \<Rightarrow> Inl (HttpError 400 ''invalid json'')
      | Some req \<Rightarrow>
        if cr_PEPID req = '''' \<or> cr_PEPSigningPubKey req = '''' \<or> cr_Measurement req = ''''
           \<or> cr_PolicyHash req = '''' \<or> cr_MaxSALifetime req \<le> 0
        then Inl (HttpError 400 ''invalid capacity request'')
        else let key = (case map_of enrolled (cr_PEPID req) of None \<Rightarrow> '''' | Some e \<Rightarrow> ep_SigningPublicKey e) in
        if key = '''' then Inl (HttpError 403 ''PEP is not enrolled'')
        else if cr_PEPSigningPubKey req \<noteq> key
        then Inl (HttpError 403 ''PEP signing key does not match enrollment'')
        else if vc_ExpectedMeasurement cfg \<noteq> '''' \<and> cr_Measurement req \<noteq> vc_ExpectedMeasurement cfg
        then Inl (HttpError 403 ''unexpected PEP measurement'')
        else if vc_ExpectedPolicyHash cfg \<noteq> '''' \<and> cr_PolicyHash req \<noteq> vc_ExpectedPolicyHash cfg
        then Inl (HttpError 403 ''unexpected policy hash'')
        else if length (cr_Scope req) = 0 then Inl (HttpError 400 ''empty scope'')
        else if \<not> scopeSubset (cr_Scope req) (vc_AllowedScope cfg)
        then Inl (HttpError 403 ''scope exceeds verifier policy'')
        else let req = (if vc_MaxSALifetime cfg > 0 \<and> cr_MaxSALifetime req > vc_MaxSALifetime cfg
                        then req\<lparr>cr_MaxSALifetime := vc_MaxSALifetime cfg\<rparr> else req) in
        (case cr_History req of None \<Rightarrow> Inl (HttpError 400 ''missing enforcement history evidence'')
         | Some history \<Rightarrow> Inr (req, key, history)))"

definition new_token :: "verifierConfig \<Rightarrow> CapacityRequest \<Rightarrow> time \<Rightarrow> string \<Rightarrow> u64 \<Rightarrow> CapacityToken" where
  "new_token cfg req now checkpointHash epoch =
     \<lparr>ct_Version = 1, ct_TokenType = ''cryptna-pep-capacity-v1'', ct_VerifierID = vc_VerifierID cfg,
      ct_PEPID = cr_PEPID req, ct_PEPSigningPubKey = cr_PEPSigningPubKey req,
      ct_Measurement = cr_Measurement req, ct_PolicyHash = cr_PolicyHash req,
      ct_Scope = Some (cr_Scope req), ct_IssuedAt = Format_RFC3339 now,
      ct_ExpiresAt = Format_RFC3339 (now + dur_seconds (vc_TokenTTLSeconds cfg)),
      ct_MaxSALifetime = cr_MaxSALifetime req, ct_ObserverProfile = vc_RequiredObserver cfg,
      ct_CheckpointHash = checkpointHash, ct_HistoryEpoch = epoch, ct_Signature = ''''\<rparr>"

text \<open>What a request carries from the first critical section to the second.\<close>

record ticket =
  tk_req :: CapacityRequest
  tk_key :: string
  tk_history :: HistoryEvidence
  tk_previous :: "EnforcementCheckpoint option"
  tk_active :: "trackedSession smap"
  tk_signed :: CapacityToken

definition capacity_prepare ::
  "prims \<Rightarrow> verifierConfig \<Rightarrow> Ed25519Identity \<Rightarrow> enrolledPEP smap \<Rightarrow> time \<Rightarrow> http_request \<Rightarrow> verifierState
    \<Rightarrow> http_reply + ticket" where
  "capacity_prepare P cfg ident enrolled now r state =
     rbind (capacity_guards cfg enrolled r) (\<lambda>(req, key, history).
     let previous = map_of (vs_checkpoints state) (cr_PEPID req) in
     case (case previous of None \<Rightarrow> None
           | Some p \<Rightarrow> acceptedCheckpointRetry P history req cfg p (token_at (vs_lastTokens state) (cr_PEPID req))
                         key (id_PublicKey ident)) of
       Some tok \<Rightarrow> Inl (HttpToken tok)
     | None \<Rightarrow>
       let activeCopy = copyTrackedSessions (map_of (vs_activeStates state) (cr_PEPID req)) in
       (case VerifyHistoryEvidence P history (cr_PEPID req) (cr_PEPSigningPubKey req) previous of
          Inl e \<Rightarrow> Inl (HistoryRejected (Inl e))
        | Inr checkpointHash \<Rightarrow>
          (case verifyEnforcementPolicy history req activeCopy [vc_RequiredObserver cfg] of
             Inl e \<Rightarrow> Inl (HistoryRejected (Inr e))
           | Inr activeCopy \<Rightarrow>
             (case SignCapacityToken P (new_token cfg req now checkpointHash (cp_Epoch (he_Checkpoint history)))
                     (id_PrivateKey ident) of
                Inl e \<Rightarrow> Inl (HttpError 500 ''sign capacity token failed'')
              | Inr signedTok \<Rightarrow> Inr \<lparr>tk_req = req, tk_key = key, tk_history = history, tk_previous = previous,
                                  tk_active = activeCopy, tk_signed = signedTok\<rparr>))))"

definition capacity_commit ::
  "prims \<Rightarrow> verifierConfig \<Rightarrow> Ed25519Identity \<Rightarrow> os_result \<Rightarrow> ticket
    \<Rightarrow> verifierState \<times> persistentVerifierState disk
    \<Rightarrow> http_reply \<times> verifierState \<times> persistentVerifierState disk" where
  "capacity_commit P cfg ident os tk = (\<lambda>(state, disk).
     let pepID = cr_PEPID (tk_req tk); current = map_of (vs_checkpoints state) pepID in
     if current \<noteq> tk_previous tk then
       (case (case current of None \<Rightarrow> None
              | Some c \<Rightarrow> acceptedCheckpointRetry P (tk_history tk) (tk_req tk) cfg c
                            (token_at (vs_lastTokens state) pepID) (tk_key tk) (id_PublicKey ident)) of
          Some replay \<Rightarrow> (HttpToken replay, state, disk)
        | None \<Rightarrow> (HttpError 409 ''concurrent checkpoint update; retry with current state'', state, disk))
     else
       let nextCheckpoints = AList.update pepID (he_Checkpoint (tk_history tk)) (copyCheckpoints (vs_checkpoints state));
           nextActive = AList.update pepID (tk_active tk) (copyAllActiveStates (vs_activeStates state));
           nextTokens = AList.update pepID (tk_signed tk) (copyCapacityTokens (vs_lastTokens state)) in
       (case savePersistentVerifierState os (vc_StatePath cfg)
               \<lparr>pv_Checkpoints = Some nextCheckpoints, pv_ActiveStates = Some nextActive, pv_LastTokens = Some nextTokens\<rparr>
               disk of
          (Inl e, disk) \<Rightarrow> (HttpError 500 ''persist verifier state failed'', state, disk)
        | (Inr _, disk) \<Rightarrow>
            (HttpToken (tk_signed tk),
             \<lparr>vs_checkpoints = nextCheckpoints, vs_activeStates = nextActive, vs_lastTokens = nextTokens\<rparr>, disk)))"

definition capacityHandler ::
  "prims \<Rightarrow> verifierConfig \<Rightarrow> Ed25519Identity \<Rightarrow> enrolledPEP smap \<Rightarrow> time \<Rightarrow> os_result \<Rightarrow> http_request
    \<Rightarrow> verifierState \<times> persistentVerifierState disk
    \<Rightarrow> http_reply \<times> verifierState \<times> persistentVerifierState disk" where
  "capacityHandler P cfg ident enrolled now os r = (\<lambda>(state, disk).
     case capacity_prepare P cfg ident enrolled now r state of
       Inl reply \<Rightarrow> (reply, state, disk)
     | Inr tk \<Rightarrow> capacity_commit P cfg ident os tk (state, disk))"

subsection \<open>Lemmas on the parts\<close>

interpretation verifier_store: durable_store "\<lambda>os d k. savePersistentVerifierState os (c # p) d k" "\<lambda>k. k (c # p)" for c p
  by unfold_locales (auto simp: savePersistentVerifierState_def dest: replace_file_target)

lemma copy_lookup [simp]:
  "map_of (copyCheckpoints m) k = map_of m k"
  "map_of (copyAllActiveStates a) k = map_of a k"
  "map_of (copyCapacityTokens t) k = map_option (\<lambda>v. v\<lparr>ct_Scope := Some (slice (ct_Scope v))\<rparr>) (map_of t k)"
  by (simp_all add: copyCheckpoints_def copyAllActiveStates_def copyTrackedSessions_def copyCapacityTokens_def map_of_map)

lemma guards_elim:
  assumes "capacity_guards cfg enrolled r = Inr (req, key, history)"
  obtains req0 where "rq_Method r = ''POST''" "rq_Body r = Some req0"
    "req = req0\<lparr>cr_MaxSALifetime := if vc_MaxSALifetime cfg > 0 then min (cr_MaxSALifetime req0) (vc_MaxSALifetime cfg)
                                       else cr_MaxSALifetime req0\<rparr>"
    "cr_PEPID req \<noteq> ''''" "0 < cr_MaxSALifetime req" "key \<noteq> ''''"
    "map_option ep_SigningPublicKey (map_of enrolled (cr_PEPID req)) = Some key" "cr_PEPSigningPubKey req = key"
    "vc_ExpectedMeasurement cfg \<in> {'''', cr_Measurement req}" "vc_ExpectedPolicyHash cfg \<in> {'''', cr_PolicyHash req}"
    "cr_Scope req \<noteq> []" "scopeSubset (cr_Scope req) (vc_AllowedScope cfg)" "cr_History req = Some history"
proof -
  from assms obtain req0 where "rq_Method r = ''POST''" "rq_Body r = Some req0"
    by (auto simp: capacity_guards_def split: if_splits option.splits)
  with assms show thesis
    by (intro that [of req0]) (auto simp: capacity_guards_def Let_def split: if_splits option.splits)
qed

lemma retry_elim:
  assumes "acceptedCheckpointRetry P history req cfg current tok pepKey verifierKey = Some tok'"
  shows "tok' = tok" "he_Checkpoint history = current" "ct_Signature tok \<noteq> ''''"
    "VerifyEnforcementCheckpoint P current pepKey = Inr ()"
    "ct_CheckpointHash tok = HashEnforcementCheckpoint P current" "ct_PEPID tok = cp_PEPID current"
    "ct_PEPSigningPubKey tok = pepKey"
    "\<exists>iat. Parse_RFC3339 (ct_IssuedAt tok) = Some iat \<and> VerifyCapacityToken P tok verifierKey iat = Inr ()"
    "ct_VerifierID tok = vc_VerifierID cfg" "ct_Measurement tok = cr_Measurement req"
    "ct_PolicyHash tok = cr_PolicyHash req" "ct_MaxSALifetime tok = cr_MaxSALifetime req"
    "ct_ObserverProfile tok = vc_RequiredObserver cfg"
    "sameStringsUnordered (slice (ct_Scope tok)) (cr_Scope req)"
  using assms
  by (auto simp: acceptedCheckpointRetry_def Let_def is_ok_iff split: if_splits option.splits)

lemma prepare_elim:
  assumes "capacity_prepare P cfg ident enrolled now r state = Inr tk"
  shows "capacity_guards cfg enrolled r = Inr (tk_req tk, tk_key tk, tk_history tk)"
    "tk_previous tk = map_of (vs_checkpoints state) (cr_PEPID (tk_req tk))"
    "evidence_ok P (tk_history tk) (cr_PEPID (tk_req tk)) (cr_PEPSigningPubKey (tk_req tk)) (tk_previous tk)"
    "verifyEnforcementPolicy (tk_history tk) (tk_req tk)
       (slice (map_of (vs_activeStates state) (cr_PEPID (tk_req tk)))) [vc_RequiredObserver cfg] = Inr (tk_active tk)"
    "SignCapacityToken P (new_token cfg (tk_req tk) now (HashEnforcementCheckpoint P (he_Checkpoint (tk_history tk)))
       (cp_Epoch (he_Checkpoint (tk_history tk)))) (id_PrivateKey ident) = Inr (tk_signed tk)"
  using assms
  by (auto simp: capacity_prepare_def result_iffs Let_def copyTrackedSessions_def VerifyHistoryEvidence_iff
      split: option.splits sum.splits)

lemma prepare_token:
  assumes "capacity_prepare P cfg ident enrolled now r state = Inl (HttpToken tok)"
  obtains req key history current where "capacity_guards cfg enrolled r = Inr (req, key, history)"
    "map_of (vs_checkpoints state) (cr_PEPID req) = Some current"
    "acceptedCheckpointRetry P history req cfg current (token_at (vs_lastTokens state) (cr_PEPID req)) key
       (id_PublicKey ident) = Some tok"
proof (cases "capacity_guards cfg enrolled r")
  case (Inl e)
  with assms have "capacity_guards cfg enrolled r = Inl (HttpToken tok)" by (simp add: capacity_prepare_def)
  then show ?thesis by (auto simp: capacity_guards_def Let_def split: if_splits option.splits)
next
  case (Inr g)
  with assms show ?thesis
    by (cases g) (auto simp: capacity_prepare_def Let_def intro: that split: option.splits sum.splits)
qed

text \<open>The three ways the second critical section ends.\<close>

lemma commit_cases [consumes 1, case_names stale failed stored]:
  assumes "capacity_commit P cfg ident os tk (state, disk) = (reply, state', disk')"
  obtains "map_of (vs_checkpoints state) (cr_PEPID (tk_req tk)) \<noteq> tk_previous tk" "state' = state" "disk' = disk"
    "reply = HttpError 409 ''concurrent checkpoint update; retry with current state''
     \<or> (\<exists>c tok. map_of (vs_checkpoints state) (cr_PEPID (tk_req tk)) = Some c \<and> reply = HttpToken tok
          \<and> acceptedCheckpointRetry P (tk_history tk) (tk_req tk) cfg c
              (token_at (vs_lastTokens state) (cr_PEPID (tk_req tk))) (tk_key tk) (id_PublicKey ident) = Some tok)"
  | "map_of (vs_checkpoints state) (cr_PEPID (tk_req tk)) = tk_previous tk" "state' = state"
    "reply = HttpError 500 ''persist verifier state failed''" "disk' (vc_StatePath cfg) = disk (vc_StatePath cfg)"
  | "map_of (vs_checkpoints state) (cr_PEPID (tk_req tk)) = tk_previous tk" "reply = HttpToken (tk_signed tk)"
    "vs_checkpoints state' = AList.update (cr_PEPID (tk_req tk)) (he_Checkpoint (tk_history tk)) (copyCheckpoints (vs_checkpoints state))"
    "vs_activeStates state' = AList.update (cr_PEPID (tk_req tk)) (tk_active tk) (copyAllActiveStates (vs_activeStates state))"
    "vs_lastTokens state' = AList.update (cr_PEPID (tk_req tk)) (tk_signed tk) (copyCapacityTokens (vs_lastTokens state))"
    "saveVerifierState os (vc_StatePath cfg) state' disk = (Inr (), disk')"
proof (cases "map_of (vs_checkpoints state) (cr_PEPID (tk_req tk)) = tk_previous tk")
  case False
  with assms show ?thesis
    by (intro that(1)) (auto simp: capacity_commit_def Let_def split: option.splits)
next
  case True
  define st where "st = \<lparr>vs_checkpoints = AList.update (cr_PEPID (tk_req tk)) (he_Checkpoint (tk_history tk)) (copyCheckpoints (vs_checkpoints state)),
    vs_activeStates = AList.update (cr_PEPID (tk_req tk)) (tk_active tk) (copyAllActiveStates (vs_activeStates state)),
    vs_lastTokens = AList.update (cr_PEPID (tk_req tk)) (tk_signed tk) (copyCapacityTokens (vs_lastTokens state))\<rparr>"
  obtain res k where s: "saveVerifierState os (vc_StatePath cfg) st disk = (res, k)"
    by (cases "saveVerifierState os (vc_StatePath cfg) st disk")
  with True assms have "(reply, state', disk') = (case res of Inl e \<Rightarrow> (HttpError 500 ''persist verifier state failed'', state, k)
      | Inr _ \<Rightarrow> (HttpToken (tk_signed tk), st, k))"
    by (simp add: capacity_commit_def saveVerifierState_def st_def Let_def split: sum.splits)
  moreover have "k (vc_StatePath cfg) = disk (vc_StatePath cfg)" if "res = Inl e" for e
    using s that by (auto simp: saveVerifierState_def savePersistentVerifierState_def dest: replace_file_target split: if_splits)
  ultimately show ?thesis
    using True s that(2,3) by (cases res) (auto simp: st_def)
qed

subsection \<open>Concurrent requests and restarts\<close>

text \<open>
  The service with its requests in flight: those between the two critical sections, and the log of
  the tickets that were stored (a history variable; the program does not keep it).
\<close>

record vsystem =
  sy_state :: verifierState
  sy_disk :: "persistentVerifierState disk"
  sy_tickets :: "ticket list"
  sy_log :: "ticket list"

text \<open>Whether the second critical section of \<open>tk\<close> stores its checkpoint.\<close>

definition stores :: "verifierState \<Rightarrow> ticket \<Rightarrow> http_reply \<Rightarrow> bool" where
  "stores state tk reply \<longleftrightarrow>
     map_of (vs_checkpoints state) (cr_PEPID (tk_req tk)) = tk_previous tk \<and> (\<exists>t. reply = HttpToken t)"

inductive vstep :: "prims \<Rightarrow> verifierConfig \<Rightarrow> Ed25519Identity \<Rightarrow> enrolledPEP smap \<Rightarrow> vsystem \<Rightarrow> vsystem \<Rightarrow> bool"
  for P cfg ident enrolled where
  prepare: "capacity_prepare P cfg ident enrolled now r (sy_state s) = Inr tk
    \<Longrightarrow> vstep P cfg ident enrolled s (s\<lparr>sy_tickets := tk # sy_tickets s\<rparr>)"
| commit: "tk \<in> set (sy_tickets s)
    \<Longrightarrow> capacity_commit P cfg ident os tk (sy_state s, sy_disk s) = (reply, state', disk')
    \<Longrightarrow> vstep P cfg ident enrolled s
          \<lparr>sy_state = state', sy_disk = disk', sy_tickets = remove1 tk (sy_tickets s),
           sy_log = sy_log s @ (if stores (sy_state s) tk reply then [tk] else [])\<rparr>"
| restart: "loadVerifierState (vc_StatePath cfg) (sy_disk s) new_verifier_state = Inr state'
    \<Longrightarrow> vstep P cfg ident enrolled s (s\<lparr>sy_state := state', sy_tickets := []\<rparr>)"

definition vinit :: "persistentVerifierState disk \<Rightarrow> vsystem" where
  "vinit disk = \<lparr>sy_state = new_verifier_state, sy_disk = disk, sy_tickets = [], sy_log = []\<rparr>"

definition log_of :: "string \<Rightarrow> vsystem \<Rightarrow> ticket list" where
  "log_of p s = filter (\<lambda>tk. cr_PEPID (tk_req tk) = p) (sy_log s)"

definition head_cp :: "ticket list \<Rightarrow> EnforcementCheckpoint option" where
  "head_cp L = (if L = [] then None else Some (he_Checkpoint (tk_history (last L))))"

definition head_active :: "ticket list \<Rightarrow> trackedSession smap" where
  "head_active L = (if L = [] then [] else tk_active (last L))"

lemma head_simps [simp]:
  "head_cp [] = None" "head_active [] = []"
  "head_cp (L @ [tk]) = Some (he_Checkpoint (tk_history tk))" "head_active (L @ [tk]) = tk_active tk"
  by (simp_all add: head_cp_def head_active_def)

text \<open>What both verifications establish of a ticket against a checkpoint and its active sessions.\<close>

definition accepts ::
  "prims \<Rightarrow> verifierConfig \<Rightarrow> string \<Rightarrow> EnforcementCheckpoint option \<Rightarrow> trackedSession smap \<Rightarrow> ticket \<Rightarrow> bool" where
  "accepts P cfg p prev A tk \<longleftrightarrow>
     cr_PEPID (tk_req tk) = p
     \<and> evidence_ok P (tk_history tk) p (cr_PEPSigningPubKey (tk_req tk)) prev
     \<and> verifyEnforcementPolicy (tk_history tk) (tk_req tk) A [vc_RequiredObserver cfg] = Inr (tk_active tk)"

text \<open>A sequence of tickets in which each one continues the one before it.\<close>

definition accepted_chain :: "prims \<Rightarrow> verifierConfig \<Rightarrow> string \<Rightarrow> ticket list \<Rightarrow> bool" where
  "accepted_chain P cfg p L \<longleftrightarrow>
     (\<forall>n < length L. accepts P cfg p (head_cp (take n L)) (head_active (take n L)) (L ! n))"

lemma accepted_chain_Nil [simp]: "accepted_chain P cfg p []"
  by (simp add: accepted_chain_def)

lemma accepted_chain_snoc [simp]:
  "accepted_chain P cfg p (L @ [tk]) \<longleftrightarrow>
     accepted_chain P cfg p L \<and> accepts P cfg p (head_cp L) (head_active L) tk"
  by (auto simp: accepted_chain_def nth_append less_Suc_eq all_conj_distrib)

lemma accepted_chain_epoch:
  "accepted_chain P cfg p L \<Longrightarrow> L \<noteq> [] \<Longrightarrow> cp_Epoch (he_Checkpoint (tk_history (last L))) = of_nat (length L)"
proof (induction L rule: rev_induct)
  case (snoc tk L)
  then have "cp_Epoch (he_Checkpoint (tk_history tk)) = next_epoch (head_cp L)"
    by (simp add: accepts_def evidence_ok_def Let_def)
  with snoc show ?case by (cases "L = []") (simp_all add: next_epoch_def head_cp_def algebra_simps)
qed simp

lemma accepted_chain_prefix: "accepted_chain P cfg p L \<Longrightarrow> prefix K L \<Longrightarrow> accepted_chain P cfg p K"
proof (induction L rule: rev_induct)
  case (snoc tk L)
  then show ?case by (cases "K = L @ [tk]") (auto simp: prefix_snoc)
qed simp

text \<open>Epochs count the accepted checkpoints, so the same checkpoint cannot come back.\<close>

lemma head_cp_unique:
  assumes "accepted_chain P cfg p L" "length L < 2 ^ 64" "prefix K L" "head_cp K = head_cp L"
  shows "K = L"
proof (cases "K = []")
  case True
  with assms(4) show ?thesis by (auto simp: head_cp_def split: if_splits)
next
  case False
  with assms(3) have L: "L \<noteq> []" by auto
  have "he_Checkpoint (tk_history (last K)) = he_Checkpoint (tk_history (last L))"
    using assms(4) False L by (simp add: head_cp_def)
  then have "(of_nat (length K) :: u64) = of_nat (length L)"
    using accepted_chain_epoch [OF assms(1) L]
      accepted_chain_epoch [OF accepted_chain_prefix [OF assms(1,3)] False] by simp
  then have "unat (of_nat (length K) :: u64) = unat (of_nat (length L) :: u64)" by simp
  with assms(2) prefix_length_le [OF assms(3)] have "length K = length L" by (simp add: unat_of_nat)
  with assms(3) show ?thesis by (auto simp: prefix_def)
qed

text \<open>The invariant: the state is the head of each log, and the file holds the state.\<close>

definition synced :: "prims \<Rightarrow> verifierConfig \<Rightarrow> string \<Rightarrow> vsystem \<Rightarrow> bool" where
  "synced P cfg p s \<longleftrightarrow>
     accepted_chain P cfg p (log_of p s)
     \<and> map_of (vs_checkpoints (sy_state s)) p = head_cp (log_of p s)
     \<and> slice (map_of (vs_activeStates (sy_state s)) p) = head_active (log_of p s)"

definition ticket_ok :: "prims \<Rightarrow> verifierConfig \<Rightarrow> vsystem \<Rightarrow> ticket \<Rightarrow> bool" where
  "ticket_ok P cfg s tk \<longleftrightarrow>
     (\<exists>K. prefix K (log_of (cr_PEPID (tk_req tk)) s) \<and> tk_previous tk = head_cp K
        \<and> accepts P cfg (cr_PEPID (tk_req tk)) (head_cp K) (head_active K) tk)"

definition on_disk :: "verifierConfig \<Rightarrow> vsystem \<Rightarrow> bool" where
  "on_disk cfg s \<longleftrightarrow> loadVerifierState (vc_StatePath cfg) (sy_disk s) new_verifier_state = Inr (sy_state s)"

definition vinv :: "prims \<Rightarrow> verifierConfig \<Rightarrow> vsystem \<Rightarrow> bool" where
  "vinv P cfg s \<longleftrightarrow> (\<forall>p. synced P cfg p s) \<and> (\<forall>tk \<in> set (sy_tickets s). ticket_ok P cfg s tk) \<and> on_disk cfg s"

lemma prepare_ticket_ok:
  assumes "synced P cfg (cr_PEPID (tk_req tk)) s"
    and "capacity_prepare P cfg ident enrolled now r (sy_state s) = Inr tk"
  shows "ticket_ok P cfg s tk"
proof -
  let ?L = "log_of (cr_PEPID (tk_req tk)) s"
  from assms(1) have h: "map_of (vs_checkpoints (sy_state s)) (cr_PEPID (tk_req tk)) = head_cp ?L"
    "slice (map_of (vs_activeStates (sy_state s)) (cr_PEPID (tk_req tk))) = head_active ?L"
    by (simp_all add: synced_def)
  have "tk_previous tk = head_cp ?L \<and> accepts P cfg (cr_PEPID (tk_req tk)) (head_cp ?L) (head_active ?L) tk"
    using prepare_elim(2-4) [OF assms(2)] by (simp add: accepts_def h)
  then show ?thesis unfolding ticket_ok_def by (intro exI [of _ ?L]) simp
qed

lemma ticket_ok_log: "sy_log s' = sy_log s @ xs \<Longrightarrow> ticket_ok P cfg s tk \<Longrightarrow> ticket_ok P cfg s' tk"
  unfolding ticket_ok_def log_of_def by (auto intro: prefix_prefix)

lemma saved_on_disk:
  assumes "vc_StatePath cfg \<noteq> ''''" "saveVerifierState os (vc_StatePath cfg) st disk = (Inr (), disk')"
  shows "loadVerifierState (vc_StatePath cfg) disk' st0 = Inr st"
  using assms by (auto simp: saveVerifierState_def savePersistentVerifierState_def loadVerifierState_def
      dest!: replace_file_target(1))

lemma load_same_file:
  "disk' path = disk path \<Longrightarrow> loadVerifierState path disk' st = loadVerifierState path disk st"
  by (simp add: loadVerifierState_def)

lemma commit_vinv:
  assumes inv: "vinv P cfg s" and tk: "tk \<in> set (sy_tickets s)" and path: "vc_StatePath cfg \<noteq> ''''"
    and c: "capacity_commit P cfg ident os tk (sy_state s, sy_disk s) = (reply, state', disk')"
    and len: "length (sy_log s) < 2 ^ 64"
  shows "vinv P cfg \<lparr>sy_state = state', sy_disk = disk', sy_tickets = remove1 tk (sy_tickets s),
           sy_log = sy_log s @ (if stores (sy_state s) tk reply then [tk] else [])\<rparr>" (is "vinv P cfg ?s'")
  using c
proof (cases rule: commit_cases)
  case stored
  let ?p = "cr_PEPID (tk_req tk)"
  let ?L = "log_of ?p s"
  have st: "stores (sy_state s) tk reply" using stored by (simp add: stores_def)
  have sync: "synced P cfg q s" for q using inv by (simp add: vinv_def)
  from inv tk obtain K where K: "prefix K ?L" "tk_previous tk = head_cp K"
      "accepts P cfg ?p (head_cp K) (head_active K) tk"
    by (auto simp: vinv_def ticket_ok_def)
  have "length ?L < 2 ^ 64"
    using len length_filter_le [of _ "sy_log s"] unfolding log_of_def by (rule le_less_trans [rotated])
  moreover have "head_cp K = head_cp ?L" "accepted_chain P cfg ?p ?L"
    using sync [of ?p] stored(1) K(2) by (simp_all add: synced_def)
  ultimately have "K = ?L" using head_cp_unique K(1) by blast
  with K have acc: "accepts P cfg ?p (head_cp ?L) (head_active ?L) tk" by simp
  have "synced P cfg q ?s'" for q
    using sync [of q] acc st stored by (cases "q = ?p") (simp_all add: synced_def log_of_def update_conv')
  moreover have "ticket_ok P cfg ?s' tk'" if "tk' \<in> set (sy_tickets ?s')" for tk'
    using that inv notin_set_remove1 [of tk' _ tk] by (intro ticket_ok_log [of ?s' s]) (auto simp: vinv_def)
  ultimately show ?thesis using saved_on_disk [OF path stored(6)] by (simp add: vinv_def on_disk_def)
next
  case failed
  with inv show ?thesis
    by (auto simp: vinv_def synced_def log_of_def ticket_ok_def on_disk_def stores_def
        load_same_file [of disk' _ "sy_disk s"] dest: notin_set_remove1)
next
  case stale
  with inv show ?thesis
    by (auto simp: vinv_def synced_def log_of_def ticket_ok_def on_disk_def stores_def dest: notin_set_remove1)
qed

lemma vstep_vinv:
  assumes "vstep P cfg ident enrolled s s'" "vinv P cfg s" "vc_StatePath cfg \<noteq> ''''" "length (sy_log s) < 2 ^ 64"
  shows "vinv P cfg s'"
  using assms(1)
proof cases
  case (prepare now r tk)
  have "ticket_ok P cfg s tk" using prepare(2) assms(2) by (intro prepare_ticket_ok) (auto simp: vinv_def)
  with assms(2) prepare(1) show ?thesis
    by (auto simp: vinv_def synced_def log_of_def on_disk_def ticket_ok_def)
next
  case (commit tk os reply state' disk')
  with commit_vinv [OF assms(2) _ assms(3) _ assms(4)] show ?thesis by blast
next
  case (restart state')
  with assms(2) show ?thesis by (simp add: vinv_def synced_def log_of_def on_disk_def)
qed

lemma vstep_log: "vstep P cfg ident enrolled s s' \<Longrightarrow> \<exists>xs. sy_log s' = sy_log s @ xs"
  by (cases rule: vstep.cases) auto

text \<open>
  The counters of the evidence have 64 bits, so that the invariant holds up to that many accepted
  checkpoints. The state file must be configured.
\<close>

interpretation verifier_run: logged_system "vstep P cfg ident enrolled" "\<lambda>s. vc_StatePath cfg \<noteq> '''' \<and> vinv P cfg s" sy_log "2 ^ 64"
  for P cfg ident enrolled
  using vstep_log [of P cfg ident enrolled] vstep_vinv [of P cfg ident enrolled] by unfold_locales fastforce+

lemma vinit_vinv: "disk (vc_StatePath cfg) = None \<Longrightarrow> vinv P cfg (vinit disk)"
  by (simp add: vinv_def synced_def log_of_def vinit_def on_disk_def loadVerifierState_def new_verifier_state_def)

lemma reachable_vinv:
  assumes "(vstep P cfg ident enrolled)\<^sup>*\<^sup>* (vinit disk) s" "vc_StatePath cfg \<noteq> ''''"
    "disk (vc_StatePath cfg) = None" "length (sy_log s) < 2 ^ 64"
  shows "vinv P cfg s"
  using verifier_run.good_reachable [OF assms(1)] vinit_vinv [of disk cfg P] assms(2-4) by blast

lemma commit_reply_sound:
  assumes "capacity_commit P cfg ident os tk (state, disk) = (reply, state', disk')"
  shows "(\<exists>t. reply = HttpToken t) \<or> state' = state \<and> disk' (vc_StatePath cfg) = disk (vc_StatePath cfg)"
  using assms by (cases rule: commit_cases) auto

text \<open>What a token, fresh or replayed, says of the request that obtained it.\<close>

definition token_for ::
  "prims \<Rightarrow> verifierConfig \<Rightarrow> CapacityRequest \<Rightarrow> HistoryEvidence \<Rightarrow> CapacityToken \<Rightarrow> bool" where
  "token_for P cfg req history tok \<longleftrightarrow>
     ct_VerifierID tok = vc_VerifierID cfg \<and> ct_PEPID tok = cp_PEPID (he_Checkpoint history)
     \<and> ct_PEPSigningPubKey tok = cr_PEPSigningPubKey req
     \<and> ct_Measurement tok = cr_Measurement req \<and> ct_PolicyHash tok = cr_PolicyHash req
     \<and> ct_MaxSALifetime tok = cr_MaxSALifetime req \<and> ct_ObserverProfile tok = vc_RequiredObserver cfg
     \<and> sameStringsUnordered (slice (ct_Scope tok)) (cr_Scope req)
     \<and> ct_CheckpointHash tok = HashEnforcementCheckpoint P (he_Checkpoint history)
     \<and> VerifyEnforcementCheckpoint P (he_Checkpoint history) (cr_PEPSigningPubKey req) = Inr ()"

lemma retry_token_for:
  assumes "acceptedCheckpointRetry P history req cfg current tok0 key vkey = Some tok" "cr_PEPSigningPubKey req = key"
  shows "token_for P cfg req history tok"
  using retry_elim [OF assms(1)] assms(2) by (simp add: token_for_def)

lemma signed_new_token:
  assumes "SignCapacityToken P (new_token cfg req now h n) k = Inr tok"
  obtains s where "tok = (new_token cfg req now h n)\<lparr>ct_Signature := s\<rparr>"
  using capacity.sign_shape [OF assms] by blast

lemma sameStringsUnordered_refl [simp]: "sameStringsUnordered xs xs"
  by (simp add: sameStringsUnordered_mset)

lemma prepared_token_for:
  assumes "capacity_prepare P cfg ident enrolled now r state = Inr tk"
  shows "token_for P cfg (tk_req tk) (tk_history tk) (tk_signed tk)"
proof -
  from prepare_elim(5) [OF assms] obtain s where
    "tk_signed tk = (new_token cfg (tk_req tk) now (HashEnforcementCheckpoint P (he_Checkpoint (tk_history tk)))
       (cp_Epoch (he_Checkpoint (tk_history tk))))\<lparr>ct_Signature := s\<rparr>"
    by (rule signed_new_token)
  moreover have "cp_PEPID (he_Checkpoint (tk_history tk)) = cr_PEPID (tk_req tk)"
    "VerifyEnforcementCheckpoint P (he_Checkpoint (tk_history tk)) (cr_PEPSigningPubKey (tk_req tk)) = Inr ()"
    using prepare_elim(3) [OF assms] by (simp_all add: evidence_ok_def Let_def)
  ultimately show ?thesis by (simp add: token_for_def new_token_def)
qed

lemma handler_token:
  assumes "capacityHandler P cfg ident enrolled now os r (state, disk) = (HttpToken tok, state', disk')"
  obtains req key history where "capacity_guards cfg enrolled r = Inr (req, key, history)"
    "token_for P cfg req history tok"
    "map_of (vs_checkpoints state') (cr_PEPID req) = Some (he_Checkpoint history)"
proof (cases "capacity_prepare P cfg ident enrolled now r state")
  case (Inl reply)
  with assms have "capacity_prepare P cfg ident enrolled now r state = Inl (HttpToken tok)" "state' = state"
    by (simp_all add: capacityHandler_def)
  then obtain req key history current where g: "capacity_guards cfg enrolled r = Inr (req, key, history)"
    "map_of (vs_checkpoints state) (cr_PEPID req) = Some current"
    "acceptedCheckpointRetry P history req cfg current (token_at (vs_lastTokens state) (cr_PEPID req)) key
       (id_PublicKey ident) = Some tok"
    by (elim prepare_token)
  have "cr_PEPSigningPubKey req = key" using g(1) by (rule guards_elim)
  then show ?thesis
    using that [OF g(1)] retry_elim(2) [OF g(3)] retry_token_for [OF g(3)] g(2) \<open>state' = state\<close> by simp
next
  case (Inr tk)
  with assms have c: "capacity_commit P cfg ident os tk (state, disk) = (HttpToken tok, state', disk')"
    by (simp add: capacityHandler_def)
  have "map_of (vs_checkpoints state) (cr_PEPID (tk_req tk)) = tk_previous tk"
    using prepare_elim(2) [OF Inr] by simp
  with c have "tok = tk_signed tk"
    "map_of (vs_checkpoints state') (cr_PEPID (tk_req tk)) = Some (he_Checkpoint (tk_history tk))"
    by (cases rule: commit_cases; simp add: update_conv')+
  with prepare_elim(1) [OF Inr] prepared_token_for [OF Inr] show ?thesis by (auto intro: that)
qed

text \<open>When a request gets past the first critical section.\<close>

lemma prepare_complete:
  assumes "capacity_guards cfg enrolled r = Inr (req, key, history)"
    and "map_of (vs_checkpoints state) (cr_PEPID req) = prev" "prev \<noteq> Some (he_Checkpoint history)"
    and "evidence_ok P history (cr_PEPID req) key prev"
    and "verifyEnforcementPolicy history req (slice (map_of (vs_activeStates state) (cr_PEPID req)))
           [vc_RequiredObserver cfg] = Inr A"
    and "decodePrivateKey (id_PrivateKey ident) = Inr priv"
  obtains tk where "capacity_prepare P cfg ident enrolled now r state = Inr tk" "tk_req tk = req"
    "tk_history tk = history" "tk_active tk = A" "tk_previous tk = prev"
proof -
  have key: "cr_PEPSigningPubKey req = key" using assms(1) by (rule guards_elim)
  have retry: "acceptedCheckpointRetry P history req cfg c tok key vk = None" if "prev = Some c" for c tok vk
    using that assms(3) by (auto simp: acceptedCheckpointRetry_def)
  obtain tok where "SignCapacityToken P (new_token cfg req now (HashEnforcementCheckpoint P (he_Checkpoint history))
      (cp_Epoch (he_Checkpoint history))) (id_PrivateKey ident) = Inr tok"
    using capacity.sign_law [OF assms(6)] by blast
  moreover have "VerifyHistoryEvidence P history (cr_PEPID req) key prev
      = Inr (HashEnforcementCheckpoint P (he_Checkpoint history))"
    using assms(4) by (simp add: VerifyHistoryEvidence_iff)
  ultimately have "capacity_prepare P cfg ident enrolled now r state = Inr \<lparr>tk_req = req, tk_key = key,
      tk_history = history, tk_previous = prev, tk_active = A, tk_signed = tok\<rparr>"
    using assms(1,2,5) key retry
    by (auto simp: capacity_prepare_def Let_def copyTrackedSessions_def split: option.splits)
  from that [OF this] show thesis by simp
qed

lemma save_fine: "\<exists>disk'. savePersistentVerifierState os_fine path d disk = (Inr (), disk')"
  by (simp add: savePersistentVerifierState_def replace_file_def os_fine_def Let_def)

lemma commit_complete:
  assumes "map_of (vs_checkpoints state) (cr_PEPID (tk_req tk)) = tk_previous tk"
  obtains state' disk' where "capacity_commit P cfg ident os_fine tk (state, disk) = (HttpToken (tk_signed tk), state', disk')"
    "map_of (vs_checkpoints state') (cr_PEPID (tk_req tk)) = Some (he_Checkpoint (tk_history tk))"
    "map_of (vs_activeStates state') (cr_PEPID (tk_req tk)) = Some (tk_active tk)"
    "map_of (vs_lastTokens state') (cr_PEPID (tk_req tk)) = Some (tk_signed tk)"
proof -
  let ?p = "cr_PEPID (tk_req tk)"
  let ?st = "\<lparr>vs_checkpoints = AList.update ?p (he_Checkpoint (tk_history tk)) (copyCheckpoints (vs_checkpoints state)),
    vs_activeStates = AList.update ?p (tk_active tk) (copyAllActiveStates (vs_activeStates state)),
    vs_lastTokens = AList.update ?p (tk_signed tk) (copyCapacityTokens (vs_lastTokens state))\<rparr>"
  obtain disk' where "saveVerifierState os_fine (vc_StatePath cfg) ?st disk = (Inr (), disk')"
    unfolding saveVerifierState_def using save_fine by blast
  with assms have "capacity_commit P cfg ident os_fine tk (state, disk) = (HttpToken (tk_signed tk), ?st, disk')"
    by (simp add: capacity_commit_def saveVerifierState_def Let_def)
  from that [OF this] show thesis by (simp add: update_conv')
qed

text \<open>A fresh token is valid from its issue (less five seconds) to its expiry.\<close>

lemma new_token_current:
  assumes "four_digit_year now" "four_digit_year (now + dur_seconds (vc_TokenTTLSeconds cfg))"
    and "now - 5 * Second \<le> t" "t < (now + dur_seconds (vc_TokenTTLSeconds cfg)) div Second * Second"
  shows "token_current t (new_token cfg req now h n)"
proof -
  have "now div Second * Second \<le> now" by (simp add: Second_def)
  with assms show ?thesis by (simp add: token_current_def new_token_def Parse_Format)
qed

lemma truncate_less: "0 < n \<Longrightarrow> t div Second * Second < (t + n * Second) div Second * Second"
  by (simp add: Second_def)

lemma retry_complete:
  assumes "VerifyEnforcementCheckpoint P (he_Checkpoint history) key = Inr ()"
    and "tok = (new_token cfg req now (HashEnforcementCheckpoint P (he_Checkpoint history)) n)\<lparr>ct_Signature := s\<rparr>"
    and "s \<noteq> ''''" "cr_PEPID req = cp_PEPID (he_Checkpoint history)" "cr_PEPSigningPubKey req = key"
    and "four_digit_year now" "VerifyCapacityToken P tok vkey (now div Second * Second) = Inr ()"
  shows "acceptedCheckpointRetry P history req cfg (he_Checkpoint history) tok key vkey = Some tok"
  using assms by (simp add: acceptedCheckpointRetry_def Let_def new_token_def Parse_Format)

lemma retry_prepare:
  assumes "capacity_guards cfg enrolled r = Inr (req, key, history)"
    and "map_of (vs_checkpoints state) (cr_PEPID req) = Some c"
    and "acceptedCheckpointRetry P history req cfg c (token_at (vs_lastTokens state) (cr_PEPID req)) key
           (id_PublicKey ident) = Some tok"
  shows "capacity_prepare P cfg ident enrolled now r state = Inl (HttpToken tok)"
  using assms by (simp add: capacity_prepare_def Let_def)

text \<open>Enough for the clock and the lifetime of tokens to be printed and read back.\<close>

definition clock_ok :: "verifierConfig \<Rightarrow> time \<Rightarrow> bool" where
  "clock_ok cfg now \<longleftrightarrow> 0 < vc_TokenTTLSeconds cfg \<and> vc_TokenTTLSeconds cfg \<le> 9000000000
     \<and> four_digit_year now \<and> four_digit_year (now + vc_TokenTTLSeconds cfg * Second)"

definition key_pair :: "prims \<Rightarrow> Ed25519Identity \<Rightarrow> bool" where
  "key_pair P ident \<longleftrightarrow> (\<exists>priv pub. decodePrivateKey (id_PrivateKey ident) = Inr priv
     \<and> decodePublicKey (id_PublicKey ident) = Inr pub \<and> ed25519_pair P priv pub)"

lemma fresh_token_valid:
  assumes "key_pair P ident" "clock_ok cfg now" "capacity_prepare P cfg ident enrolled now r state = Inr tk"
    and "now - 5 * Second \<le> t" "t < (now + vc_TokenTTLSeconds cfg * Second) div Second * Second"
  shows "VerifyCapacityToken P (tk_signed tk) (id_PublicKey ident) t = Inr ()"
proof -
  from assms(1) obtain priv pub where k: "decodePrivateKey (id_PrivateKey ident) = Inr priv"
    "decodePublicKey (id_PublicKey ident) = Inr pub" "ed25519_pair P priv pub" by (auto simp: key_pair_def)
  from assms(2) have "dur_seconds (vc_TokenTTLSeconds cfg) = vc_TokenTTLSeconds cfg * Second"
    by (simp add: clock_ok_def dur_seconds_small)
  with assms(2,4,5) have "token_current t (new_token cfg req now h n)" for req h n
    by (intro new_token_current) (simp_all add: clock_ok_def)
  with capacity.verify_signed [OF k(3,1,2) _ prepare_elim(5) [OF assms(3)]] show ?thesis by simp
qed

lemma stored_retry:
  assumes "key_pair P ident" "clock_ok cfg now" "capacity_prepare P cfg ident enrolled now r state = Inr tk"
    and "map_of (vs_checkpoints state') (cr_PEPID (tk_req tk)) = Some (he_Checkpoint (tk_history tk))"
    and "map_of (vs_lastTokens state') (cr_PEPID (tk_req tk)) = Some (tk_signed tk)"
  shows "capacity_prepare P cfg ident enrolled now' r state' = Inl (HttpToken (tk_signed tk))"
proof -
  let ?cp = "he_Checkpoint (tk_history tk)"
  from prepare_elim(5) [OF assms(3)] obtain s where
    s: "tk_signed tk = (new_token cfg (tk_req tk) now (HashEnforcementCheckpoint P ?cp) (cp_Epoch ?cp))\<lparr>ct_Signature := s\<rparr>"
    by (rule signed_new_token)
  from assms(1) obtain priv pub where k: "decodePrivateKey (id_PrivateKey ident) = Inr priv" "ed25519_pair P priv pub"
    by (auto simp: key_pair_def)
  have ne: "s \<noteq> ''''"
    using capacity.signed_nonempty [OF k(2,1) prepare_elim(5) [OF assms(3)]] s by simp
  have key: "cr_PEPSigningPubKey (tk_req tk) = tk_key tk" using prepare_elim(1) [OF assms(3)] by (rule guards_elim)
  have cp: "VerifyEnforcementCheckpoint P ?cp (tk_key tk) = Inr ()" "cr_PEPID (tk_req tk) = cp_PEPID ?cp"
    using prepare_elim(3) [OF assms(3)] key by (simp_all add: evidence_ok_def Let_def)
  have y: "four_digit_year now" using assms(2) by (simp add: clock_ok_def)
  have "VerifyCapacityToken P (tk_signed tk) (id_PublicKey ident) (now div Second * Second) = Inr ()"
  proof (rule fresh_token_valid [OF assms(1-3)])
    show "now - 5 * Second \<le> now div Second * Second" by (simp add: Second_def)
    show "now div Second * Second < (now + vc_TokenTTLSeconds cfg * Second) div Second * Second"
      using assms(2) by (intro truncate_less) (simp add: clock_ok_def)
  qed
  from retry_complete [OF cp(1) s ne cp(2) key y this]
  show ?thesis
    using assms(4,5) by (intro retry_prepare [OF prepare_elim(1) [OF assms(3)]]) (simp_all add: token_at_def)
qed

lemma retry_idempotent:
  assumes "key_pair P ident" "clock_ok cfg now"
    and "capacityHandler P cfg ident enrolled now os r (state, disk) = (HttpToken tok, state', disk')"
  shows "capacityHandler P cfg ident enrolled now' os' r (state', disk') = (HttpToken tok, state', disk')"
proof (cases "capacity_prepare P cfg ident enrolled now r state")
  case (Inl reply)
  with assms(3) have p: "capacity_prepare P cfg ident enrolled now r state = Inl (HttpToken tok)"
    and "state' = state" "disk' = disk" by (simp_all add: capacityHandler_def)
  from p have "capacity_prepare P cfg ident enrolled now' r state = Inl (HttpToken tok)"
    by (elim prepare_token) (rule retry_prepare)
  with \<open>state' = state\<close> show ?thesis by (simp add: capacityHandler_def)
next
  case (Inr tk)
  with assms(3) have c: "capacity_commit P cfg ident os tk (state, disk) = (HttpToken tok, state', disk')"
    by (simp add: capacityHandler_def)
  have cur: "map_of (vs_checkpoints state) (cr_PEPID (tk_req tk)) = tk_previous tk"
    using prepare_elim(2) [OF Inr] by simp
  have "tok = tk_signed tk \<and> map_of (vs_checkpoints state') (cr_PEPID (tk_req tk)) = Some (he_Checkpoint (tk_history tk))
    \<and> map_of (vs_lastTokens state') (cr_PEPID (tk_req tk)) = Some (tk_signed tk)"
    using c by (cases rule: commit_cases) (use cur in \<open>auto simp: update_conv'\<close>)
  with stored_retry [OF assms(1,2) Inr, of state' now'] show ?thesis by (simp add: capacityHandler_def)
qed

subsection \<open>Properties\<close>

text \<open>
  (C9) A capacity token is issued, or replayed, only for an enrolled PEP under its enrolled key, with
  the expected measurement and policy hash, a scope (as a multiset, white space aside) that the
  verifier allows, a lifetime within the verifier's limit, over a checkpoint that the PEP signed
  and that is now the recorded one.
\<close>
theorem capacity_token_sound:
  assumes "capacityHandler P cfg ident enrolled now os r (state, disk) = (HttpToken tok, state', disk')"
  shows "\<exists>req history. rq_Method r = ''POST'' \<and> rq_Body r = Some req \<and> cr_History req = Some history
    \<and> ct_PEPID tok = cp_PEPID (he_Checkpoint history)
    \<and> map_option ep_SigningPublicKey (map_of enrolled (cr_PEPID req)) = Some (ct_PEPSigningPubKey tok)
    \<and> (vc_ExpectedMeasurement cfg = '''' \<or> ct_Measurement tok = vc_ExpectedMeasurement cfg)
    \<and> (vc_ExpectedPolicyHash cfg = '''' \<or> ct_PolicyHash tok = vc_ExpectedPolicyHash cfg)
    \<and> sameStringsUnordered (slice (ct_Scope tok)) (cr_Scope req) \<and> scopeSubset (cr_Scope req) (vc_AllowedScope cfg)
    \<and> 0 < ct_MaxSALifetime tok \<and> ct_MaxSALifetime tok \<le> cr_MaxSALifetime req
    \<and> (vc_MaxSALifetime cfg \<le> 0 \<or> ct_MaxSALifetime tok \<le> vc_MaxSALifetime cfg)
    \<and> ct_ObserverProfile tok = vc_RequiredObserver cfg
    \<and> ct_CheckpointHash tok = HashEnforcementCheckpoint P (he_Checkpoint history)
    \<and> VerifyEnforcementCheckpoint P (he_Checkpoint history) (ct_PEPSigningPubKey tok) = Inr ()
    \<and> map_of (vs_checkpoints state') (cr_PEPID req) = Some (he_Checkpoint history)"
proof -
  obtain req key history where g: "capacity_guards cfg enrolled r = Inr (req, key, history)"
    and t: "token_for P cfg req history tok" "map_of (vs_checkpoints state') (cr_PEPID req) = Some (he_Checkpoint history)"
    by (rule handler_token [OF assms])
  from g obtain req0 where "rq_Method r = ''POST''" "rq_Body r = Some req0"
    "req = req0\<lparr>cr_MaxSALifetime := if vc_MaxSALifetime cfg > 0 then min (cr_MaxSALifetime req0) (vc_MaxSALifetime cfg)
                                       else cr_MaxSALifetime req0\<rparr>"
    "0 < cr_MaxSALifetime req" "map_option ep_SigningPublicKey (map_of enrolled (cr_PEPID req)) = Some key"
    "cr_PEPSigningPubKey req = key" "vc_ExpectedMeasurement cfg \<in> {'''', cr_Measurement req}"
    "vc_ExpectedPolicyHash cfg \<in> {'''', cr_PolicyHash req}"
    "scopeSubset (cr_Scope req) (vc_AllowedScope cfg)" "cr_History req = Some history"
    by (rule guards_elim)
  with t show ?thesis
    by (intro exI [of _ req0] exI [of _ history]) (auto simp: token_for_def min_def split: if_splits)
qed

text \<open>
  A request that is answered with an error changes neither the state of the verifier nor the
  stored state file.
\<close>
theorem capacity_error_unchanged:
  assumes "capacityHandler P cfg ident enrolled now os r (state, disk) = (reply, state', disk')"
    and "\<nexists>tok. reply = HttpToken tok"
  shows "state' = state \<and> disk' (vc_StatePath cfg) = disk (vc_StatePath cfg)"
  using assms commit_reply_sound [of P cfg ident os _ state disk reply state' disk']
  by (auto simp: capacityHandler_def split: sum.splits)

text \<open>
  A token from a history that was verified in this request is accepted by \<^verbatim>\<open>VerifyCapacityToken\<close>
  under the verifier's public key at every time from five seconds before it was issued until its
  expiry.
\<close>
theorem capacity_fresh_token_valid:
  assumes "key_pair P ident" "clock_ok cfg now"
    and "capacity_prepare P cfg ident enrolled now r state = Inr tk"
    and "capacity_commit P cfg ident os tk (state, disk) = (HttpToken tok, state', disk')"
    and "now - 5 * Second \<le> t" "t < (now + vc_TokenTTLSeconds cfg * Second) div Second * Second"
  shows "VerifyCapacityToken P tok (id_PublicKey ident) t = Inr ()"
proof -
  from assms(4) have "tok = tk_signed tk"
    by (cases rule: commit_cases) (use prepare_elim(2) [OF assms(3)] in auto)
  with fresh_token_valid [OF assms(1-3,5,6)] show ?thesis by simp
qed

text \<open>
  Submitting the same request again after it obtained a token returns the same token and changes
  nothing, at any later time and whatever the file system does.
\<close>
theorem capacity_retry_idempotent:
  assumes "key_pair P ident" "clock_ok cfg now"
    and "capacityHandler P cfg ident enrolled now os r (state, disk) = (HttpToken tok, state', disk')"
  shows "capacityHandler P cfg ident enrolled now' os' r (state', disk') = (HttpToken tok, state', disk')"
  by (rule retry_idempotent [OF assms])

text \<open>
  (C4) No fork: under any interleaving of requests and any restarts from the state file, the stored
  checkpoints of a PEP form one sequence in which each was verified against the one before it and
  against the sessions that one left active; the state holds its last checkpoint and active sessions.
\<close>
theorem verifier_no_fork:
  assumes "(vstep P cfg ident enrolled)\<^sup>*\<^sup>* (vinit disk) s" and "vc_StatePath cfg \<noteq> ''''"
    and "disk (vc_StatePath cfg) = None" and "length (sy_log s) < 2 ^ 64"
  shows "accepted_chain P cfg p (log_of p s)
    \<and> map_of (vs_checkpoints (sy_state s)) p = head_cp (log_of p s)
    \<and> slice (map_of (vs_activeStates (sy_state s)) p) = head_active (log_of p s)"
  using reachable_vinv [OF assms] by (simp add: vinv_def synced_def)

text \<open>
  (C22) A restart loses nothing: in every reachable state the file, read back into a fresh verifier,
  gives the state in memory.
\<close>
theorem verifier_restart_lossless:
  assumes "(vstep P cfg ident enrolled)\<^sup>*\<^sup>* (vinit disk) s" and "vc_StatePath cfg \<noteq> ''''"
    and "disk (vc_StatePath cfg) = None" and "length (sy_log s) < 2 ^ 64"
  shows "loadVerifierState (vc_StatePath cfg) (sy_disk s) new_verifier_state = Inr (sy_state s)"
  using reachable_vinv [OF assms] by (simp add: vinv_def on_disk_def)

text \<open>
  The events a PEP got accepted over its whole life are one hash chain: consecutive indices from 1,
  each event carrying the hash of its predecessor, across all checkpoints.
\<close>
theorem accepted_events_chained:
  assumes "accepted_chain P cfg p L"
  shows "chained P p '''' 0 (concat (map (he_Events \<circ> tk_history) L))"
proof -
  have "chained P p '''' 0 (concat (map (he_Events \<circ> tk_history) L))
    \<and> end_hash '''' (concat (map (he_Events \<circ> tk_history) L)) = prev_last_hash (head_cp L)
    \<and> end_index 0 (concat (map (he_Events \<circ> tk_history) L)) = prev_last_index (head_cp L)"
    using assms
  proof (induction L rule: rev_induct)
    case (snoc tk L)
    from snoc show ?case
      by (simp add: accepts_def evidence_ok_def Let_def chained_append end_append) (simp add: prev_last_hash_def prev_last_index_def)
  qed (simp add: prev_last_hash_def prev_last_index_def)
  then show ?thesis by blast
qed

subsection \<open>Examples\<close>

definition ex_pub :: string where "ex_pub = base64_EncodeToString (replicate 32 1)"
definition ex_ident :: Ed25519Identity where
  "ex_ident = \<lparr>id_PublicKey = ex_pub, id_PrivateKey = base64_EncodeToString (replicate 64 1)\<rparr>"
definition ex_enrolled :: "enrolledPEP smap" where "ex_enrolled = [(''pep'', \<lparr>ep_SigningPublicKey = ex_pub\<rparr>)]"

definition ex_evidence :: HistoryEvidence where
  "ex_evidence = \<lparr>he_PreviousCheckpointHash = '''', he_Events = [],
     he_Checkpoint = (ex_checkpoint ''2025-01-01T00:00:05Z'')\<lparr>cp_LastEventIndex := 0, cp_EventCount := 0,
        cp_Signature := base64_EncodeToString (replicate 64 1)\<rparr>\<rparr>"

definition ex_request :: http_request where
  "ex_request = \<lparr>rq_Method = ''POST'',
     rq_Body = Some (ex_req\<lparr>cr_PEPSigningPubKey := ex_pub, cr_History := Some ex_evidence\<rparr>)\<rparr>"

definition ex_cfg :: verifierConfig where
  "ex_cfg = (verifier_config (\<lambda>_. None))\<lparr>vc_AllowedScope := [''svc''], vc_StatePath := ''st''\<rparr>"

lemma ex_cfg_simps:
  "vc_ExpectedMeasurement ex_cfg = ''''" "vc_ExpectedPolicyHash ex_cfg = ''''" "vc_MaxSALifetime ex_cfg = 60"
  "scopeSubset [''svc''] (vc_AllowedScope ex_cfg)"
  by code_simp+

lemma ex_guards:
  "capacity_guards ex_cfg ex_enrolled ex_request
     = Inr (ex_req\<lparr>cr_PEPSigningPubKey := ex_pub, cr_History := Some ex_evidence\<rparr>, ex_pub, ex_evidence)"
  by (simp add: capacity_guards_def Let_def ex_cfg_simps ex_enrolled_def ex_request_def ex_req_def ex_pub_def
      base64_Encode_nonempty)

lemma ex_keys: "decodePrivateKey (id_PrivateKey ex_ident) = Inr (replicate 64 1)" "key_pair demo_prims ex_ident"
  by (simp_all add: key_pair_def ex_ident_def ex_pub_def decodePrivateKey_def decodePublicKey_def
      ed25519_PrivateKeySize_def ed25519_PublicKeySize_def)

lemma ex_clock: "clock_ok ex_cfg (1735689600 * Second)"
  by code_simp

lemma ex_evidence_ok: "evidence_ok demo_prims ex_evidence ''pep'' ex_pub None"
proof -
  have "VerifyEnforcementCheckpoint demo_prims (he_Checkpoint ex_evidence) ex_pub = Inr ()"
    by (simp add: VerifyEnforcementCheckpoint_iff sig_ok_def ex_evidence_def ex_pub_def decodePublicKey_def
        ed25519_PublicKeySize_def ed25519_SignatureSize_def demo_prims_def)
  moreover have "Parse_RFC3339 ''2025-01-01T00:00:05Z'' \<noteq> None" by code_simp
  ultimately show ?thesis by (simp add: evidence_ok_def Let_def ex_evidence_def ex_checkpoint_def prev_defs)
qed

lemma ex_policy:
  "verifyEnforcementPolicy ex_evidence (ex_req\<lparr>cr_PEPSigningPubKey := ex_pub, cr_History := Some ex_evidence\<rparr>) []
     [vc_RequiredObserver ex_cfg] = Inr []"
  by code_simp

lemma ex_prepared:
  obtains tk where "capacity_prepare demo_prims ex_cfg ex_ident ex_enrolled now ex_request new_verifier_state = Inr tk"
    "tk_req tk = ex_req\<lparr>cr_PEPSigningPubKey := ex_pub, cr_History := Some ex_evidence\<rparr>" "tk_previous tk = None"
  by (rule prepare_complete [OF ex_guards, of new_verifier_state None demo_prims _ _ _ now])
    (auto simp: new_verifier_state_def ex_policy ex_keys intro: that,
     simp add: ex_req_def ex_evidence_ok)

lemma ex_handled:
  obtains tok state' disk' where
    "capacityHandler demo_prims ex_cfg ex_ident ex_enrolled now os_fine ex_request (new_verifier_state, disk)
       = (HttpToken tok, state', disk')"
proof -
  obtain tk where tk: "capacity_prepare demo_prims ex_cfg ex_ident ex_enrolled now ex_request new_verifier_state = Inr tk"
    "tk_previous tk = None" by (rule ex_prepared)
  then have "map_of (vs_checkpoints new_verifier_state) (cr_PEPID (tk_req tk)) = tk_previous tk"
    by (simp add: new_verifier_state_def)
  then obtain state' disk' where
    "capacity_commit demo_prims ex_cfg ex_ident os_fine tk (new_verifier_state, disk) = (HttpToken (tk_signed tk), state', disk')"
    by (rule commit_complete)
  with tk(1) that show thesis by (simp add: capacityHandler_def)
qed

abbreviation (input) ex_now :: time where "ex_now \<equiv> 1735689600 * Second"

lemma ex_run:
  obtains s where "(vstep demo_prims ex_cfg ex_ident ex_enrolled)\<^sup>*\<^sup>* (vinit Map.empty) s"
    "length (log_of ''pep'' s) = 1" "length (sy_log s) = 1"
proof -
  obtain tk where tk: "capacity_prepare demo_prims ex_cfg ex_ident ex_enrolled ex_now ex_request new_verifier_state = Inr tk"
    "tk_req tk = ex_req\<lparr>cr_PEPSigningPubKey := ex_pub, cr_History := Some ex_evidence\<rparr>" "tk_previous tk = None"
    by (rule ex_prepared)
  let ?s1 = "(vinit Map.empty)\<lparr>sy_tickets := [tk]\<rparr>"
  have v1: "vstep demo_prims ex_cfg ex_ident ex_enrolled (vinit Map.empty) ?s1"
    using vstep.prepare [of demo_prims ex_cfg ex_ident ex_enrolled ex_now ex_request "vinit Map.empty" tk] tk(1)
    by (simp add: vinit_def)
  have cur: "map_of (vs_checkpoints new_verifier_state) (cr_PEPID (tk_req tk)) = tk_previous tk"
    using tk(3) by (simp add: new_verifier_state_def)
  then obtain st d where c:
    "capacity_commit demo_prims ex_cfg ex_ident os_fine tk (new_verifier_state, Map.empty) = (HttpToken (tk_signed tk), st, d)"
    by (rule commit_complete)
  have v2: "vstep demo_prims ex_cfg ex_ident ex_enrolled ?s1
      \<lparr>sy_state = st, sy_disk = d, sy_tickets = [], sy_log = [tk]\<rparr>"
    using vstep.commit [of tk ?s1 demo_prims ex_cfg ex_ident os_fine "HttpToken (tk_signed tk)" st d ex_enrolled] c cur
    by (simp add: vinit_def stores_def)
  have "(vstep demo_prims ex_cfg ex_ident ex_enrolled)\<^sup>*\<^sup>* (vinit Map.empty)
      \<lparr>sy_state = st, sy_disk = d, sy_tickets = [], sy_log = [tk]\<rparr>" 
    using v1 v2 by (blast intro: converse_rtranclp_into_rtranclp)
  from that [OF this] show thesis by (simp add: log_of_def tk(2) ex_req_def)
qed

lemma ex_path: "vc_StatePath ex_cfg \<noteq> ''''" "vc_RequiredObserver ex_cfg = ''posthoc''"
  by code_simp+

theorem capacity_token_sound_witness:
  "\<exists>tok state' disk'. capacityHandler demo_prims ex_cfg ex_ident ex_enrolled ex_now os_fine ex_request
      (new_verifier_state, Map.empty) = (HttpToken tok, state', disk') \<and> ct_ObserverProfile tok = ''posthoc''"
proof -
  obtain tok state' disk' where h: "capacityHandler demo_prims ex_cfg ex_ident ex_enrolled ex_now os_fine ex_request
      (new_verifier_state, Map.empty) = (HttpToken tok, state', disk')" by (rule ex_handled)
  from capacity_token_sound [OF h] have "ct_ObserverProfile tok = vc_RequiredObserver ex_cfg" by (elim exE conjE)
  then have "ct_ObserverProfile tok = ''posthoc''" by (simp only: ex_path)
  with h show ?thesis by blast
qed

theorem capacity_error_unchanged_witness:
  "fst (snd (capacityHandler demo_prims ex_cfg ex_ident ex_enrolled ex_now os_fine (ex_request\<lparr>rq_Method := ''GET''\<rparr>)
     (new_verifier_state, Map.empty))) = new_verifier_state"
proof -
  have "capacityHandler demo_prims ex_cfg ex_ident ex_enrolled ex_now os_fine (ex_request\<lparr>rq_Method := ''GET''\<rparr>)
     (new_verifier_state, Map.empty) = (HttpError 405 ''method not allowed'', new_verifier_state, Map.empty)"
    by (simp add: capacityHandler_def capacity_prepare_def capacity_guards_def)
  from capacity_error_unchanged [OF this] this show ?thesis by simp
qed

theorem capacity_fresh_token_valid_witness:
  "\<exists>tok. VerifyCapacityToken demo_prims tok ex_pub ex_now = Inr ()"
proof -
  obtain tk where tk: "capacity_prepare demo_prims ex_cfg ex_ident ex_enrolled ex_now ex_request new_verifier_state = Inr tk"
    "tk_previous tk = None" by (rule ex_prepared)
  then have "map_of (vs_checkpoints new_verifier_state) (cr_PEPID (tk_req tk)) = tk_previous tk"
    by (simp add: new_verifier_state_def)
  then obtain st d where
    "capacity_commit demo_prims ex_cfg ex_ident os_fine tk (new_verifier_state, Map.empty) = (HttpToken (tk_signed tk), st, d)"
    by (rule commit_complete)
  moreover have "ex_now - 5 * Second \<le> ex_now"
    "ex_now < (ex_now + vc_TokenTTLSeconds ex_cfg * Second) div Second * Second" by code_simp+
  ultimately have "VerifyCapacityToken demo_prims (tk_signed tk) (id_PublicKey ex_ident) ex_now = Inr ()"
    by (rule capacity_fresh_token_valid [OF ex_keys(2) ex_clock tk(1)])
  then show ?thesis by (auto simp: ex_ident_def)
qed

theorem capacity_retry_idempotent_witness:
  "\<exists>tok st d. capacityHandler demo_prims ex_cfg ex_ident ex_enrolled (ex_now + Second) os_fine ex_request (st, d)
     = (HttpToken tok, st, d)"
proof -
  obtain tok state' disk' where "capacityHandler demo_prims ex_cfg ex_ident ex_enrolled ex_now os_fine ex_request
      (new_verifier_state, Map.empty) = (HttpToken tok, state', disk')" by (rule ex_handled)
  from capacity_retry_idempotent [OF ex_keys(2) ex_clock this] show ?thesis by blast
qed

theorem verifier_no_fork_witness:
  "\<exists>s :: vsystem. length (log_of ''pep'' s) = 1 \<and> map_of (vs_checkpoints (sy_state s)) ''pep'' = head_cp (log_of ''pep'' s)"
proof -
  obtain s where "(vstep demo_prims ex_cfg ex_ident ex_enrolled)\<^sup>*\<^sup>* (vinit Map.empty) s"
    "length (log_of ''pep'' s) = 1" "length (sy_log s) = 1" by (rule ex_run)
  with verifier_no_fork [OF this(1) ex_path(1), of "''pep''"] show ?thesis by auto
qed

theorem verifier_restart_lossless_witness:
  "\<exists>s :: vsystem. length (sy_log s) = 1 \<and> loadVerifierState ''st'' (sy_disk s) new_verifier_state = Inr (sy_state s)"
proof -
  obtain s where "(vstep demo_prims ex_cfg ex_ident ex_enrolled)\<^sup>*\<^sup>* (vinit Map.empty) s" "length (sy_log s) = 1"
    by (rule ex_run)
  with verifier_restart_lossless [OF this(1) ex_path(1)] show ?thesis by (auto simp: ex_cfg_def)
qed

theorem accepted_events_chained_witness:
  "\<exists>L :: ticket list. length L = 1 \<and> chained demo_prims ''pep'' '''' 0 (concat (map (he_Events \<circ> tk_history) L))"
proof -
  obtain s where s: "(vstep demo_prims ex_cfg ex_ident ex_enrolled)\<^sup>*\<^sup>* (vinit Map.empty) s"
    "length (log_of ''pep'' s) = 1" "length (sy_log s) = 1" by (rule ex_run)
  with reachable_vinv [OF s(1) ex_path(1)] have "accepted_chain demo_prims ex_cfg ''pep'' (log_of ''pep'' s)"
    by (simp add: vinv_def synced_def)
  from accepted_events_chained [OF this] s(2) show ?thesis by blast
qed

end
