(* ===== verification/Pep_Attestation.thy ===== *)
theory Pep_Attestation
  imports Pep_Cleanup Verifier
begin

text \<open>
  \<^verbatim>\<open>pep/attestation.go\<close>: the configuration, the capacity token that the PEP keeps and renews, the
  check of the verifier's reply, the bound on SA lifetimes and the signature of SA bindings. The
  background loop of \<open>startAttestation\<close> is a sequence of calls of \<open>ensureCapacityToken\<close>.
\<close>

definition getenvBool :: "env \<Rightarrow> string \<Rightarrow> bool \<Rightarrow> bool" where
  "getenvBool env k fallback =
     (let v = strings_ToLower (strings_TrimSpace (getenv env k '''')) in
      if v = '''' then fallback else v = ''1'' \<or> v = ''true'' \<or> v = ''yes'' \<or> v = ''on'')"

subsection \<open>The signing key\<close>

text \<open>
  The key file: \<open>None\<close> if it cannot be opened, \<open>Torn\<close> if it does not decode. A fresh identity, or the
  failure to generate one, is an input.
\<close>

datatype key_error = KeyDecode | KeyGenerate | KeySave os_error

definition loadOrGeneratePEPAttestationKey ::
  "string \<Rightarrow> Ed25519Identity option \<Rightarrow> os_result \<Rightarrow> Ed25519Identity disk \<Rightarrow> (key_error + Ed25519Identity) \<times> Ed25519Identity disk" where
  "loadOrGeneratePEPAttestationKey path generated os disk =
     (let generate =
        (case generated of None \<Rightarrow> (Inl KeyGenerate, disk)
         | Some k \<Rightarrow>
           if path \<noteq> '''' then
             (case replace_file os path k disk of
                (Inl e, disk) \<Rightarrow> (Inl (KeySave e), disk)
              | (Inr _, disk) \<Rightarrow> (Inr k, disk))
           else (Inr k, disk)) in
      if path = '''' then generate
      else case disk path of
        None \<Rightarrow> generate
      | Some Torn \<Rightarrow> (Inl KeyDecode, disk)
      | Some (Doc k) \<Rightarrow> if id_PublicKey k \<noteq> '''' \<and> id_PrivateKey k \<noteq> '''' then (Inr k, disk) else generate)"

subsection \<open>Configuration\<close>

text \<open>
  \<open>None\<close> is \<^verbatim>\<open>log.Fatal\<close>. The key is the result of loading or generating it.
\<close>

definition attestation_config :: "env \<Rightarrow> Ed25519Identity option \<Rightarrow> pepAttestationState option" where
  "attestation_config env key =
     (case key of None \<Rightarrow> None
      | Some k \<Rightarrow>
        let serviceID = getenv env ''PEP_ATTESTATION_SCOPE'' ''svc-http'';
            maxLifetime = pep_getenvInt env ''PEP_CAPACITY_MAX_SA_LIFETIME_SECONDS'' (pep_getenvInt env ''SA_LIFETIME_SECONDS'' 60);
            verifierPubKey = strings_TrimSpace (getenv env ''PEP_VERIFIER_PUBLIC_KEY'' '''') in
        if verifierPubKey = '''' then None
        else Some \<lparr>at_enabled = True, at_pepID = getenv env ''PEP_ID'' ''cryptna-pep-1'',
          at_verifierURL = getenv env ''VERIFIER_URL'' ''http://cryptna-verifier:8080'',
          at_measurement = getenv env ''PEP_MEASUREMENT'' ''cryptna-lab-pep-measurement-v1'',
          at_policyHash = getenv env ''PEP_POLICY_HASH'' ''cryptna-lab-policy-v1'',
          at_scope = split_at (CHR '','') serviceID, at_maxSALifetime = maxLifetime, at_verifierPubKey = verifierPubKey,
          at_requiredObserver = strings_ToLower (getenv env ''PEP_REQUIRED_OBSERVER_PROFILE'' ''posthoc''),
          at_key = k, at_token = None\<rparr>)"

definition disabled_attestation :: pepAttestationState where
  "disabled_attestation =
     \<lparr>at_enabled = False, at_pepID = '''', at_verifierURL = '''', at_measurement = '''', at_policyHash = '''', at_scope = [],
      at_maxSALifetime = 0, at_verifierPubKey = '''', at_requiredObserver = '''',
      at_key = \<lparr>id_PublicKey = '''', id_PrivateKey = ''''\<rparr>, at_token = None\<rparr>"

definition initAttestation :: "'k world \<Rightarrow> Ed25519Identity option \<Rightarrow> 'k pep \<Rightarrow> 'k pep option" where
  "initAttestation W key p =
     (let env = w_env W in
      if \<not> getenvBool env ''PEP_ATTESTATION_ENABLED'' False then Some (p\<lparr>p_attestation := Some disabled_attestation\<rparr>)
      else case attestation_config env key of None \<Rightarrow> None
      | Some a \<Rightarrow>
        let p = p\<lparr>p_attestation := Some a\<rparr>;
            statePath = (if \<not> getenvBool env ''PEP_STATE_PERSISTENCE_ENABLED'' True then ''''
                         else getenv env ''PEP_STATE_PATH'' ''/data/state.json'') in
        (case loadPEPState (w_prims W) statePath (NewEnforcementHistory (at_pepID a)) p of
           (Inl err, p) \<Rightarrow> None
         | (Inr _, p) \<Rightarrow>
           Some (pep_append W eventPEPStart None
             (Some [(''measurement'', at_measurement a), (''policy_hash'', at_policyHash a),
                    (''history_mode'', ''hash-chain-xfrm-observation'')]) p)))"

subsection \<open>Tokens\<close>

datatype token_error =
    TokenInvalid attest_error | CheckpointBindingMismatch | PEPIdentityMismatch | SoftwareProfileMismatch
  | LifetimeExceedsRequest | TokenScopeMismatch | ObserverProfileMismatch

definition sameStringMultiset :: "string list \<Rightarrow> string list \<Rightarrow> bool" where
  "sameStringMultiset left right =
     (if length left \<noteq> length right then False
      else case count_down (count_up [] left) right of None \<Rightarrow> False
      | Some counts \<Rightarrow> list_all (\<lambda>(_, count). count = 0) counts)"

definition validateCapacityToken ::
  "prims \<Rightarrow> time \<Rightarrow> pepAttestationState \<Rightarrow> CapacityToken \<Rightarrow> HistoryEvidence \<Rightarrow> token_error + string" where
  "validateCapacityToken P now s tok evidence =
     (case VerifyCapacityToken P tok (at_verifierPubKey s) now of
        Inl e \<Rightarrow> Inl (TokenInvalid e)
      | Inr _ \<Rightarrow>
        let checkpointHash = HashEnforcementCheckpoint P (he_Checkpoint evidence) in
        if ct_CheckpointHash tok \<noteq> checkpointHash \<or> ct_HistoryEpoch tok \<noteq> cp_Epoch (he_Checkpoint evidence)
        then Inl CheckpointBindingMismatch
        else if ct_PEPID tok \<noteq> at_pepID s \<or> ct_PEPSigningPubKey tok \<noteq> id_PublicKey (at_key s) then Inl PEPIdentityMismatch
        else if ct_Measurement tok \<noteq> at_measurement s \<or> ct_PolicyHash tok \<noteq> at_policyHash s then Inl SoftwareProfileMismatch
        else if ct_MaxSALifetime tok \<le> 0 \<or> ct_MaxSALifetime tok > at_maxSALifetime s then Inl LifetimeExceedsRequest
        else if \<not> sameStringMultiset (slice (ct_Scope tok)) (at_scope s) then Inl TokenScopeMismatch
        else if strings_ToLower (ct_ObserverProfile tok) \<noteq> at_requiredObserver s then Inl ObserverProfileMismatch
        else Inr checkpointHash)"

text \<open>
  \<^verbatim>\<open>int(time.Until(exp).Seconds())\<close> truncates towards zero. (The conversion through a \<^verbatim>\<open>float64\<close> can round
  up by one nanosecond for durations beyond \<open>2 ^ 22\<close> seconds; this is not modelled.)
\<close>

definition whole_seconds :: "duration \<Rightarrow> int" where
  "whole_seconds d = (if d \<ge> 0 then d div Second else - ((- d) div Second))"

datatype lifetime_error = BadExpiry | NoRemainingLifetime

definition boundLifetime :: "time \<Rightarrow> int \<Rightarrow> CapacityToken \<Rightarrow> lifetime_error + int" where
  "boundLifetime now lifetime tok =
     (let lifetime = (if lifetime > ct_MaxSALifetime tok then ct_MaxSALifetime tok else lifetime) in
      case Parse_RFC3339 (ct_ExpiresAt tok) of None \<Rightarrow> Inl BadExpiry
      | Some exp \<Rightarrow>
        let remaining = whole_seconds (time_Sub exp now);
            lifetime = (if remaining < lifetime then remaining else lifetime)
        in if lifetime \<le> 0 then Inl NoRemainingLifetime else Inr lifetime)"

definition sa_binding :: "prims \<Rightarrow> ActivateRequest \<Rightarrow> PEPActivationResponse \<Rightarrow> CapacityToken \<Rightarrow> SABinding" where
  "sa_binding P req resp tok =
     \<lparr>sb_Version = 1, sb_TokenHash = CapacityTokenHash P tok, sb_PEPID = ct_PEPID tok, sb_ClientPubKey = ar_ClientPubKey req,
      sb_ServiceID = pr_ServiceID resp, sb_ServiceIP = pr_ServiceIP resp, sb_ClientInnerIP = pr_ClientInnerIP resp,
      sb_ClientInSPI = pr_ClientInSPI resp, sb_PEPInSPI = pr_PEPInSPI resp, sb_ClientDHPub = ar_ClientDHPub req,
      sb_PEPDHPub = pr_PEPDHPub resp, sb_AEAD = pr_AEAD resp, sb_SALifetime = pr_SALifetime resp,
      sb_ExpiresAt = pr_ExpiresAt resp, sb_Signature = ''''\<rparr>"

definition signSABinding ::
  "prims \<Rightarrow> pepAttestationState \<Rightarrow> ActivateRequest \<Rightarrow> PEPActivationResponse \<Rightarrow> CapacityToken \<Rightarrow> attest_error + SABinding" where
  "signSABinding P s req resp tok = SignSABinding P (sa_binding P req resp tok) (id_PrivateKey (at_key s))"

subsection \<open>Renewal\<close>

datatype renew_error =
    AttestationDisabled | EnforcementUnhealthy | RenewCleanup cleanup_error | BuildFailed hist_error
  | PersistPending os_error | PostFailed | VerifierStatus int | ReplyUndecodable | TokenRefused token_error
  | MarkFailed hist_error | PersistAccepted os_error

definition token_usable :: "time \<Rightarrow> CapacityToken \<Rightarrow> bool" where
  "token_usable now tok =
     (case Parse_RFC3339 (ct_ExpiresAt tok) of None \<Rightarrow> False | Some exp \<Rightarrow> time_Sub exp now > 20 * Second)"

definition capacity_request :: "pepAttestationState \<Rightarrow> HistoryEvidence \<Rightarrow> CapacityRequest" where
  "capacity_request s evidence =
     \<lparr>cr_PEPID = at_pepID s, cr_PEPSigningPubKey = id_PublicKey (at_key s), cr_Measurement = at_measurement s,
      cr_PolicyHash = at_policyHash s, cr_Scope = at_scope s, cr_MaxSALifetime = at_maxSALifetime s, cr_History = Some evidence\<rparr>"

text \<open>The evidence to submit: the pending one, or a new one that is first recorded as pending.\<close>

definition renewal_evidence :: "'k world \<Rightarrow> pepAttestationState \<Rightarrow> 'k pep \<Rightarrow> (renew_error + HistoryEvidence) \<times> 'k pep" where
  "renewal_evidence W s p =
     (case getPendingCapacityEvidence p of
        Some pending \<Rightarrow> (Inr pending, p)
      | None \<Rightarrow>
        let p = pep_append W eventCapacityRequested None (Some [(''scope'', strings_Join '','' (at_scope s))]) p in
        (case BuildEvidence (w_prims W) (w_clock W (p_tick p)) (id_PrivateKey (at_key s)) (p_history p) of
           Inl e \<Rightarrow> (Inl (BuildFailed e), tick p)
         | Inr evidence \<Rightarrow>
           (case setPendingCapacityEvidence W (Some evidence) (tick p) of
              (Inl e, p) \<Rightarrow> (Inl (PersistPending e), p)
            | (Inr _, p) \<Rightarrow> (Inr evidence, p))))"

text \<open>The reply: checked against the evidence, then recorded as accepted.\<close>

definition accept_token ::
  "'k world \<Rightarrow> pepAttestationState \<Rightarrow> HistoryEvidence \<Rightarrow> CapacityToken \<Rightarrow> 'k pep \<Rightarrow> (renew_error + CapacityToken) \<times> 'k pep" where
  "accept_token W s evidence tok p =
     (case validateCapacityToken (w_prims W) (w_clock W (p_tick p)) s tok evidence of
        Inl e \<Rightarrow> (Inl (TokenRefused e), tick p)
      | Inr checkpointHash \<Rightarrow>
        (case MarkCheckpointAccepted (w_prims W) (he_Checkpoint evidence) (p_history p) of
           Inl e \<Rightarrow> (Inl (MarkFailed e), tick p)
         | Inr h \<Rightarrow>
           let p = tick (p\<lparr>p_history := Some h\<rparr>);
               p = pep_append W eventCapacityAccepted None
                     (Some [(''checkpoint_hash'', checkpointHash), (''history_epoch'', utoa (cp_Epoch (he_Checkpoint evidence)))]) p in
           (case setPendingCapacityEvidence W None p of
              (Inl e, p) \<Rightarrow> (Inl (PersistAccepted e), p)
            | (Inr _, p) \<Rightarrow> (Inr tok, p\<lparr>p_attestation := Some (s\<lparr>at_token := Some tok\<rparr>)\<rparr>))))"

definition renew_token :: "'k world \<Rightarrow> pepAttestationState \<Rightarrow> 'k pep \<Rightarrow> (renew_error + CapacityToken) \<times> 'k pep" where
  "renew_token W s p =
     (case cleanupExpiredSessionsUnderHistoryLock W (w_clock W (p_tick p)) (tick p) of
        (Inl e, p) \<Rightarrow> (Inl (RenewCleanup e), p\<lparr>p_healthy := False\<rparr>)
      | (Inr _, p) \<Rightarrow>
        (case renewal_evidence W s p of
           (Inl e, p) \<Rightarrow> (Inl e, p)
         | (Inr evidence, p) \<Rightarrow>
           (case w_post W (p_tick p) (capacity_request s evidence) of
              NoReply \<Rightarrow> (Inl PostFailed, tick p)
            | Status c \<Rightarrow> (Inl (VerifierStatus c), tick p)
            | BadBody \<Rightarrow> (Inl ReplyUndecodable, tick p)
            | Reply tok \<Rightarrow> accept_token W s evidence tok (tick p))))"

definition ensureCapacityToken :: "'k world \<Rightarrow> 'k pep \<Rightarrow> (renew_error + CapacityToken) \<times> 'k pep" where
  "ensureCapacityToken W p =
     (case p_attestation p of None \<Rightarrow> (Inl AttestationDisabled, p)
      | Some s \<Rightarrow>
        if \<not> at_enabled s then (Inl AttestationDisabled, p)
        else if \<not> p_healthy p then (Inl EnforcementUnhealthy, p)
        else case at_token s of
          None \<Rightarrow> renew_token W s p
        | Some tok \<Rightarrow> if token_usable (w_clock W (p_tick p)) tok then (Inr tok, tick p) else renew_token W s (tick p))"

text \<open>\<open>startAttestation\<close>: at most twenty attempts; \<open>None\<close> is \<^verbatim>\<open>log.Fatalf\<close>.\<close>

fun attempts :: "'k world \<Rightarrow> nat \<Rightarrow> 'k pep \<Rightarrow> 'k pep option" where
  "attempts W 0 p = None"
| "attempts W (Suc n) p =
     (case ensureCapacityToken W p of (Inr _, p) \<Rightarrow> Some p | (Inl _, p) \<Rightarrow> attempts W n p)"

definition startAttestation :: "'k world \<Rightarrow> 'k pep \<Rightarrow> 'k pep option" where
  "startAttestation W p =
     (if (case p_attestation p of None \<Rightarrow> True | Some a \<Rightarrow> \<not> at_enabled a) then Some p else attempts W 20 p)"

subsection \<open>Lemmas\<close>

lemma sameStringMultiset_eq: "sameStringMultiset = sameStringsUnordered"
  by (intro ext) (simp add: sameStringMultiset_def sameStringsUnordered_def)

text \<open>What a token that the PEP accepts says.\<close>

definition token_fits :: "prims \<Rightarrow> pepAttestationState \<Rightarrow> CapacityToken \<Rightarrow> bool" where
  "token_fits P s tok \<longleftrightarrow>
     sig_ok P (at_verifierPubKey s) (CapacityTokenSigningBytes tok) (ct_Signature tok)
     \<and> ct_PEPID tok = at_pepID s \<and> ct_PEPSigningPubKey tok = id_PublicKey (at_key s)
     \<and> ct_Measurement tok = at_measurement s \<and> ct_PolicyHash tok = at_policyHash s
     \<and> 0 < ct_MaxSALifetime tok \<and> ct_MaxSALifetime tok \<le> at_maxSALifetime s
     \<and> mset (map strings_TrimSpace (slice (ct_Scope tok))) = mset (map strings_TrimSpace (at_scope s))
     \<and> strings_ToLower (ct_ObserverProfile tok) = at_requiredObserver s"

lemma validate_iff:
  "validateCapacityToken P now s tok ev = Inr h \<longleftrightarrow>
     token_fits P s tok \<and> token_current now tok \<and> h = HashEnforcementCheckpoint P (he_Checkpoint ev)
     \<and> ct_CheckpointHash tok = h \<and> ct_HistoryEpoch tok = cp_Epoch (he_Checkpoint ev)"
proof -
  have "VerifyCapacityToken P tok (at_verifierPubKey s) now = Inr u \<longleftrightarrow>
      token_current now tok \<and> sig_ok P (at_verifierPubKey s) (CapacityTokenSigningBytes tok) (ct_Signature tok)" for u
    using VerifyCapacityToken_iff [of P tok "at_verifierPubKey s" now] by simp
  then show ?thesis
    by (cases "VerifyCapacityToken P tok (at_verifierPubKey s) now")
      (auto simp: validateCapacityToken_def token_fits_def Let_def sameStringMultiset_eq sameStringsUnordered_mset)
qed

lemma whole_seconds_bound:
  assumes "0 < whole_seconds (time_Sub e t)"
  shows "whole_seconds (time_Sub e t) * Second \<le> e - t" "whole_seconds (time_Sub e t) \<le> 9223372036"
proof -
  have nn: "0 \<le> time_Sub e t"
  proof (rule ccontr)
    assume "\<not> 0 \<le> time_Sub e t"
    then have "0 \<le> (- time_Sub e t) div Second" by (simp add: Second_def pos_imp_zdiv_nonneg_iff)
    with \<open>\<not> 0 \<le> time_Sub e t\<close> assms show False by (simp add: whole_seconds_def)
  qed
  then have "whole_seconds (time_Sub e t) * Second \<le> time_Sub e t" by (simp add: whole_seconds_def Second_def)
  moreover from nn have "time_Sub e t \<le> e - t" "time_Sub e t \<le> 2 ^ 63 - 1"
    by (auto simp: time_Sub_def min_duration_def max_duration_def)
  ultimately show "whole_seconds (time_Sub e t) * Second \<le> e - t" "whole_seconds (time_Sub e t) \<le> 9223372036"
    by (auto simp: Second_def)
qed

lemma boundLifetime_iff:
  "boundLifetime now lifetime tok = Inr l \<longleftrightarrow>
     (\<exists>exp. Parse_RFC3339 (ct_ExpiresAt tok) = Some exp
        \<and> l = min (min lifetime (ct_MaxSALifetime tok)) (whole_seconds (time_Sub exp now)) \<and> 0 < l)"
  by (auto simp: boundLifetime_def Let_def min_def split: option.splits if_splits)

text \<open>The session's expiry, computed less than a second after the bound, is not past the token's.\<close>

lemma sa_expiry_within:
  assumes "boundLifetime t1 lifetime tok = Inr l" "Parse_RFC3339 (ct_ExpiresAt tok) = Some e" "e mod Second = 0"
    and "t2 < t1 + Second" "four_digit_year (t2 + dur_seconds l)"
  shows "\<exists>u. Parse_RFC3339 (Format_RFC3339 (t2 + dur_seconds l)) = Some u \<and> u \<le> e"
proof -
  from assms(1,2) have l: "l \<le> whole_seconds (time_Sub e t1)" "0 < l" by (auto simp: boundLifetime_iff)
  then have "0 < whole_seconds (time_Sub e t1)" by simp
  note b = whole_seconds_bound [OF this]
  have d: "dur_seconds l = l * Second" using l b(2) by (auto simp: dur_seconds_def Second_def intro!: wrap64_id)
  have "l * Second \<le> whole_seconds (time_Sub e t1) * Second" using l(1) by (simp add: Second_def)
  with b(1) assms(4) have x: "t2 + l * Second < e + Second" by linarith
  have "e = e div Second * Second" using assms(3) by (metis add.right_neutral div_mult_mod_eq)
  with x have "t2 + l * Second < (e div Second + 1) * Second" by (simp add: algebra_simps)
  then have "(t2 + l * Second) div Second < e div Second + 1" by (simp add: Second_def) 
  then have "(t2 + l * Second) div Second * Second \<le> e div Second * Second" by (simp add: Second_def)
  with \<open>e = e div Second * Second\<close> Parse_Format [OF assms(5)] d show ?thesis by auto
qed

lemma signSABinding_verifies:
  assumes "key_pair P (at_key s)" "signSABinding P s req resp tok = Inr b" "ct_PEPSigningPubKey tok = id_PublicKey (at_key s)"
  shows "VerifySABinding P b (ct_PEPSigningPubKey tok) = Inr ()" "\<exists>sg. b = (sa_binding P req resp tok)\<lparr>sb_Signature := sg\<rparr>"
proof -
  from assms(1) obtain priv pub where k: "decodePrivateKey (id_PrivateKey (at_key s)) = Inr priv"
    "decodePublicKey (id_PublicKey (at_key s)) = Inr pub" "ed25519_pair P priv pub" by (auto simp: key_pair_def)
  from binding.verify_signed [OF k(3,1,2) _ assms(2) [unfolded signSABinding_def]] assms(3)
  show "VerifySABinding P b (ct_PEPSigningPubKey tok) = Inr ()" by simp
  from binding.sign_shape [OF assms(2) [unfolded signSABinding_def]]
  show "\<exists>sg. b = (sa_binding P req resp tok)\<lparr>sb_Signature := sg\<rparr>" by blast
qed

subsection \<open>Renewal keeps the invariants\<close>

lemma setPendingCapacity_quiescent:
  assumes "setPendingCapacityEvidence W ev p = (r, p')" "durable p" "quiescent p"
  shows "quiescent p' \<and> durable p'"
proof (cases r)
  case (Inl e)
  with setPendingCapacity_error [of W ev p e p'] durable_core [of p p'] assms show ?thesis
    by (auto simp: quiescent_def same_core_def)
next
  case (Inr u)
  with setPendingCapacity_ok [of W ev p u p'] durable_core [of p p'] assms show ?thesis
    by (auto simp: quiescent_def holds_sessions_def same_core_def)
qed

lemma quiescent_fields [simp]:
  "quiescent (p\<lparr>p_history := h\<rparr>) = quiescent p" "quiescent (p\<lparr>p_attestation := a\<rparr>) = quiescent p"
  "blocked (p\<lparr>p_history := h\<rparr>) = blocked p" "blocked (p\<lparr>p_attestation := a\<rparr>) = blocked p"
  "durable (p\<lparr>p_attestation := a\<rparr>) = durable p" "durable (p\<lparr>p_history := Some h'\<rparr>) \<longleftrightarrow> p_statePath p \<noteq> ''''"
  by (simp_all add: quiescent_def blocked_def durable_def)

lemma renewal_evidence_quiescent:
  assumes "renewal_evidence W s p = (r, p')" "durable p" "quiescent p"
  shows "quiescent p' \<and> durable p'"
proof (cases "p_pendingCapacity p")
  case None
  let ?p = "pep_append W eventCapacityRequested None (Some [(''scope'', strings_Join '','' (at_scope s))]) p"
  have q: "quiescent (tick ?p)" "durable (tick ?p)" using assms(2,3) by simp_all
  show ?thesis
  proof (cases "BuildEvidence (w_prims W) (w_clock W (p_tick ?p)) (id_PrivateKey (at_key s)) (p_history ?p)")
    case (Inl e)
    with None assms(1) q show ?thesis by (auto simp: renewal_evidence_def getPendingCapacityEvidence_def Let_def)
  next
    case (Inr ev)
    obtain r1 p1 where w: "setPendingCapacityEvidence W (Some ev) (tick ?p) = (r1, p1)"
      by (cases "setPendingCapacityEvidence W (Some ev) (tick ?p)")
    with None Inr assms(1) have "p' = p1"
      by (cases r1) (auto simp: renewal_evidence_def getPendingCapacityEvidence_def Let_def)
    with setPendingCapacity_quiescent [OF w q(2,1)] show ?thesis by simp
  qed
qed (use assms in \<open>auto simp: renewal_evidence_def getPendingCapacityEvidence_def\<close>)

lemma accept_token_quiescent:
  assumes "accept_token W s ev tok p = (r, p')" "durable p" "quiescent p"
  shows "quiescent p' \<and> durable p'"
proof -
  consider "p' = tick p"
    | h md r1 p1 where "setPendingCapacityEvidence W None (pep_append W eventCapacityAccepted None md (tick (p\<lparr>p_history := Some h\<rparr>))) = (r1, p1)"
        "p' = p1 \<or> (\<exists>a. p' = p1\<lparr>p_attestation := a\<rparr>)"
    using assms(1) by (fastforce simp: accept_token_def Let_def split: sum.splits prod.splits)
  then show ?thesis
  proof cases
    case 2
    have "p_statePath p \<noteq> ''''" using assms(2) by (simp add: durable_def)
    with setPendingCapacity_quiescent [OF 2(1)] assms(3) have "quiescent p1 \<and> durable p1" by simp
    with 2(2) show ?thesis by auto
  qed (use assms in simp)
qed

lemma renew_token_fail_closed:
  assumes "renew_token W s p = (r, p')" "durable p" "quiescent p"
  shows "durable p' \<and> (quiescent p' \<or> \<not> p_healthy p' \<and> blocked p')"
proof -
  obtain r1 p1 where c: "cleanupExpiredSessionsUnderHistoryLock W (w_clock W (p_tick p)) (tick p) = (r1, p1)"
    by (cases "cleanupExpiredSessionsUnderHistoryLock W (w_clock W (p_tick p)) (tick p)")
  from expire_all_fail_closed [OF c [unfolded cleanupExpiredSessionsUnderHistoryLock_def]] assms(2,3)
  have f: "durable p1" "quiescent p1 \<or> r1 \<noteq> Inr () \<and> blocked p1" by auto
  show ?thesis
  proof (cases r1)
    case (Inl e)
    with c assms(1) f show ?thesis by (auto simp: renew_token_def)
  next
    case (Inr u)
    obtain r2 p2 where v: "renewal_evidence W s p1 = (r2, p2)" by (cases "renewal_evidence W s p1")
    from renewal_evidence_quiescent [OF v f(1)] f(2) Inr have q: "quiescent p2" "durable p2" by auto
    show ?thesis
    proof (cases r2)
      case (Inl e)
      with c v Inr assms(1) \<open>r1 = Inr u\<close> q show ?thesis by (auto simp: renew_token_def)
    next
      case ev: (Inr ev)
      have "p' = tick p2 \<or> (\<exists>tok. accept_token W s ev tok (tick p2) = (r, p'))"
        using c v \<open>r1 = Inr u\<close> ev assms(1) by (auto simp: renew_token_def split: verifier_reply.splits)
      with q accept_token_quiescent [of W s ev _ "tick p2" r p'] show ?thesis by auto
    qed
  qed
qed

text \<open>The token that the PEP keeps fits its configuration.\<close>

definition keeps_fitting :: "prims \<Rightarrow> 'k pep \<Rightarrow> bool" where
  "keeps_fitting P p \<longleftrightarrow> (case p_attestation p of None \<Rightarrow> True
     | Some s \<Rightarrow> (case at_token s of None \<Rightarrow> True | Some tok \<Rightarrow> token_fits P s tok))"

lemma token_fits_kept [simp]: "token_fits P (s\<lparr>at_token := t\<rparr>) tok = token_fits P s tok"
  by (simp add: token_fits_def)

lemma accept_token_ok:
  assumes "accept_token W s ev tok p = (Inr t, p')"
  shows "t = tok" "p_attestation p' = Some (s\<lparr>at_token := Some tok\<rparr>)" "p_pendingCapacity p' = None"
    "token_fits (w_prims W) s tok" "token_current (w_clock W (p_tick p)) tok"
    "ct_CheckpointHash tok = HashEnforcementCheckpoint (w_prims W) (he_Checkpoint ev)"
  using assms
  by (auto simp: accept_token_def Let_def validate_iff split: sum.splits prod.splits dest: setPendingCapacity_ok)

lemma accept_token_error:
  assumes "accept_token W s ev tok p = (Inl e, p')"
  shows "p_pendingCapacity p' = p_pendingCapacity p" "p_attestation p' = p_attestation p"
  using assms
  by (auto simp: accept_token_def Let_def same_core_def split: sum.splits prod.splits dest: setPendingCapacity_error)

lemma expire_all_pendingCapacity:
  "expire_all W ss p = (r, p') \<Longrightarrow> p_pendingCapacity p' = p_pendingCapacity p \<and> p_attestation p' = p_attestation p"
proof (induction ss arbitrary: p)
  case (Cons s ss)
  have b: "p_pendingCapacity p1 = p_pendingCapacity p \<and> p_attestation p1 = p_attestation p"
    if "expire_begin W s p = (r1, p1)" for r1 p1
    using that by (auto simp: expire_begin_def Let_def same_core_def split: prod.splits sum.splits
        dest: setPending_ok setPending_error)
  have d: "p_pendingCapacity p2 = p_pendingCapacity p1 \<and> p_attestation p2 = p_attestation p1"
    if "expire_delete W s p1 = (r2, p2)" for r2 p1 p2
    using that by (auto simp: expire_delete_def pep_observe_deleted_def Let_def same_core_def
        split: prod.splits sum.splits option.splits if_splits dest: clearPending_ok clearPending_error)
  from Cons.prems Cons.IH b d show ?case by (fastforce split: prod.splits sum.splits)
qed simp

lemma renewal_evidence_ok:
  assumes "renewal_evidence W s p = (Inr ev, p')"
  shows "p_pendingCapacity p' = Some ev" "p_attestation p' = p_attestation p"
  using assms
  by (auto simp: renewal_evidence_def getPendingCapacityEvidence_def Let_def same_core_def
      split: option.splits sum.splits prod.splits dest: setPendingCapacity_ok)

lemma renewal_evidence_error:
  assumes "renewal_evidence W s p = (Inl e, p')"
  shows "p_pendingCapacity p = None" "p_attestation p' = p_attestation p"
  using assms
  by (auto simp: renewal_evidence_def getPendingCapacityEvidence_def Let_def same_core_def
      split: option.splits sum.splits prod.splits dest: setPendingCapacity_error)

lemma renew_cases:
  assumes "renew_token W s p = (r, p')"
  obtains e p1 where "expire_all W (filter (session_expired (w_clock W (p_tick p))) (map snd (p_sessions p))) (tick p) = (Inl e, p1)"
      "r = Inl (RenewCleanup e)" "p' = p1\<lparr>p_healthy := False\<rparr>"
  | p1 e where "expire_all W (filter (session_expired (w_clock W (p_tick p))) (map snd (p_sessions p))) (tick p) = (Inr (), p1)"
      "renewal_evidence W s p1 = (Inl e, p')" "r = Inl e"
  | p1 ev p2 e where "expire_all W (filter (session_expired (w_clock W (p_tick p))) (map snd (p_sessions p))) (tick p) = (Inr (), p1)"
      "renewal_evidence W s p1 = (Inr ev, p2)" "r = Inl e" "p' = tick p2"
  | p1 ev p2 tok where "expire_all W (filter (session_expired (w_clock W (p_tick p))) (map snd (p_sessions p))) (tick p) = (Inr (), p1)"
      "renewal_evidence W s p1 = (Inr ev, p2)" "accept_token W s ev tok (tick p2) = (r, p')"
proof -
  let ?c = "expire_all W (filter (session_expired (w_clock W (p_tick p))) (map snd (p_sessions p))) (tick p)"
  note r = assms [unfolded renew_token_def cleanupExpiredSessionsUnderHistoryLock_def, simplified]
  obtain r1 p1 where c: "?c = (r1, p1)" by (cases ?c)
  show thesis
  proof (cases r1)
    case (Inl e)
    with c r show thesis by (intro that(1) [of e p1]) simp_all
  next
    case (Inr u)
    obtain r2 p2 where v: "renewal_evidence W s p1 = (r2, p2)" by (cases "renewal_evidence W s p1")
    show thesis
    proof (cases r2)
      case (Inl e)
      with c r v Inr \<open>r1 = Inr u\<close> show thesis by (intro that(2) [of p1 e]) simp_all
    next
      case ev: (Inr ev)
      show thesis
      proof (cases "w_post W (p_tick p2) (capacity_request s ev)")
        case (Reply tok)
        with c r v ev Inr show thesis by (intro that(4) [of p1 ev p2 tok]) simp_all
      qed (use c r v ev Inr in \<open>auto intro: that(3) [of p1 ev p2]\<close>)
    qed
  qed
qed

lemma renew_token_ok:
  assumes "renew_token W s p = (Inr tok, p')"
  shows "p_attestation p' = Some (s\<lparr>at_token := Some tok\<rparr>)" "token_fits (w_prims W) s tok" "p_pendingCapacity p' = None"
    "\<exists>n. token_current (w_clock W n) tok"
  using assms by (cases rule: renew_cases, auto dest: accept_token_ok)+

lemma renew_token_error:
  assumes "renew_token W s p = (Inl e, p')"
  shows "p_pendingCapacity p = Some ev \<Longrightarrow> p_pendingCapacity p' = Some ev" "p_attestation p' = p_attestation p"
proof -
  have "(p_pendingCapacity p = Some ev \<longrightarrow> p_pendingCapacity p' = Some ev) \<and> p_attestation p' = p_attestation p"
    using assms
  proof (cases rule: renew_cases)
    case (1 e p1)
    with expire_all_pendingCapacity [OF 1(1)] show ?thesis by simp
  next
    case (2 p1 e)
    with expire_all_pendingCapacity [OF 2(1)] renewal_evidence_error [OF 2(2)] show ?thesis by simp
  next
    case (3 p1 ev' p2 e)
    with expire_all_pendingCapacity [OF 3(1)] renewal_evidence_ok [OF 3(2)] show ?thesis
      by (auto simp: renewal_evidence_def getPendingCapacityEvidence_def)
  next
    case (4 p1 ev' p2 tok)
    with expire_all_pendingCapacity [OF 4(1)] renewal_evidence_ok [OF 4(2)] accept_token_error [OF 4(3)] show ?thesis
      by (auto simp: renewal_evidence_def getPendingCapacityEvidence_def)
  qed
  then show "p_pendingCapacity p = Some ev \<Longrightarrow> p_pendingCapacity p' = Some ev" "p_attestation p' = p_attestation p" by auto
qed

lemma ensure_cases:
  assumes "ensureCapacityToken W p = (r, p')"
  obtains e where "r = Inl e" "p' = p"
  | s tok where "p_attestation p = Some s" "at_enabled s" "at_token s = Some tok" "p_healthy p"
      "token_usable (w_clock W (p_tick p)) tok" "r = Inr tok" "p' = tick p"
  | s q where "p_attestation p = Some s" "at_enabled s" "p_healthy p" "q = p \<or> q = tick p" "renew_token W s q = (r, p')"
proof (cases "p_attestation p")
  case None
  with assms show thesis by (intro that(1)) (auto simp: ensureCapacityToken_def)
next
  case (Some s)
  show thesis
  proof (cases "at_enabled s \<and> p_healthy p")
    case False
    with Some assms have "(\<exists>e. r = Inl e) \<and> p' = p" by (auto simp: ensureCapacityToken_def split: if_splits)
    with that(1) show thesis by blast
  next
    case e: True
    note r = assms [unfolded ensureCapacityToken_def]
    show thesis
    proof (cases "at_token s")
      case None
      with e Some r show thesis by (intro that(3) [of s p]) simp_all
    next
      case (Some tok)
      with e \<open>p_attestation p = Some s\<close> r show thesis
        by (cases "token_usable (w_clock W (p_tick p)) tok") (simp_all add: that(2) [of s tok] that(3) [of s "tick p"])
    qed
  qed
qed

lemma ensure_fail_closed:
  assumes "ensureCapacityToken W p = (r, p')" "durable p" "quiescent p"
  shows "durable p' \<and> (quiescent p' \<or> \<not> p_healthy p' \<and> blocked p')"
  using assms(1)
proof (cases rule: ensure_cases)
  case (3 s q)
  from 3(4) assms(2,3) have "durable q" "quiescent q" by auto
  from renew_token_fail_closed [OF 3(5) this] show ?thesis .
qed (use assms(2,3) in auto)

lemma ensure_ok:
  assumes "ensureCapacityToken W p = (Inr tok, p')" "keeps_fitting (w_prims W) p"
  obtains s where "p_attestation p = Some s" "at_enabled s" "token_fits (w_prims W) s tok" "keeps_fitting (w_prims W) p'"
    "p_attestation p' = Some (s\<lparr>at_token := Some tok\<rparr>)"
  using assms(1)
proof (cases rule: ensure_cases)
  case (2 s t)
  with assms(2) show ?thesis by (intro that [of s]) (auto simp: keeps_fitting_def)
next
  case (3 s q)
  with renew_token_ok [OF 3(5)] show ?thesis by (intro that [of s]) (auto simp: keeps_fitting_def)
qed auto

lemma ensure_error_keeps:
  assumes "ensureCapacityToken W p = (Inl e, p')" "keeps_fitting P p"
  shows "keeps_fitting P p'" "p_attestation p' = p_attestation p"
  using assms(1)
  by (cases rule: ensure_cases; use assms(2) in \<open>auto simp: keeps_fitting_def dest: renew_token_error(2)\<close>)+

text \<open>The verifier's fresh token passes the PEP's check.\<close>

lemma fresh_token_validates:
  assumes "capacity_prepare P cfg ident enrolled now \<lparr>rq_Method = ''POST'', rq_Body = Some (capacity_request s ev)\<rparr> state = Inr tk"
    and "key_pair P ident" "clock_ok cfg now" "at_verifierPubKey s = id_PublicKey ident"
    and "strings_ToLower (vc_RequiredObserver cfg) = at_requiredObserver s"
    and "now - 5 * Second \<le> t" "t < (now + vc_TokenTTLSeconds cfg * Second) div Second * Second"
  shows "validateCapacityToken P t s (tk_signed tk) ev = Inr (HashEnforcementCheckpoint P (he_Checkpoint ev))"
proof -
  note pe = prepare_elim [OF assms(1)]
  from capacity.sign_shape [OF pe(5)] obtain sg where sg:
    "tk_signed tk = (new_token cfg (tk_req tk) now (HashEnforcementCheckpoint P (he_Checkpoint (tk_history tk)))
       (cp_Epoch (he_Checkpoint (tk_history tk))))\<lparr>ct_Signature := sg\<rparr>" by blast
  from pe(1) obtain req0 where req: "Some (capacity_request s ev) = Some req0"
    "tk_req tk = req0\<lparr>cr_MaxSALifetime := if vc_MaxSALifetime cfg > 0 then min (cr_MaxSALifetime req0) (vc_MaxSALifetime cfg)
                                       else cr_MaxSALifetime req0\<rparr>"
    "0 < cr_MaxSALifetime (tk_req tk)" "cr_History (tk_req tk) = Some (tk_history tk)"
    by (rule guards_elim) auto
  then have h: "tk_history tk = ev" by (auto simp: capacity_request_def)
  from fresh_token_valid [OF assms(2,3,1,6,7)] assms(4)
  have "token_current t (tk_signed tk)" "sig_ok P (at_verifierPubKey s) (CapacityTokenSigningBytes (tk_signed tk)) (ct_Signature (tk_signed tk))"
    by (simp_all add: VerifyCapacityToken_iff)
  with req h assms(5) show ?thesis
    by (auto simp: validate_iff token_fits_def sg new_token_def capacity_request_def)
qed

subsection \<open>Properties\<close>

text \<open>
  The verifier's fresh token is one that the PEP accepts: if the request that the PEP builds from
  its evidence passes the verifier, the token signed for it passes the PEP's check of the reply at
  every time of its validity, when the two sides agree on the verifier's key and on the observer
  profile.
\<close>
theorem verifier_token_validates:
  assumes "capacity_prepare P cfg ident enrolled now \<lparr>rq_Method = ''POST'', rq_Body = Some (capacity_request s ev)\<rparr> state = Inr tk"
    and "key_pair P ident" "clock_ok cfg now" "at_verifierPubKey s = id_PublicKey ident"
    and "strings_ToLower (vc_RequiredObserver cfg) = at_requiredObserver s"
    and "now - 5 * Second \<le> t" "t < (now + vc_TokenTTLSeconds cfg * Second) div Second * Second"
  shows "validateCapacityToken P t s (tk_signed tk) ev = Inr (HashEnforcementCheckpoint P (he_Checkpoint ev))"
  using assms by (rule fresh_token_validates)

text \<open>
  (C21) Whatever the verifier replies, a token that \<open>ensureCapacityToken\<close> returns is signed under the
  configured verifier key, for this PEP and its key, with its measurement, policy hash, scope and
  observer profile, and a lifetime within what it asked for; the token it keeps is that token.
\<close>
theorem ensured_token_fits:
  assumes "ensureCapacityToken W p = (Inr tok, p')" "keeps_fitting (w_prims W) p"
  shows "\<exists>s. p_attestation p = Some s \<and> at_enabled s \<and> token_fits (w_prims W) s tok
    \<and> p_attestation p' = Some (s\<lparr>at_token := Some tok\<rparr>) \<and> keeps_fitting (w_prims W) p'"
  by (rule ensure_ok [OF assms]) blast

text \<open>
  (C20) Renewal is fail-closed: from a state with nothing pending, after any sequence of failures of the
  disk, the kernel, the observer or the verifier, either memory and state file agree with nothing
  pending, or the PEP is unhealthy and a restart is refused.
\<close>
theorem renewal_fail_closed:
  assumes "ensureCapacityToken W p = (r, p')" "durable p" "quiescent p"
  shows "quiescent p'
    \<or> \<not> p_healthy p' \<and> (\<exists>opn. fst (loadPEPState P (p_statePath p') h0 (q\<lparr>p_disk := p_disk p'\<rparr>)) = Inl (IncompletePending opn))"
  using ensure_fail_closed [OF assms] blocked_refuses [of p' P h0 q] by blast

text \<open>
  Evidence that the verifier does not accept is never given up: while a renewal fails, the pending
  evidence stays, so that the next renewal submits it again.
\<close>
theorem pending_evidence_kept:
  assumes "ensureCapacityToken W p = (Inl e, p')" "p_pendingCapacity p = Some ev"
  shows "p_pendingCapacity p' = Some ev
    \<and> renewal_evidence W s p' = (Inr ev, p')"
proof -
  from assms(1) have "p_pendingCapacity p' = Some ev"
    by (cases rule: ensure_cases) (use assms(2) in \<open>auto intro: renew_token_error(1)\<close>)
  then show ?thesis by (simp add: renewal_evidence_def getPendingCapacityEvidence_def)
qed

text \<open>
  (C39) A renewal interrupted for longer than the token's validity cannot be completed: the verifier
  answers the repeated submission with the token it issued the first time, at any later time, and
  once that token has expired the PEP refuses it.
\<close>
theorem expired_retry_deadlock:
  assumes "key_pair P ident" "clock_ok cfg now" "r = \<lparr>rq_Method = ''POST'', rq_Body = Some (capacity_request s ev)\<rparr>"
    and "capacityHandler P cfg ident enrolled now os r (state, disk) = (HttpToken tok, state', disk')"
    and "Parse_RFC3339 (ct_ExpiresAt tok) = Some e" "e \<le> t"
  shows "capacityHandler P cfg ident enrolled now' os' r (state', disk') = (HttpToken tok, state', disk')
    \<and> (\<exists>err. validateCapacityToken P t s tok ev = Inl err)"
proof -
  have "\<not> token_current t tok" using assms(5,6) by (auto simp: token_current_def)
  then have "validateCapacityToken P t s tok ev \<noteq> Inr h" for h by (simp add: validate_iff)
  then have "\<exists>err. validateCapacityToken P t s tok ev = Inl err" by (cases "validateCapacityToken P t s tok ev") auto
  with Verifier.retry_idempotent [OF assms(1,2,4)] show ?thesis by blast
qed


subsection \<open>Examples\<close>

text \<open>A PEP configured for the verifier of the example, with the request of the example as its own.\<close>

definition att_state :: pepAttestationState where
  "att_state = \<lparr>at_enabled = True, at_pepID = ''pep'', at_verifierURL = '''', at_measurement = cr_Measurement ex_req,
     at_policyHash = cr_PolicyHash ex_req, at_scope = cr_Scope ex_req, at_maxSALifetime = cr_MaxSALifetime ex_req,
     at_verifierPubKey = ex_pub, at_requiredObserver = ''posthoc'', at_key = ex_ident, at_token = None\<rparr>"

lemma att_request: "\<lparr>rq_Method = ''POST'', rq_Body = Some (capacity_request att_state ex_evidence)\<rparr> = ex_request"
  by (simp add: capacity_request_def att_state_def ex_request_def ex_req_def ex_ident_def)

lemma ex_observer: "vc_RequiredObserver ex_cfg = ''posthoc''" "vc_TokenTTLSeconds ex_cfg = 120" by code_simp+

theorem verifier_token_validates_witness:
  "\<exists>tk. capacity_prepare demo_prims ex_cfg ex_ident ex_enrolled ex_now
      \<lparr>rq_Method = ''POST'', rq_Body = Some (capacity_request att_state ex_evidence)\<rparr> new_verifier_state = Inr tk
    \<and> validateCapacityToken demo_prims ex_now att_state (tk_signed tk) ex_evidence
        = Inr (HashEnforcementCheckpoint demo_prims (he_Checkpoint ex_evidence))"
proof -
  obtain tk where tk: "capacity_prepare demo_prims ex_cfg ex_ident ex_enrolled ex_now ex_request new_verifier_state = Inr tk"
    by (rule ex_prepared)
  have "validateCapacityToken demo_prims ex_now att_state (tk_signed tk) ex_evidence
      = Inr (HashEnforcementCheckpoint demo_prims (he_Checkpoint ex_evidence))"
    by (rule verifier_token_validates [OF tk [folded att_request] ex_keys(2) ex_clock])
      (simp_all add: att_state_def ex_ident_def ex_observer Second_def)
  with tk show ?thesis by (simp add: att_request)
qed

text \<open>A token that fits the configuration, and a PEP that holds it.\<close>

definition att_tok :: CapacityToken where
  "att_tok = zero_token\<lparr>ct_Version := 1, ct_TokenType := ''cryptna-pep-capacity-v1'', ct_PEPID := ''pep'',
     ct_PEPSigningPubKey := ex_pub, ct_Measurement := cr_Measurement ex_req, ct_PolicyHash := cr_PolicyHash ex_req,
     ct_Scope := Some (cr_Scope ex_req), ct_MaxSALifetime := 30, ct_ObserverProfile := ''posthoc'',
     ct_ExpiresAt := ''2025-01-01T00:02:00Z'', ct_Signature := base64_EncodeToString (replicate 64 1)\<rparr>"

lemma att_tok_expiry: "Parse_RFC3339 ''2025-01-01T00:02:00Z'' = Some (1735689720 * Second)" by code_simp

lemma att_tok_fits: "token_fits demo_prims att_state att_tok"
  by (simp add: token_fits_def sig_ok_def att_tok_def att_state_def zero_token_def ex_pub_def ex_ident_def ex_req_def
      decodePublicKey_def ed25519_PublicKeySize_def ed25519_SignatureSize_def demo_prims_def)

definition att_world :: "unit world" where "att_world = ex_world\<lparr>w_clock := (\<lambda>_. ex_now)\<rparr>"

definition att_pep :: "unit pep" where
  "att_pep = ex_pep\<lparr>p_sessions := [], p_attestation := Some att_state, p_pendingCapacity := Some ex_evidence\<rparr>"

lemma att_pep_idle: "durable att_pep" "quiescent att_pep"
  by (simp_all add: durable_def quiescent_def holds_sessions_def att_pep_def ex_pep_def)

theorem ensured_token_fits_witness:
  "\<exists>s. token_fits demo_prims s att_tok \<and> fst (ensureCapacityToken att_world
      (att_pep\<lparr>p_attestation := Some (att_state\<lparr>at_token := Some att_tok\<rparr>)\<rparr>)) = Inr att_tok"
proof -
  let ?p = "att_pep\<lparr>p_attestation := Some (att_state\<lparr>at_token := Some att_tok\<rparr>)\<rparr>"
  have P: "w_prims att_world = demo_prims" by (simp add: att_world_def ex_world_def)
  have "token_usable (w_clock att_world n) att_tok" for n
    by (simp add: token_usable_def att_tok_def att_tok_expiry att_world_def time_Sub_def Second_def min_duration_def max_duration_def)
  then have e: "ensureCapacityToken att_world ?p = (Inr att_tok, tick ?p)"
    by (simp add: ensureCapacityToken_def att_state_def att_pep_def ex_pep_def)
  moreover have "keeps_fitting (w_prims att_world) ?p" using att_tok_fits by (simp add: keeps_fitting_def P)
  ultimately show ?thesis using ensured_token_fits [of att_world ?p att_tok] P by fastforce
qed

lemma att_post: "ensureCapacityToken att_world att_pep = (Inl PostFailed, tick (tick att_pep))"
  by (simp add: ensureCapacityToken_def renew_token_def cleanupExpiredSessionsUnderHistoryLock_def renewal_evidence_def
      getPendingCapacityEvidence_def att_pep_def att_state_def ex_pep_def att_world_def ex_world_def)

theorem renewal_fail_closed_witness:
  "\<exists>p'. ensureCapacityToken att_world att_pep = (Inl PostFailed, p') \<and> (quiescent p' \<or> \<not> p_healthy p')"
  using renewal_fail_closed [OF att_post att_pep_idle] att_post by blast

theorem pending_evidence_kept_witness:
  "\<exists>p'. ensureCapacityToken att_world att_pep = (Inl PostFailed, p') \<and> p_pendingCapacity p' = Some ex_evidence"
proof -
  have "p_pendingCapacity att_pep = Some ex_evidence" by (simp add: att_pep_def)
  from pending_evidence_kept [OF att_post this] att_post show ?thesis by blast
qed

lemma signed_expiry:
  assumes "capacity_prepare P cfg ident enrolled now r state = Inr tk"
  shows "ct_ExpiresAt (tk_signed tk) = Format_RFC3339 (now + dur_seconds (vc_TokenTTLSeconds cfg))"
proof -
  from capacity.sign_shape [OF prepare_elim(5) [OF assms]] obtain sg where
    "tk_signed tk = (new_token cfg (tk_req tk) now (HashEnforcementCheckpoint P (he_Checkpoint (tk_history tk)))
       (cp_Epoch (he_Checkpoint (tk_history tk))))\<lparr>ct_Signature := sg\<rparr>" by blast
  then show ?thesis by (simp add: new_token_def)
qed

theorem expired_retry_deadlock_witness:
  "\<exists>tok state' disk' err. capacityHandler demo_prims ex_cfg ex_ident ex_enrolled (ex_now + 600 * Second) os_fine
      \<lparr>rq_Method = ''POST'', rq_Body = Some (capacity_request att_state ex_evidence)\<rparr> (state', disk') = (HttpToken tok, state', disk')
    \<and> validateCapacityToken demo_prims (ex_now + 600 * Second) att_state tok ex_evidence = Inl err"
proof -
  obtain tk where tk: "capacity_prepare demo_prims ex_cfg ex_ident ex_enrolled ex_now ex_request new_verifier_state = Inr tk"
    "tk_previous tk = None" by (rule ex_prepared)
  then have "map_of (vs_checkpoints new_verifier_state) (cr_PEPID (tk_req tk)) = tk_previous tk"
    by (simp add: new_verifier_state_def)
  then obtain state' disk' where
    "capacity_commit demo_prims ex_cfg ex_ident os_fine tk (new_verifier_state, Map.empty) = (HttpToken (tk_signed tk), state', disk')"
    by (rule commit_complete)
  with tk(1) have h: "capacityHandler demo_prims ex_cfg ex_ident ex_enrolled ex_now os_fine ex_request (new_verifier_state, Map.empty)
      = (HttpToken (tk_signed tk), state', disk')" by (simp add: capacityHandler_def)
  have "ct_ExpiresAt (tk_signed tk) = Format_RFC3339 (ex_now + dur_seconds (vc_TokenTTLSeconds ex_cfg))"
    by (rule signed_expiry [OF tk(1)])
  moreover have "dur_seconds (vc_TokenTTLSeconds ex_cfg) = 120 * Second" by (simp add: ex_observer dur_seconds_small)
  moreover have "four_digit_year (ex_now + 120 * Second)" using ex_clock by (simp add: clock_ok_def ex_observer)
  ultimately have "Parse_RFC3339 (ct_ExpiresAt (tk_signed tk)) = Some ((ex_now + 120 * Second) div Second * Second)"
    by (simp add: Parse_Format)
  from expired_retry_deadlock [OF ex_keys(2) ex_clock att_request [symmetric] h this, of "ex_now + 600 * Second"
      "ex_now + 600 * Second" os_fine]
  have "capacityHandler demo_prims ex_cfg ex_ident ex_enrolled (ex_now + 600 * Second) os_fine ex_request (state', disk')
        = (HttpToken (tk_signed tk), state', disk')
    \<and> (\<exists>err. validateCapacityToken demo_prims (ex_now + 600 * Second) att_state (tk_signed tk) ex_evidence = Inl err)"
    by (simp add: Second_def)
  then show ?thesis unfolding att_request by blast
qed


end
