(* ===== verification/Cryptoutil.thy ===== *)
theory Cryptoutil
  imports Crypto
begin

text \<open>
  \<^verbatim>\<open>common/cryptoutil/cryptoutil.go\<close>: X25519 key pairs and the session keys of a tunnel. The random bytes
  are an input (\<open>None\<close>: the random source failed); \<^verbatim>\<open>curve25519.X25519\<close> and the HKDF reader are functions
  of \<open>prims\<close>, where \<open>hkdf_Read\<close> gives the first \<open>n\<close> bytes of the stream.
\<close>

unbundle bit_operations_syntax

record KeyPair =
  kp_PrivateB64 :: string
  kp_PublicB64 :: string

definition curve25519_Basepoint :: bytes where
  "curve25519_Basepoint = 9 # replicate 31 0"

definition ClampX25519Private :: "bytes \<Rightarrow> bytes" where
  "ClampX25519Private priv =
     (if length priv \<noteq> 32 then priv
      else let priv = priv[0 := priv ! 0 AND 248];
               priv = priv[31 := priv ! 31 AND 127]
           in priv[31 := priv ! 31 OR 64])"

definition GenerateX25519KeyPair :: "prims \<Rightarrow> bytes option \<Rightarrow> KeyPair option" where
  "GenerateX25519KeyPair P rand =
     (case rand of None \<Rightarrow> None
      | Some priv \<Rightarrow>
        let priv = ClampX25519Private priv in
        (case curve25519_X25519 P priv curve25519_Basepoint of None \<Rightarrow> None
         | Some pub \<Rightarrow> Some \<lparr>kp_PrivateB64 = base64_EncodeToString priv, kp_PublicB64 = base64_EncodeToString pub\<rparr>))"

definition MustDecodeB64 :: "string \<Rightarrow> nat \<Rightarrow> bytes option" where
  "MustDecodeB64 s expectedLen =
     (case base64_DecodeString s of None \<Rightarrow> None
      | Some b \<Rightarrow> if expectedLen > 0 \<and> length b \<noteq> expectedLen then None else Some b)"

definition DeriveSharedSecretB64 :: "prims \<Rightarrow> string \<Rightarrow> string \<Rightarrow> string option" where
  "DeriveSharedSecretB64 P privB64 pubB64 =
     (case MustDecodeB64 privB64 32 of None \<Rightarrow> None
      | Some priv \<Rightarrow>
     (case MustDecodeB64 pubB64 32 of None \<Rightarrow> None
      | Some pub \<Rightarrow>
     (case curve25519_X25519 P priv pub of None \<Rightarrow> None
      | Some shared \<Rightarrow> Some (base64_EncodeToString shared))))"

text \<open>The two \<^verbatim>\<open>io.ReadFull\<close> calls read consecutive parts of one stream.\<close>

definition DeriveSessionKeys :: "prims \<Rightarrow> string \<Rightarrow> (string \<times> string) option" where
  "DeriveSessionKeys P sharedB64 =
     (case MustDecodeB64 sharedB64 32 of None \<Rightarrow> None
      | Some shared \<Rightarrow>
     (case hkdf_Read P shared (str_bytes ''CRYPTNA-LAB-v0'') (str_bytes ''client-pep-session-keys'') 64 of None \<Rightarrow> None
      | Some okm \<Rightarrow>
        let c2p = take 32 okm; p2c = drop 32 okm
        in Some (base64_EncodeToString c2p, base64_EncodeToString p2c)))"

text \<open>What the X25519 package documents: a shared secret has 32 bytes.\<close>

definition x25519_size :: "prims \<Rightarrow> bool" where
  "x25519_size P \<longleftrightarrow> (\<forall>a b s. curve25519_X25519 P a b = Some s \<longrightarrow> length s = 32)"

text \<open>HKDF with SHA-256 delivers up to 255 blocks of 32 bytes.\<close>

definition hkdf_total :: "prims \<Rightarrow> bool" where
  "hkdf_total P \<longleftrightarrow> (\<forall>secret salt info n. n \<le> 255 * 32 \<longrightarrow>
     (\<exists>b. hkdf_Read P secret salt info n = Some b \<and> length b = n))"

lemma demo_kdf [simp]: "x25519_size demo_prims" "hkdf_total demo_prims"
  by (simp_all add: x25519_size_def hkdf_total_def demo_prims_def)

lemma MustDecodeB64_encode [simp]:
  "MustDecodeB64 (base64_EncodeToString b) n = (if n > 0 \<and> length b \<noteq> n then None else Some b)"
  by (simp add: MustDecodeB64_def)

lemma ClampX25519Private_length [simp]: "length (ClampX25519Private priv) = length priv"
  by (simp add: ClampX25519Private_def Let_def)

subsection \<open>Properties\<close>


text \<open>
  A private key is clamped as RFC 7748 requires: the three low bits of the first byte and the top
  bit of the last one are clear, and bit 6 of the last byte is set.
\<close>
theorem clamp_bits:
  assumes "length priv = 32"
  shows "ClampX25519Private priv ! 0 AND 7 = 0 \<and> ClampX25519Private priv ! 31 AND 192 = 64
    \<and> (\<forall>i. 0 < i \<and> i < 31 \<longrightarrow> ClampX25519Private priv ! i = priv ! i)"
proof -
  have "(x AND 248) AND 7 = 0" for x :: byte by (simp add: ac_simps and.assoc)
  moreover have "((x AND 127) OR 64) AND 192 = 64" for x :: byte
    by (simp add: bit.conj_disj_distrib2 and.assoc)
  ultimately show ?thesis
    using assms by (auto simp: ClampX25519Private_def Let_def nth_list_update)
qed

subsection \<open>Examples\<close>


theorem clamp_bits_witness: "ClampX25519Private (replicate 32 255) ! 31 AND 192 = 64"
  using clamp_bits [of "replicate 32 255"] by simp

end
