(* ===== verification/Pep_Main.thy ===== *)
theory Pep_Main
  imports Pep_Attestation Cryptoutil
begin

text \<open>
  \<^verbatim>\<open>pep/main.go\<close>: the handlers of the service and \<^verbatim>\<open>pep/firewall.go\<close>. \<open>activateHandler\<close> prepares a session
  without the history lock and installs it under that lock; it is split there, \<open>activate_prepare\<close>
  and \<open>activate_commit\<close>, and \<open>pstep\<close> interleaves the parts of any number of requests with the reaper
  and the renewal of the capacity token.
\<close>

datatype act_reply = ActError nat string | Activated PEPActivationResponse

record act_request =
  aq_Method :: string
  aq_Body :: "ActivateRequest option" \<comment> \<open>None: the body does not decode\<close>

definition attested :: "'k pep \<Rightarrow> bool" where
  "attested p = (case p_attestation p of None \<Rightarrow> False | Some s \<Rightarrow> at_enabled s)"

text \<open>The checks on the request, up to the key exchange.\<close>

definition activate_guards :: "act_request \<Rightarrow> 'k pep \<Rightarrow> act_reply + ActivateRequest" where
  "activate_guards r p =
     (if aq_Method r \<noteq> ''POST'' then Inl (ActError 405 ''method not allowed'')
      else if \<not> p_healthy p then Inl (ActError 503 ''PEP enforcement state is unhealthy'')
      else case aq_Body r of None \<Rightarrow> Inl (ActError 400 ''invalid json'')
      | Some req \<Rightarrow>
        if ar_ClientOuterIP req = '''' then Inl (ActError 400 ''missing client_outer_ip'')
        else if ar_ClientInSPI req = '''' then Inl (ActError 400 ''missing client_in_spi'')
        else if ar_ClientDHPub req = '''' then Inl (ActError 400 ''missing client_dh_pub'')
        else Inr req)"

text \<open>The key exchange: the PEP's public key and the two session keys.\<close>

definition activate_keys :: "'k world \<Rightarrow> nat \<Rightarrow> ActivateRequest \<Rightarrow> act_reply + string \<times> string \<times> string" where
  "activate_keys W n req =
     (case GenerateX25519KeyPair (w_prims W) (w_rand W n) of None \<Rightarrow> Inl (ActError 500 ''dh generation failed'')
      | Some pepDH \<Rightarrow>
        (case DeriveSharedSecretB64 (w_prims W) (kp_PrivateB64 pepDH) (ar_ClientDHPub req) of
           None \<Rightarrow> Inl (ActError 400 ''dh derivation failed'')
         | Some sharedSecret \<Rightarrow>
           (case DeriveSessionKeys (w_prims W) sharedSecret of
              None \<Rightarrow> Inl (ActError 500 ''kdf failed'')
            | Some (c2pKey, p2cKey) \<Rightarrow> Inr (kp_PublicB64 pepDH, c2pKey, p2cKey))))"

text \<open>The lifetime, and with attestation the token that bounds it.\<close>

definition activate_lifetime :: "'k world \<Rightarrow> 'k pep \<Rightarrow> (act_reply + int \<times> CapacityToken option) \<times> 'k pep" where
  "activate_lifetime W p =
     (let lifetime = pep_getenvInt (w_env W) ''SA_LIFETIME_SECONDS'' 60 in
      if attested p then
        (case ensureCapacityToken W p of
           (Inl err, p) \<Rightarrow> (Inl (ActError 503 ''capacity token unavailable''), p)
         | (Inr tok, p) \<Rightarrow>
           (case boundLifetime (w_clock W (p_tick p)) lifetime tok of
              Inl err \<Rightarrow> (Inl (ActError 503 ''capacity token lifetime invalid''), tick p)
            | Inr lifetime \<Rightarrow> (Inr (lifetime, Some tok), tick p)))
      else (Inr (lifetime, None), p))"

definition suite_of :: "ActivateRequest \<Rightarrow> string" where
  "suite_of req = (case ar_AEADSuites req of [] \<Rightarrow> ''aes-gcm-128'' | a # _ \<Rightarrow> a)"

definition new_session ::
  "env \<Rightarrow> ActivateRequest \<Rightarrow> string \<times> string \<times> string \<Rightarrow> string \<Rightarrow> u32 \<Rightarrow> string \<Rightarrow> string \<Rightarrow> string \<Rightarrow> Session" where
  "new_session env req = (\<lambda>(pepDHPub, c2pKey, p2cKey) pepInSPI reqID clientInnerIP pepOuterIP expiresAt.
     \<lparr>ss_ClientPubKey = ar_ClientPubKey req, ss_ServiceID = ar_ServiceID req, ss_ReqID = reqID,
      ss_ClientInSPI = ar_ClientInSPI req, ss_PEPInSPI = pepInSPI, ss_ClientOuterIP = ar_ClientOuterIP req,
      ss_ClientInnerIP = clientInnerIP, ss_PEPOuterIP = pepOuterIP,
      ss_ServiceIP = getenv env ''SERVICE_IP'' ''172.22.0.50'', ss_NATTPort = pep_getenvInt env ''NATT_PORT'' 4500,
      ss_ClientDHPub = ar_ClientDHPub req, ss_PEPDHPub = pepDHPub, ss_AEAD = suite_of req, ss_C2PKey = c2pKey,
      ss_P2CKey = p2cKey, ss_ExpiresAt = expiresAt,
      ss_XFRM = \<lparr>xp_Mode = '''', xp_Commands = [], xp_DeleteCommands = []\<rparr>\<rparr>)"

definition new_response :: "Session \<Rightarrow> int \<Rightarrow> PEPActivationResponse" where
  "new_response s lifetime =
     \<lparr>pr_ServiceID = ss_ServiceID s, pr_ServiceIP = ss_ServiceIP s, pr_ClientInnerIP = ss_ClientInnerIP s,
      pr_ClientInSPI = ss_ClientInSPI s, pr_PEPInSPI = ss_PEPInSPI s, pr_PEPDHPub = ss_PEPDHPub s, pr_AEAD = ss_AEAD s,
      pr_SALifetime = lifetime, pr_ExpiresAt = ss_ExpiresAt s, pr_CapacityToken = None, pr_SABinding = None\<rparr>"

text \<open>With a token the response carries it and a binding signed over the response.\<close>

definition attach_binding ::
  "'k world \<Rightarrow> 'k pep \<Rightarrow> ActivateRequest \<Rightarrow> CapacityToken option \<Rightarrow> PEPActivationResponse \<Rightarrow> act_reply + PEPActivationResponse" where
  "attach_binding W p req capacityToken resp =
     (case (capacityToken, p_attestation p) of
        (Some tok, Some s) \<Rightarrow>
          (case signSABinding (w_prims W) s req resp tok of
             Inl err \<Rightarrow> Inl (ActError 500 ''SA binding signature failed'')
           | Inr bnd \<Rightarrow> Inr (resp\<lparr>pr_CapacityToken := Some tok, pr_SABinding := Some bnd\<rparr>))
      | _ \<Rightarrow> Inr resp)"

text \<open>
  The part of the handler before the token: guards, keys, SPI, request identifier, inner address.
  Then the part that fixes the session and the response.
\<close>

record act_resources =
  rs_req :: ActivateRequest
  rs_keys :: "string \<times> string \<times> string"
  rs_spi :: string
  rs_reqID :: u32
  rs_innerIP :: string
  rs_outerIP :: string

definition activate_resources :: "'k world \<Rightarrow> act_request \<Rightarrow> 'k pep \<Rightarrow> (act_reply + act_resources) \<times> 'k pep" where
  "activate_resources W r p =
     (case activate_guards r p of Inl e \<Rightarrow> (Inl e, p)
      | Inr req \<Rightarrow>
        (case activate_keys W (p_tick p) req of Inl e \<Rightarrow> (Inl e, tick p)
         | Inr ks \<Rightarrow>
           let p = tick p in
           (case GenerateSPI (w_rand W (p_tick p)) of None \<Rightarrow> (Inl (ActError 500 ''spi generation failed''), tick p)
            | Some pepInSPI \<Rightarrow>
              let (reqID, p) = allocateReqID (tick p);
                  (inner, p) = allocateClientInnerIP (w_env W) p in
              (case inner of None \<Rightarrow> (Inl (ActError 503 ''client address pool exhausted''), p)
               | Some clientInnerIP \<Rightarrow>
                 let pepOuterIP = getenv (w_env W) ''PEP_LOCAL_ENDPOINT_IP'' '''' in
                 if pepOuterIP = '''' then (Inl (ActError 500 ''missing PEP_LOCAL_ENDPOINT_IP''), p)
                 else (Inr \<lparr>rs_req = req, rs_keys = ks, rs_spi = pepInSPI, rs_reqID = reqID,
                            rs_innerIP = clientInnerIP, rs_outerIP = pepOuterIP\<rparr>, p)))))"

definition activate_session :: "'k world \<Rightarrow> act_resources \<Rightarrow> 'k pep \<Rightarrow> (act_reply + Session \<times> PEPActivationResponse) \<times> 'k pep" where
  "activate_session W x p =
     (case activate_lifetime W p of (Inl e, p) \<Rightarrow> (Inl e, p)
      | (Inr (lifetime, capacityToken), p) \<Rightarrow>
        let expiresAt = Format_RFC3339 (w_clock W (p_tick p) + dur_seconds lifetime); p = tick p;
            session = new_session (w_env W) (rs_req x) (rs_keys x) (rs_spi x) (rs_reqID x) (rs_innerIP x) (rs_outerIP x) expiresAt in
        (case attach_binding W p (rs_req x) capacityToken (new_response session lifetime) of
           Inl e \<Rightarrow> (Inl e, p)
         | Inr resp \<Rightarrow>
           (case buildXFRMPlan (w_prims W) session of
              None \<Rightarrow> (Inl (ActError 500 ''xfrm plan failed''), p)
            | Some plan \<Rightarrow> (Inr (session\<lparr>ss_XFRM := plan\<rparr>, resp), p))))"

definition activate_prepare :: "'k world \<Rightarrow> act_request \<Rightarrow> 'k pep \<Rightarrow> (act_reply + Session \<times> PEPActivationResponse) \<times> 'k pep" where
  "activate_prepare W r p =
     (case activate_resources W r p of (Inl e, p) \<Rightarrow> (Inl e, p) | (Inr x, p) \<Rightarrow> activate_session W x p)"

text \<open>Under the history lock: the intent, then the kernel.\<close>

definition activate_begin :: "'k world \<Rightarrow> Session \<Rightarrow> 'k pep \<Rightarrow> (os_error + unit) \<times> 'k pep" where
  "activate_begin W session p =
     (case setPendingPEPOperation W ''xfrm_apply'' session p of
        (Inl err, p) \<Rightarrow> (Inl err, p)
      | (Inr _, p) \<Rightarrow>
        (Inr (), pep_append W eventXFRMApplyIntent (Some session)
           (Some [(''xfrm_mode'', getenv (w_env W) ''XFRM_MODE'' ''dry-run''),
                  (''xfrm_plan_hash'', xfrmPlanHash (w_prims W) (ss_XFRM session))]) p))"

definition pep_observe_applied :: "'k world \<Rightarrow> Session \<Rightarrow> 'k pep \<Rightarrow> string smap \<times> 'k pep" where
  "pep_observe_applied W session p =
     (case w_durations W (p_tick p) of (posthoc, correlation, tot) \<Rightarrow>
        (observeXFRMAppliedWithObserver (w_prims W) (w_env W) (k_ip (w_kernel W) (p_kernel p)) posthoc correlation tot
           (p_observer p) session (w_events W (p_tick p)), tick p))"

definition activate_apply :: "'k world \<Rightarrow> Session \<Rightarrow> PEPActivationResponse \<Rightarrow> 'k pep \<Rightarrow> act_reply \<times> 'k pep" where
  "activate_apply W session resp p =
     (let (aerr, k) = maybeApplyXFRM (w_env W) (w_kernel W) (ss_XFRM session) (p_kernel p); p = p\<lparr>p_kernel := k\<rparr> in
      case aerr of Some err \<Rightarrow> (ActError 500 ''xfrm apply failed'', p\<lparr>p_healthy := False\<rparr>)
      | None \<Rightarrow>
        let (applyMeta, p) = pep_observe_applied W session p;
            p = pep_append W eventXFRMApplyObserved (Some session) (Some applyMeta) p in
        if \<not> observationMeetsLocalProfile (w_env W) (p_attestation p) (Some applyMeta) ''applied'' then
          (ActError 500 ''XFRM apply observation failed'',
           p\<lparr>p_kernel := snd (maybeDeleteXFRM (w_env W) (w_kernel W) (ss_XFRM session) (p_kernel p)), p_healthy := False\<rparr>)
        else
          let p = p\<lparr>p_sessions := AList.update (ss_PEPInSPI session) session (p_sessions p)\<rparr>;
              p = pep_append W eventSessionActivated (Some session)
                    (Some [(''attested'', strconv_FormatBool (pr_CapacityToken resp \<noteq> None))]) p in
          (case clearPendingPEPOperation W p of
             (Inl err, p) \<Rightarrow> (ActError 500 ''persist activated session failed'', p\<lparr>p_healthy := False\<rparr>)
           | (Inr _, p) \<Rightarrow> (Activated resp, p)))"

definition activate_commit :: "'k world \<Rightarrow> Session \<times> PEPActivationResponse \<Rightarrow> 'k pep \<Rightarrow> act_reply \<times> 'k pep" where
  "activate_commit W = (\<lambda>(session, resp) p.
     (case activate_begin W session p of
        (Inl err, p) \<Rightarrow> (ActError 500 ''persist XFRM apply intent failed'', p\<lparr>p_healthy := False\<rparr>)
      | (Inr _, p) \<Rightarrow> activate_apply W session resp p))"

definition activateHandler :: "'k world \<Rightarrow> act_request \<Rightarrow> 'k pep \<Rightarrow> act_reply \<times> 'k pep" where
  "activateHandler W r p =
     (case activate_prepare W r p of (Inl e, p) \<Rightarrow> (e, p) | (Inr t, p) \<Rightarrow> activate_commit W t p)"

definition sessionsHandler :: "'k pep \<Rightarrow> Session list" where
  "sessionsHandler p = map snd (p_sessions p)"

definition healthHandler :: "'k pep \<Rightarrow> nat \<times> string" where
  "healthHandler p = (if \<not> p_healthy p then (503, ''unhealthy'') else (200, ''ok''))"

subsection \<open>The firewall\<close>

definition firewall_commands :: "env \<Rightarrow> string list" where
  "firewall_commands env =
     (let clientCIDR = getenv env ''CLIENT_TUNNEL_CIDR'' ''10.200.0.0/16'';
          serviceIP = getenv env ''SERVICE_IP'' ''172.22.0.50'';
          servicePort = pep_getenvInt env ''SERVICE_PORT'' 80
      in [''iptables -F FORWARD'', ''iptables -P FORWARD DROP'',
          ''iptables -A FORWARD -s '' @ clientCIDR @ '' -d '' @ serviceIP @ ''/32 -p tcp --dport '' @ itoa servicePort @ '' -j ACCEPT'',
          ''iptables -A FORWARD -s '' @ serviceIP @ ''/32 -d '' @ clientCIDR @ '' -p tcp --sport '' @ itoa servicePort @ '' -j ACCEPT'',
          ''iptables -A FORWARD -j DROP''])"

fun run_firewall :: "'k kernel \<Rightarrow> string list \<Rightarrow> 'k \<Rightarrow> string option \<times> 'k" where
  "run_firewall K [] k = (None, k)"
| "run_firewall K (cmd # cmds) k =
     (case k_sh K cmd k of
        (Some err, k) \<Rightarrow> (Some (''firewall command failed: '' @ cmd @ '': '' @ err), k)
      | (None, k) \<Rightarrow> run_firewall K cmds k)"

definition setupPEPFirewall :: "'k world \<Rightarrow> 'k pep \<Rightarrow> string option \<times> 'k pep" where
  "setupPEPFirewall W p =
     (if getenv (w_env W) ''PEP_FIREWALL_ENABLED'' ''1'' \<notin> {''1'', ''true'', ''TRUE''} then (None, p)
      else case run_firewall (w_kernel W) (firewall_commands (w_env W)) (p_kernel p) of (err, k) \<Rightarrow> (err, p\<lparr>p_kernel := k\<rparr>))"

subsection \<open>Activation is fail-closed\<close>

lemma activate_begin_ok:
  assumes "activate_begin W s p = (Inr u, p')" "durable p"
  shows "blocked p'" "durable p'" "p_sessions p' = p_sessions p" "p_kernel p' = p_kernel p" "p_attestation p' = p_attestation p"
    "p_healthy p' = p_healthy p"
proof -
  from assms(1) obtain q md where q: "setPendingPEPOperation W ''xfrm_apply'' s p = (Inr (), q)"
    and p': "p' = pep_append W eventXFRMApplyIntent (Some s) md q"
    by (auto simp: activate_begin_def split: prod.splits sum.splits)
  from setPending_blocked [OF q assms(2)] setPending_ok(1) [OF q]
  show "blocked p'" "durable p'" "p_sessions p' = p_sessions p" "p_kernel p' = p_kernel p" "p_attestation p' = p_attestation p"
    "p_healthy p' = p_healthy p"
    by (auto simp: p' same_core_def)
qed

lemma activate_begin_error:
  assumes "activate_begin W s p = (Inl e, p')" "durable p" "quiescent p"
  shows "quiescent p'" "durable p'" "same_core p p'"
  using assms setPending_refused [of W "''xfrm_apply''" s p e p'] setPending_error(1) [of W "''xfrm_apply''" s p e p']
  by (auto simp: activate_begin_def split: prod.splits sum.splits)

lemma activate_apply_ok:
  assumes "activate_apply W s resp p = (Activated resp', p')" "durable p"
  shows "resp' = resp" "quiescent p'" "durable p'" "p_sessions p' = AList.update (ss_PEPInSPI s) s (p_sessions p)"
    "maybeApplyXFRM (w_env W) (w_kernel W) (ss_XFRM s) (p_kernel p) = (None, p_kernel p')"
    "p_attestation p' = p_attestation p" "p_healthy p' = p_healthy p"
proof -
  from assms(1) obtain q where q: "clearPendingPEPOperation W q = (Inr (), p')" "resp' = resp"
    and f: "p_sessions q = AList.update (ss_PEPInSPI s) s (p_sessions p)" "durable q = durable p"
      "maybeApplyXFRM (w_env W) (w_kernel W) (ss_XFRM s) (p_kernel p) = (None, p_kernel q)"
      "p_attestation q = p_attestation p" "p_healthy q = p_healthy p"
    by (auto simp: activate_apply_def pep_observe_applied_def Let_def split: prod.splits sum.splits option.splits if_splits)
  from clearPending_quiescent [OF q(1)] clearPending_ok(1) [OF q(1)] assms(2) f q(2)
  show "resp' = resp" "quiescent p'" "durable p'" "p_sessions p' = AList.update (ss_PEPInSPI s) s (p_sessions p)"
    "maybeApplyXFRM (w_env W) (w_kernel W) (ss_XFRM s) (p_kernel p) = (None, p_kernel p')"
    "p_attestation p' = p_attestation p" "p_healthy p' = p_healthy p"
    by (auto simp: same_core_def)
qed

lemma activate_apply_error:
  assumes "activate_apply W s resp p = (ActError c m, p')" "durable p" "blocked p"
  shows "blocked p' \<and> durable p' \<and> \<not> p_healthy p' \<and> p_attestation p' = p_attestation p"
proof -
  from assms(1) consider k where "p' = p\<lparr>p_kernel := k, p_healthy := False\<rparr>"
    | k k' md where "p' = (pep_append W eventXFRMApplyObserved (Some s) (Some md) (tick (p\<lparr>p_kernel := k\<rparr>)))\<lparr>p_kernel := k', p_healthy := False\<rparr>"
    | q q' err where "clearPendingPEPOperation W q = (Inl err, q')" "p' = q'\<lparr>p_healthy := False\<rparr>" "blocked q = blocked p"
        "durable q = durable p" "p_attestation q = p_attestation p"
    by (auto simp: activate_apply_def pep_observe_applied_def Let_def split: prod.splits sum.splits option.splits if_splits)
  then show ?thesis
  proof cases
    case (3 q q' err)
    from clearPending_refused [OF 3(1)] clearPending_error(1) [OF 3(1)] 3(2-) assms(2,3) show ?thesis
      by (simp add: same_core_def)
  qed (use assms(2,3) in simp_all)
qed

lemma commit_ok:
  assumes "activate_commit W (s, resp) p = (Activated resp', p')" "durable p"
  shows "resp' = resp" "quiescent p'" "durable p'" "p_sessions p' = AList.update (ss_PEPInSPI s) s (p_sessions p)"
    "maybeApplyXFRM (w_env W) (w_kernel W) (ss_XFRM s) (p_kernel p) = (None, p_kernel p')"
    "p_attestation p' = p_attestation p" "p_healthy p' = p_healthy p"
proof -
  from assms(1) obtain q where b: "activate_begin W s p = (Inr (), q)" and a: "activate_apply W s resp q = (Activated resp', p')"
    by (auto simp: activate_commit_def split: prod.splits sum.splits)
  note q = activate_begin_ok [OF b assms(2)]
  from activate_apply_ok [OF a q(2)] q
  show "resp' = resp" "quiescent p'" "durable p'" "p_sessions p' = AList.update (ss_PEPInSPI s) s (p_sessions p)"
    "maybeApplyXFRM (w_env W) (w_kernel W) (ss_XFRM s) (p_kernel p) = (None, p_kernel p')"
    "p_attestation p' = p_attestation p" "p_healthy p' = p_healthy p" by simp_all
qed

lemma commit_error:
  assumes "activate_commit W (s, resp) p = (ActError c m, p')" "durable p" "quiescent p"
  shows "durable p' \<and> \<not> p_healthy p' \<and> p_attestation p' = p_attestation p
    \<and> (quiescent p' \<and> p_kernel p' = p_kernel p \<and> p_sessions p' = p_sessions p \<or> blocked p')"
proof -
  obtain r q where b: "activate_begin W s p = (r, q)" by (cases "activate_begin W s p")
  show ?thesis
  proof (cases r)
    case (Inl e)
    with activate_begin_error [OF b [unfolded Inl] assms(2,3)] b assms(1) show ?thesis
      by (auto simp: activate_commit_def same_core_def)
  next
    case (Inr u)
    note q = activate_begin_ok [OF b [unfolded Inr] assms(2)]
    from b Inr assms(1) have "activate_apply W s resp q = (ActError c m, p')" by (simp add: activate_commit_def)
    from activate_apply_error [OF this q(2,1)] q(5) show ?thesis by simp
  qed
qed

subsection \<open>Preparation\<close>

text \<open>Preparation up to the token changes only the counters and the tick.\<close>

lemma resources_frame:
  assumes "activate_resources W r p = (x, p')"
  shows "\<exists>a b n. p' = p\<lparr>p_nextReqID := a, p_nextClientInnerID := b, p_tick := n\<rparr>"
proof (cases "activate_guards r p")
  case (Inl e)
  with assms show ?thesis
    by (intro exI [of _ "p_nextReqID p"] exI [of _ "p_nextClientInnerID p"] exI [of _ "p_tick p"]) (simp add: activate_resources_def)
next
  case (Inr req)
  show ?thesis
  proof (cases "activate_keys W (p_tick p) req")
    case (Inl e)
    with assms Inr show ?thesis
      by (intro exI [of _ "p_nextReqID p"] exI [of _ "p_nextClientInnerID p"] exI [of _ "Suc (p_tick p)"])
        (simp add: activate_resources_def)
  next
    case ks: (Inr ks)
    show ?thesis
    proof (cases "GenerateSPI (w_rand W (Suc (p_tick p)))")
      case None
      with assms Inr ks show ?thesis
        by (intro exI [of _ "p_nextReqID p"] exI [of _ "p_nextClientInnerID p"] exI [of _ "Suc (Suc (p_tick p))"])
          (simp add: activate_resources_def)
    next
      case (Some spi)
      with assms Inr ks have "p' = p\<lparr>p_nextReqID := p_nextReqID p + 1, p_nextClientInnerID := p_nextClientInnerID p + 1,
          p_tick := Suc (Suc (p_tick p))\<rparr>"
        by (auto simp: activate_resources_def allocateReqID_def allocateClientInnerIP_def Let_def split: option.splits if_splits)
      then show ?thesis by blast
    qed
  qed
qed

lemma counters_frame [simp]:
  "durable (p\<lparr>p_nextReqID := a\<rparr>) = durable p" "durable (p\<lparr>p_nextClientInnerID := a\<rparr>) = durable p"
  "quiescent (p\<lparr>p_nextReqID := a\<rparr>) = quiescent p" "quiescent (p\<lparr>p_nextClientInnerID := a\<rparr>) = quiescent p"
  "blocked (p\<lparr>p_nextReqID := a\<rparr>) = blocked p" "blocked (p\<lparr>p_nextClientInnerID := a\<rparr>) = blocked p"
  by (simp_all add: durable_def quiescent_def blocked_def)

lemma lifetime_frame:
  assumes "activate_lifetime W q = (y, q')" "durable q" "quiescent q"
  shows "durable q' \<and> (quiescent q' \<or> \<not> p_healthy q' \<and> blocked q')"
proof (cases "attested q")
  case True
  obtain r1 q1 where e: "ensureCapacityToken W q = (r1, q1)" by (cases "ensureCapacityToken W q")
  with assms(1) True have "q' = q1 \<or> q' = tick q1"
    by (auto simp: activate_lifetime_def Let_def split: sum.splits)
  with ensure_fail_closed [OF e assms(2,3)] show ?thesis by auto
qed (use assms in \<open>auto simp: activate_lifetime_def\<close>)

lemma session_frame:
  assumes "activate_session W x q = (y, q')" "durable q" "quiescent q"
  shows "durable q' \<and> (quiescent q' \<or> \<not> p_healthy q' \<and> blocked q')"
proof -
  obtain y1 q1 where l: "activate_lifetime W q = (y1, q1)" by (cases "activate_lifetime W q")
  with assms(1) have "q' = q1 \<or> q' = tick q1"
    by (auto simp: activate_session_def Let_def split: sum.splits option.splits)
  with lifetime_frame [OF l assms(2,3)] show ?thesis by auto
qed

lemma prepare_frame:
  assumes "activate_prepare W r p = (x, p')" "durable p" "quiescent p"
  shows "durable p' \<and> (quiescent p' \<or> \<not> p_healthy p' \<and> blocked p')"
proof -
  obtain y q where a: "activate_resources W r p = (y, q)" by (cases "activate_resources W r p")
  from resources_frame [OF a] assms(2,3) have q: "durable q" "quiescent q" by auto
  from assms(1) a have "p' = q \<or> (\<exists>z. activate_session W z q = (x, p'))"
    by (auto simp: activate_prepare_def split: sum.splits)
  with q session_frame [of W _ q x p'] show ?thesis by blast
qed

subsection \<open>Interleavings\<close>

text \<open>
  The steps of a running PEP: a request is prepared and waits for the history lock, a waiting request
  is committed, expired sessions are reaped, the token is renewed. The waiting requests are a list.
\<close>

inductive pstep :: "'k world \<Rightarrow> 'k pep \<times> (Session \<times> PEPActivationResponse) list \<Rightarrow> 'k pep \<times> (Session \<times> PEPActivationResponse) list \<Rightarrow> bool"
  for W where
  prepare: "activate_prepare W r p = (Inr t, p') \<Longrightarrow> pstep W (p, ts) (p', t # ts)"
| refuse: "activate_prepare W r p = (Inl e, p') \<Longrightarrow> pstep W (p, ts) (p', ts)"
| commit: "t \<in> set ts \<Longrightarrow> activate_commit W t p = (reply, p') \<Longrightarrow> pstep W (p, ts) (p', remove1 t ts)"
| reap: "p' = cleanupExpiredSessions W now p \<Longrightarrow> pstep W (p, ts) (p', ts)"
| refresh: "ensureCapacityToken W p = (r, p') \<Longrightarrow> pstep W (p, ts) (p', ts)"

inductive_cases pstep_elim: "pstep W (p, ts) (p', ts')"

definition idle :: "'k pep \<Rightarrow> bool" where
  "idle p \<longleftrightarrow> durable p \<and> quiescent p"

text \<open>The outcome of a step that started idle.\<close>

lemma commit_idle: "activate_commit W t p = (reply, p') \<Longrightarrow> idle p \<Longrightarrow> durable p' \<and> (quiescent p' \<or> \<not> p_healthy p' \<and> blocked p')"
  using commit_ok [of W "fst t" "snd t" p _ p'] commit_error [of W "fst t" "snd t" p _ _ p']
  by (cases reply) (auto simp: idle_def)

lemma cleanup_idle:
  "p' = cleanupExpiredSessions W now p \<Longrightarrow> idle p \<Longrightarrow> durable p' \<and> (quiescent p' \<or> \<not> p_healthy p' \<and> blocked p')"
proof -
  assume a: "p' = cleanupExpiredSessions W now p" "idle p"
  obtain r p1 where c: "cleanupExpiredSessionsUnderHistoryLock W now p = (r, p1)"
    by (cases "cleanupExpiredSessionsUnderHistoryLock W now p")
  from expire_all_fail_closed [OF c [unfolded cleanupExpiredSessionsUnderHistoryLock_def]] a(2)
  have f: "durable p1" "quiescent p1 \<or> r \<noteq> Inr () \<and> blocked p1" by (auto simp: idle_def)
  with a(1) c show ?thesis by (cases r) (auto simp: cleanupExpiredSessions_def)
qed

lemma step_from_idle:
  "pstep W (p, ts) (p', ts') \<Longrightarrow> idle p \<Longrightarrow> durable p' \<and> (quiescent p' \<or> \<not> p_healthy p' \<and> blocked p')"
proof (erule pstep_elim)
  fix now assume "p' = cleanupExpiredSessions W now p" "idle p"
  then show ?thesis by (rule cleanup_idle)
qed (auto simp: idle_def dest: prepare_frame ensure_fail_closed commit_idle [unfolded idle_def])

text \<open>
  What every operation keeps, whatever fails: health is never regained, sessions stay stored under
  their SPI, in memory and in the state file, and the kept token keeps fitting.
\<close>

abbreviation keyed_sessions :: "Session smap \<Rightarrow> bool" where
  "keyed_sessions ss \<equiv> distinct (keys ss) \<and> list_all (\<lambda>(k, s). k = ss_PEPInSPI s) ss"

definition sound_file :: "persistentPEPState content option \<Rightarrow> bool" where
  "sound_file c \<longleftrightarrow> (\<forall>d. c = Some (Doc d) \<longrightarrow> keyed_sessions (slice (ps_Sessions d)))"

definition steady :: "prims \<Rightarrow> 'k pep \<Rightarrow> 'k pep \<Rightarrow> bool" where
  "steady P p p' \<longleftrightarrow> (p_healthy p' \<longrightarrow> p_healthy p) \<and> p_statePath p' = p_statePath p
     \<and> (keyed p \<longrightarrow> keyed p') \<and> (keyed p \<and> sound_file (stored p) \<longrightarrow> sound_file (stored p'))
     \<and> (keeps_fitting P p \<longrightarrow> keeps_fitting P p')"

lemma steady_refl [intro, simp]: "steady P p p"
  by (simp add: steady_def)

lemma steady_trans [trans]: "steady P p q \<Longrightarrow> steady P q r \<Longrightarrow> steady P p r"
  by (auto simp: steady_def)

lemma steady_core:
  assumes "same_core p p'" "stored p' = stored p \<or> (\<exists>h. stored p' = Some (Doc (pep_snapshot h p')))"
  shows "steady P p p'"
  using assms by (auto simp: steady_def same_core_def keyed_def keeps_fitting_def sound_file_def)

lemma steady_frame [simp]:
  "steady P p (q\<lparr>p_tick := n\<rparr>) = steady P p q" "steady P p (q\<lparr>p_kernel := k\<rparr>) = steady P p q"
  "steady P p (q\<lparr>p_nextReqID := a\<rparr>) = steady P p q" "steady P p (q\<lparr>p_nextClientInnerID := b\<rparr>) = steady P p q"
  "steady P p (pep_append W ty s md q) = steady P p q" "steady P p (q\<lparr>p_history := h\<rparr>) = steady P p q"
  "steady P (p\<lparr>p_tick := n\<rparr>) q = steady P p q" "steady P (pep_append W ty s md p) q = steady P p q"
  "steady P (p\<lparr>p_history := h\<rparr>) q = steady P p q"
  by (simp_all add: steady_def keyed_def keeps_fitting_def)

lemma steady_unhealthy [intro!]: "steady P p q \<Longrightarrow> steady P p (q\<lparr>p_healthy := False\<rparr>)"
  by (auto simp: steady_def keyed_def keeps_fitting_def)

lemma steady_delete: "steady P p q \<Longrightarrow> p_sessions q = ss \<Longrightarrow> steady P p (q\<lparr>p_sessions := AList.delete k ss\<rparr>)"
proof -
  assume q: "steady P p q" "p_sessions q = ss"
  have "set (AList.delete k ss) \<subseteq> set ss" by (auto simp: AList.delete_eq)
  then have "keyed q \<Longrightarrow> keyed (q\<lparr>p_sessions := AList.delete k ss\<rparr>)"
    using q(2) distinct_keys_delete [of ss k] by (auto simp: keyed_def list_all_iff)
  with q(1) show ?thesis by (auto simp: steady_def keeps_fitting_def)
qed

lemma steady_update: "steady P p q \<Longrightarrow> p_sessions q = ss \<Longrightarrow> steady P p (q\<lparr>p_sessions := AList.update (ss_PEPInSPI s) s ss\<rparr>)"
proof -
  assume q: "steady P p q" "p_sessions q = ss"
  have "keyed q \<Longrightarrow> keyed (q\<lparr>p_sessions := AList.update (ss_PEPInSPI s) s ss\<rparr>)"
    using q(2) by (auto simp: keyed_def list_all_iff map_of_in_set [symmetric] update_conv' split: if_splits
        dest!: map_of_in_set [THEN iffD1, rotated])
  with q(1) show ?thesis by (auto simp: steady_def keeps_fitting_def)
qed

text \<open>A write leaves the file alone, or replaces it with the state of the process.\<close>

lemma persist_stored:
  assumes "persistPEPState W p = (r, p')"
  shows "stored p' = stored p \<or> (\<exists>h. stored p' = Some (Doc (pep_snapshot h p')))"
  using assms
proof (cases rule: persist_cases)
  case (2 h disk)
  then show ?thesis by (cases r) (auto simp: pep_snapshot_def dest: replace_file_target)
qed simp

lemma put_stored:
  "setPendingPEPOperation W opn s p = (r, p') \<Longrightarrow> stored p' = stored p \<or> (\<exists>h. stored p' = Some (Doc (pep_snapshot h p')))"
  "clearPendingPEPOperation W p = (r, p') \<Longrightarrow> stored p' = stored p \<or> (\<exists>h. stored p' = Some (Doc (pep_snapshot h p')))"
  "setPendingCapacityEvidence W ev p = (r, p') \<Longrightarrow> stored p' = stored p \<or> (\<exists>h. stored p' = Some (Doc (pep_snapshot h p')))"
  by (cases r; auto simp: setPendingPEPOperation_def clearPendingPEPOperation_def setPendingCapacityEvidence_def Let_def
      split: prod.splits sum.splits dest: persist_stored persist_error)+

lemma steady_put:
  "setPendingPEPOperation W opn s p = (r, p') \<Longrightarrow> steady P p p'" "clearPendingPEPOperation W p = (r, p') \<Longrightarrow> steady P p p'"
  "setPendingCapacityEvidence W ev p = (r, p') \<Longrightarrow> steady P p p'"
  by (cases r; auto intro: steady_core dest: put_stored setPending_ok setPending_error clearPending_ok clearPending_error
      setPendingCapacity_ok setPendingCapacity_error)+

lemma expire_begin_steady: "expire_begin W s p = (r, p') \<Longrightarrow> steady P p p'"
  by (auto simp: expire_begin_def Let_def split: prod.splits sum.splits dest: steady_put)

lemma steady_clear: "clearPendingPEPOperation W q = (r', p') \<Longrightarrow> steady P p q \<Longrightarrow> steady P p p'"
  by (blast intro: steady_trans steady_put)

lemma expire_delete_steady: "expire_delete W s p = (r, p') \<Longrightarrow> steady P p p'"
  by (auto simp: expire_delete_def pep_observe_deleted_def Let_def intro!: steady_delete elim!: steady_clear
      split: prod.splits sum.splits option.splits if_splits)

lemma expire_all_steady: "expire_all W ss p = (r, p') \<Longrightarrow> steady P p p'"
proof (induction ss arbitrary: p)
  case (Cons s ss)
  then show ?case
    by (auto split: prod.splits sum.splits dest: expire_begin_steady expire_delete_steady)
      (meson expire_begin_steady expire_delete_steady steady_trans)+
qed auto

lemma cleanup_steady:
  "p' = cleanupExpiredSessions W now p \<Longrightarrow> steady P p p'"
  by (auto simp: cleanupExpiredSessions_def cleanupExpiredSessionsUnderHistoryLock_def
      split: prod.splits sum.splits dest: expire_all_steady)

lemma renewal_evidence_steady: "renewal_evidence W s p = (r, p') \<Longrightarrow> steady P p p'"
  by (auto simp: renewal_evidence_def Let_def split: option.splits sum.splits prod.splits
      dest!: steady_put(3) [where P = P])

lemma steady_attestation:
  "steady P p q \<Longrightarrow> token_fits P s tok \<Longrightarrow> steady P p (q\<lparr>p_attestation := Some (s\<lparr>at_token := Some tok\<rparr>)\<rparr>)"
  by (auto simp: steady_def keyed_def keeps_fitting_def)

lemma accept_token_steady:
  assumes "accept_token W s ev tok p = (r, p')"
  shows "steady (w_prims W) p p'"
proof -
  from assms consider "p' = tick p"
    | h md q r1 where "setPendingCapacityEvidence W None (pep_append W eventCapacityAccepted None md (tick (p\<lparr>p_history := h\<rparr>))) = (r1, q)"
        "p' = q \<or> token_fits (w_prims W) s tok \<and> p' = q\<lparr>p_attestation := Some (s\<lparr>at_token := Some tok\<rparr>)\<rparr>"
    by (fastforce simp: accept_token_def Let_def validate_iff split: sum.splits prod.splits)
  then show ?thesis
  proof cases
    case 2
    have "steady (w_prims W) p (pep_append W eventCapacityAccepted None md (tick (p\<lparr>p_history := h\<rparr>)))" by simp
    also note steady_put(3) [OF 2(1), of "w_prims W"]
    finally show ?thesis using 2(2) steady_attestation by blast
  qed simp
qed

lemma ensure_steady:
  assumes "ensureCapacityToken W p = (r, p')"
  shows "steady (w_prims W) p p'"
  using assms
proof (cases rule: ensure_cases)
  case (3 s q)
  have pq: "steady (w_prims W) p q" using 3(4) by auto
  from 3(5) have "steady (w_prims W) q p'"
  proof (cases rule: renew_cases)
    case (1 e p1)
    with expire_all_steady [OF 1(1), of "w_prims W"] show ?thesis by auto
  next
    case (2 p1 e)
    with expire_all_steady [OF 2(1), of "w_prims W"] renewal_evidence_steady [OF 2(2), of "w_prims W"] show ?thesis
      by (auto intro: steady_trans)
  next
    case (3 p1 ev p2 e)
    with expire_all_steady [OF 3(1), of "w_prims W"] renewal_evidence_steady [OF 3(2), of "w_prims W"] show ?thesis
      by (auto intro: steady_trans)
  next
    case (4 p1 ev p2 tok)
    from expire_all_steady [OF 4(1), of "w_prims W"] renewal_evidence_steady [OF 4(2), of "w_prims W"] accept_token_steady [OF 4(3)]
    show ?thesis by (auto intro: steady_trans)
  qed
  with pq show ?thesis by (rule steady_trans)
qed auto

lemma prepare_steady:
  assumes "activate_prepare W r p = (x, p')"
  shows "steady (w_prims W) p p'"
proof -
  obtain y q where a: "activate_resources W r p = (y, q)" by (cases "activate_resources W r p")
  from resources_frame [OF a] have pq: "steady (w_prims W) p q" by auto
  show ?thesis
  proof (cases y)
    case (Inl e)
    with assms a pq show ?thesis by (simp add: activate_prepare_def)
  next
    case (Inr z)
    with assms a have s: "activate_session W z q = (x, p')" by (simp add: activate_prepare_def)
    obtain y1 q1 where l: "activate_lifetime W q = (y1, q1)" by (cases "activate_lifetime W q")
    have "steady (w_prims W) q q1"
      using l by (auto simp: activate_lifetime_def Let_def split: if_splits prod.splits sum.splits dest: ensure_steady)
    moreover from s l have "p' = q1 \<or> p' = tick q1"
      by (auto simp: activate_session_def Let_def split: sum.splits option.splits)
    ultimately show ?thesis using pq by (auto intro: steady_trans)
  qed
qed

lemma activate_apply_steady: "activate_apply W s resp p = (r, p') \<Longrightarrow> steady P p p'"
  by (auto simp: activate_apply_def pep_observe_applied_def Let_def intro!: steady_update elim!: steady_clear
      split: prod.splits sum.splits option.splits if_splits)

lemma commit_steady:
  assumes "activate_commit W t p = (r, p')"
  shows "steady P p p'"
proof -
  obtain s resp where t: "t = (s, resp)" by (cases t)
  obtain r1 q where b: "activate_begin W s p = (r1, q)" by (cases "activate_begin W s p")
  have "steady P p q"
    using b by (auto simp: activate_begin_def split: prod.splits sum.splits dest: steady_put)
  with assms t b show ?thesis
    by (cases r1) (auto simp: activate_commit_def dest: activate_apply_steady [where P = P] intro: steady_trans)
qed

lemma pstep_steady: "pstep W (p, ts) (p', ts') \<Longrightarrow> steady (w_prims W) p p'"
  by (erule pstep_elim) (auto dest: prepare_steady commit_steady [where P = "w_prims W"] ensure_steady intro: cleanup_steady)

text \<open>The invariant of a running PEP.\<close>

definition pep_inv :: "prims \<Rightarrow> 'k pep \<Rightarrow> bool" where
  "pep_inv P p \<longleftrightarrow> (p_healthy p \<longrightarrow> idle p) \<and> keyed p \<and> keeps_fitting P p"

lemma pep_inv_step:
  assumes "pstep W (p, ts) (p', ts')" "pep_inv (w_prims W) p"
  shows "pep_inv (w_prims W) p'"
proof -
  from pstep_steady [OF assms(1)] assms(2) have s: "p_healthy p' \<longrightarrow> p_healthy p" "keyed p'" "keeps_fitting (w_prims W) p'"
    by (auto simp: steady_def pep_inv_def)
  have "p_healthy p' \<longrightarrow> idle p'"
  proof
    assume h: "p_healthy p'"
    with s(1) assms(2) have "idle p" by (simp add: pep_inv_def)
    from step_from_idle [OF assms(1) this] h show "idle p'" by (auto simp: idle_def)
  qed
  with s show ?thesis by (simp add: pep_inv_def)
qed

subsection \<open>The events of an activation\<close>

text \<open>An event of the history that records a step of a session, with the metadata given to it.\<close>

definition session_event :: "string \<Rightarrow> Session \<Rightarrow> string smap \<Rightarrow> EnforcementEvent \<Rightarrow> bool" where
  "session_event ty s md e \<longleftrightarrow>
     ev_EventType e = ty \<and> ev_ServiceID e = ss_ServiceID s \<and> ev_ClientPubKey e = ss_ClientPubKey s
     \<and> ev_ClientOuterIP e = ss_ClientOuterIP s \<and> ev_ClientInnerIP e = ss_ClientInnerIP s
     \<and> ev_ClientInSPI e = ss_ClientInSPI s \<and> ev_PEPInSPI e = ss_PEPInSPI s \<and> ev_ReqID e = ss_ReqID s
     \<and> ev_Metadata e = Some (session_meta s (Some md))"

lemma session_meta_Nil: "session_meta s (Some md) = [] \<Longrightarrow> md = []"
  by (auto simp: session_meta_def Let_def split: if_splits)

lemma pep_append_events:
  assumes "p_history p = Some h" "md \<noteq> []"
  shows "\<exists>h' e. p_history (pep_append W ty (Some s) (Some md) p) = Some h' \<and> eh_events h' = eh_events h @ [e]
    \<and> session_event ty s md e \<and> ev_Timestamp e = Format_RFC3339 (w_clock W (p_tick p))"
proof -
  let ?e = "new_event h (w_clock W (p_tick p)) ty (Some s) (Some md)"
  have m: "session_event ty s md ?e" "ev_Timestamp ?e = Format_RFC3339 (w_clock W (p_tick p))"
    using assms(2) session_meta_Nil [of s md] by (auto simp: session_event_def new_event_def Let_def)
  then show ?thesis
    using assms(1) by (simp add: pep_append_def historyAppend_def AppendEvent_def Let_def session_event_def)
qed

lemma AList_update_Cons: "AList.update k v m \<noteq> []"
  by (cases m) (auto split: if_splits)

lemma applied_meta_nonempty: "observeXFRMAppliedWithObserver P env ip a b c ob s evs \<noteq> []"
  by (auto simp: observeXFRMAppliedWithObserver_def with_durations_def Let_def AList_update_Cons split: option.split)

lemma setPending_tick: "setPendingPEPOperation W opn s p = (r, p') \<Longrightarrow> p_tick p \<le> p_tick p'"
  by (cases r) (auto simp: setPendingPEPOperation_def Let_def split: prod.splits sum.splits elim!: persist_cases)

text \<open>The three events of a successful activation.\<close>

lemma commit_events:
  assumes "activate_commit W (s, resp) p = (Activated resp', p')" "p_history p = Some h"
  obtains h' e1 e2 e3 md where "p_history p' = Some h'" "eh_events h' = eh_events h @ [e1, e2, e3]"
    "session_event eventXFRMApplyIntent s [(''xfrm_mode'', getenv (w_env W) ''XFRM_MODE'' ''dry-run''),
       (''xfrm_plan_hash'', xfrmPlanHash (w_prims W) (ss_XFRM s))] e1"
    "session_event eventXFRMApplyObserved s md e2"
    "session_event eventSessionActivated s [(''attested'', strconv_FormatBool (pr_CapacityToken resp \<noteq> None))] e3"
    "observationMeetsLocalProfile (w_env W) (p_attestation p) (Some md) ''applied''"
    "mget md ''xfrm_mode'' = getenv (w_env W) ''XFRM_MODE'' ''dry-run''"
    "mget md ''xfrm_plan_hash'' = xfrmPlanHash (w_prims W) (ss_XFRM s)"
    "\<exists>n. p_tick p \<le> n \<and> ev_Timestamp e1 = Format_RFC3339 (w_clock W n)"
proof -
  let ?m1 = "[(''xfrm_mode'', getenv (w_env W) ''XFRM_MODE'' ''dry-run''), (''xfrm_plan_hash'', xfrmPlanHash (w_prims W) (ss_XFRM s))]"
  let ?m3 = "[(''attested'', strconv_FormatBool (pr_CapacityToken resp \<noteq> None))]"
  from assms(1) obtain q where b: "activate_begin W s p = (Inr (), q)" and a: "activate_apply W s resp q = (Activated resp', p')"
    by (auto simp: activate_commit_def split: prod.splits sum.splits)
  from b obtain q0 where q0: "setPendingPEPOperation W ''xfrm_apply'' s p = (Inr (), q0)"
    and q: "q = pep_append W eventXFRMApplyIntent (Some s) (Some ?m1) q0"
    by (auto simp: activate_begin_def split: prod.splits sum.splits)
  have h0: "p_history q0 = Some h" "p_attestation q0 = p_attestation p"
    using setPending_ok(1) [OF q0] assms(2) by (simp_all add: same_core_def)
  from pep_append_events [OF h0(1), of ?m1 W eventXFRMApplyIntent s] obtain h1 e1 where h1: "p_history q = Some h1"
    "eh_events h1 = eh_events h @ [e1]" "session_event eventXFRMApplyIntent s ?m1 e1"
    "ev_Timestamp e1 = Format_RFC3339 (w_clock W (p_tick q0))" by (auto simp: q)
  obtain d1 d2 d3 where d: "w_durations W (p_tick q) = (d1, d2, d3)" by (rule prod_cases3)
  from a obtain k where k: "maybeApplyXFRM (w_env W) (w_kernel W) (ss_XFRM s) (p_kernel q) = (None, k)"
    by (auto simp: activate_apply_def Let_def split: prod.splits option.splits)
  define md where "md = observeXFRMAppliedWithObserver (w_prims W) (w_env W) (k_ip (w_kernel W) k) d1 d2 d3 (p_observer q) s
    (w_events W (p_tick q))"
  let ?q1 = "tick (q\<lparr>p_kernel := k\<rparr>)"
  let ?q2 = "pep_append W eventXFRMApplyObserved (Some s) (Some md) ?q1"
  let ?q3 = "pep_append W eventSessionActivated (Some s) (Some ?m3)
      (?q2\<lparr>p_sessions := AList.update (ss_PEPInSPI s) s (p_sessions ?q2)\<rparr>)"
  have ok: "observationMeetsLocalProfile (w_env W) (p_attestation q) (Some md) ''applied''" "clearPendingPEPOperation W ?q3 = (Inr (), p')"
    using a k d by (auto simp: activate_apply_def pep_observe_applied_def Let_def md_def split: if_splits prod.splits sum.splits)
  have ne: "md \<noteq> []" by (simp add: md_def applied_meta_nonempty)
  have "p_history ?q1 = Some h1" using h1(1) by simp
  from pep_append_events [OF this ne, of W eventXFRMApplyObserved s] obtain h2 e2 where h2: "p_history ?q2 = Some h2"
    "eh_events h2 = eh_events h1 @ [e2]" "session_event eventXFRMApplyObserved s md e2" by blast
  have "p_history (?q2\<lparr>p_sessions := AList.update (ss_PEPInSPI s) s (p_sessions ?q2)\<rparr>) = Some h2" using h2(1) by simp
  from pep_append_events [OF this, of ?m3 W eventSessionActivated s] obtain h3 e3 where h3: "p_history ?q3 = Some h3"
    "eh_events h3 = eh_events h2 @ [e3]" "session_event eventSessionActivated s ?m3 e3" by blast
  have "p_history p' = Some h3" using clearPending_ok(1) [OF ok(2)] h3(1) by (simp add: same_core_def)
  moreover have "p_attestation q = p_attestation p" using h0(2) by (simp add: q)
  moreover have "mget md ''xfrm_mode'' = getenv (w_env W) ''XFRM_MODE'' ''dry-run''"
    "mget md ''xfrm_plan_hash'' = xfrmPlanHash (w_prims W) (ss_XFRM s)"
    by (simp_all add: md_def observeXFRMAppliedWithObserver_def mget_with_durations observeApplied_meta)
  ultimately show thesis using that [of h3 e1 e2 e3 md] h1 h2 h3 ok(1) setPending_tick [OF q0] by auto
qed

subsection \<open>The verifier's view of an activation\<close>

definition session_key :: "Session \<Rightarrow> string" where
  "session_key s = ss_ClientPubKey s @ ''|'' @ ss_ServiceID s @ ''|'' @ ss_ClientOuterIP s @ ''|''
     @ ss_ClientInnerIP s @ ''|'' @ ss_ClientInSPI s @ ''|'' @ ss_PEPInSPI s @ ''|'' @ utoa (ss_ReqID s)"

definition complete_session :: "Session \<Rightarrow> bool" where
  "complete_session s \<longleftrightarrow> ss_ServiceID s \<noteq> '''' \<and> ss_ClientPubKey s \<noteq> '''' \<and> ss_ClientInSPI s \<noteq> '''' \<and> ss_PEPInSPI s \<noteq> ''''
     \<and> ss_ClientInnerIP s \<noteq> '''' \<and> ss_ClientOuterIP s \<noteq> '''' \<and> ss_ReqID s \<noteq> 0"

lemma session_event_view:
  assumes "session_event ty s md e"
  shows "sessionKey e = session_key s" "ev_EventType e = ty" "ev_ServiceID e = ss_ServiceID s"
    "complete_session s \<Longrightarrow> requireCompleteSessionEvent e = Inr ()"
    "k \<notin> {''expires_at'', ''aead''} \<Longrightarrow> meta e k = mget md k"
    "ss_ExpiresAt s \<noteq> '''' \<Longrightarrow> eventExpiry e = strings_TrimSpace (ss_ExpiresAt s)"
    "ev_Metadata e \<noteq> None"
  using assms
  by (simp_all add: session_event_def sessionKey_def session_key_def complete_session_def requireCompleteSessionEvent_def
      meta_def session_meta_def mget_update eventExpiry_def Let_def)

lemma hex_solid: "list_all solid (hex_EncodeToString bs)"
proof -
  have "solid c" if "33 \<le> (of_char c :: nat)" "(of_char c :: nat) \<le> 126" for c
    using that by (auto simp: solid_def space_runes_def)
  then have "solid (hex_char n)" if "n < 16" for n
    using that by (simp add: hex_char_def)
  moreover have "unat (b :: byte) div 16 < 16" for b using unat_byte_less [of b] by auto
  ultimately show ?thesis by (auto simp: hex_EncodeToString_def hex_byte_def list_all_iff Let_def)
qed

lemma plan_hash_shape:
  assumes "sha256_size P"
  shows "strings_TrimSpace (xfrmPlanHash P pl) = xfrmPlanHash P pl" "xfrmPlanHash P pl \<noteq> ''''" "xfrmPlanHash P pl \<noteq> ''hash_error''"
proof -
  show "strings_TrimSpace (xfrmPlanHash P pl) = xfrmPlanHash P pl"
    by (simp add: xfrmPlanHash_def HashCanonical_def TrimSpace_solid hex_solid)
  have "length (xfrmPlanHash P pl) = 64" using assms by (simp add: xfrmPlanHash_def HashCanonical_def sha256_size_def)
  then show "xfrmPlanHash P pl \<noteq> ''''" "xfrmPlanHash P pl \<noteq> ''hash_error''" by auto
qed

text \<open>The expiry of the session is readable and within the maximum as seen at every later clock reading.\<close>

definition expiry_within :: "(nat \<Rightarrow> time) \<Rightarrow> nat \<Rightarrow> Session \<Rightarrow> int \<Rightarrow> bool" where
  "expiry_within clock n s maxL \<longleftrightarrow>
     0 < maxL \<and> maxL \<le> 8000000000 \<and> ss_ExpiresAt s \<noteq> '''' \<and> strings_TrimSpace (ss_ExpiresAt s) = ss_ExpiresAt s
     \<and> (\<exists>x. Parse_RFC3339 (ss_ExpiresAt s) = Some x
          \<and> (\<forall>m \<ge> n. four_digit_year (clock m) \<and> x \<le> clock m + maxL * Second))"

lemma lifetime_accepted:
  assumes "expiry_within clock n s maxL" "session_event ty s md e" "n \<le> m" "ev_Timestamp e = Format_RFC3339 (clock m)"
  shows "validateSessionLifetime e maxL = Inr ()"
proof -
  from assms(1,3) obtain x where x: "Parse_RFC3339 (ss_ExpiresAt s) = Some x" "four_digit_year (clock m)" "x \<le> clock m + maxL * Second"
    and l: "0 < maxL" "maxL \<le> 8000000000" "ss_ExpiresAt s \<noteq> ''''" "strings_TrimSpace (ss_ExpiresAt s) = ss_ExpiresAt s"
    by (auto simp: expiry_within_def)
  let ?ts = "clock m div Second * Second"
  have d: "dur_seconds (wrap64 (maxL + 1)) = (maxL + 1) * Second"
    using l(1,2) by (simp add: wrap64_id dur_seconds_small)
  have "clock m < ?ts + Second" by (simp add: Second_def)
  with x(3) have "x - ?ts \<le> (maxL + 1) * Second" by (simp add: algebra_simps)
  moreover have "0 \<le> (maxL + 1) * Second" using l(1) by (simp add: Second_def)
  ultimately have "time_Sub x ?ts \<le> (maxL + 1) * Second" by (simp add: time_Sub_def min_duration_def)
  with x l d assms(4) session_event_view(6) [OF assms(2) l(3)] show ?thesis
    by (simp add: validateSessionLifetime_def Let_def Parse_Format)
qed

subsection \<open>Properties\<close>

text \<open>
  (C5) Activation is fail-closed: committing a session from a state with nothing pending either
  succeeds, with all kernel commands run, the session stored under its SPI and the state file in
  agreement; or it changes neither kernel nor sessions; or it leaves a state file from which a
  restart is refused. After every failure the PEP is unhealthy.
\<close>
theorem activation_fail_closed:
  assumes "activate_commit W (s, resp) p = (reply, p')" "durable p" "quiescent p"
  shows "reply = Activated resp \<and> quiescent p' \<and> p_sessions p' = AList.update (ss_PEPInSPI s) s (p_sessions p)
      \<and> maybeApplyXFRM (w_env W) (w_kernel W) (ss_XFRM s) (p_kernel p) = (None, p_kernel p')
    \<or> (\<exists>c m. reply = ActError c m) \<and> \<not> p_healthy p' \<and> quiescent p' \<and> p_kernel p' = p_kernel p \<and> p_sessions p' = p_sessions p
    \<or> (\<exists>c m. reply = ActError c m) \<and> \<not> p_healthy p'
      \<and> (\<exists>opn. fst (loadPEPState P (p_statePath p') h0 (q\<lparr>p_disk := p_disk p'\<rparr>)) = Inl (IncompletePending opn))"
proof (cases reply)
  case (ActError c m)
  from commit_error [OF assms(1) [unfolded ActError] assms(2,3)] blocked_refuses [of p' P h0 q] ActError show ?thesis by blast
next
  case (Activated r)
  from commit_ok [OF assms(1) [unfolded Activated] assms(2)] Activated show ?thesis by simp
qed


text \<open>
  (C10) An honest activation satisfies the verifier: the events that a successful activation adds to the
  history are accepted by the verifier's policy under the profile that the PEP is configured with,
  and make the session active there with its own expiry and plan hash. The service must be in the
  scope, the session complete, its expiry within the maximum, and its key neither active nor in
  progress.
\<close>
theorem activation_accepted_by_policy:
  assumes "activate_commit W (s, resp) p = (Activated resp', p')" "p_history p = Some h"
    and "p_attestation p = Some a" "at_enabled a" "sha256_size (w_prims W)"
    and "complete_session s" "contains scope (ss_ServiceID s) \<or> contains scope ''*''"
    and "expiry_within (w_clock W) (p_tick p) s maxL"
    and "strings_ToLower (strings_TrimSpace (getenv (w_env W) ''XFRM_MODE'' ''dry-run'')) = ''apply''
           \<longrightarrow> getenv (w_env W) ''XFRM_MODE'' ''dry-run'' = ''apply''"
    and "map_of active (session_key s) = None" "map_of stages (session_key s) = None"
  shows "\<exists>h' t stages'. p_history p' = Some h' \<and> take (length (eh_events h)) (eh_events h') = eh_events h
    \<and> policy_events scope maxL (strings_ToLower (getenv (w_env W) ''PEP_REQUIRED_OBSERVER_PROFILE'' ''posthoc''))
        (drop (length (eh_events h)) (eh_events h')) (active, stages) = Inr (AList.update (session_key s) t active, stages')
    \<and> ts_ExpiresAt t = ss_ExpiresAt s \<and> ts_XFRMPlanHash t = xfrmPlanHash (w_prims W) (ss_XFRM s)"
proof -
  let ?k = "session_key s" and ?H = "xfrmPlanHash (w_prims W) (ss_XFRM s)"
  let ?r = "strings_ToLower (getenv (w_env W) ''PEP_REQUIRED_OBSERVER_PROFILE'' ''posthoc'')"
  obtain h' e1 e2 e3 md n where h': "p_history p' = Some h'" "eh_events h' = eh_events h @ [e1, e2, e3]"
    and s1: "session_event eventXFRMApplyIntent s [(''xfrm_mode'', getenv (w_env W) ''XFRM_MODE'' ''dry-run''), (''xfrm_plan_hash'', ?H)] e1"
    and s2: "session_event eventXFRMApplyObserved s md e2"
    and s3: "session_event eventSessionActivated s [(''attested'', strconv_FormatBool (pr_CapacityToken resp \<noteq> None))] e3"
    and obs: "observationMeetsLocalProfile (w_env W) (p_attestation p) (Some md) ''applied''"
      "mget md ''xfrm_mode'' = getenv (w_env W) ''XFRM_MODE'' ''dry-run''" "mget md ''xfrm_plan_hash'' = ?H"
    and n: "p_tick p \<le> n" "ev_Timestamp e1 = Format_RFC3339 (w_clock W n)"
    using commit_events [OF assms(1,2)] by metis
  note H = plan_hash_shape [OF assms(5), of "ss_XFRM s"]
  have ex: "ss_ExpiresAt s \<noteq> ''''" "strings_TrimSpace (ss_ExpiresAt s) = ss_ExpiresAt s" using assms(8) by (auto simp: expiry_within_def)
  have p1: "policy_event scope maxL ?r e1 (active, stages) = Inr (active, set_stage ?k ''apply_intent'' ?H stages)"
    using lifetime_accepted [OF assms(8) s1 n] session_event_view(1-4,7) [OF s1] session_event_view(5) [OF s1, of "''xfrm_plan_hash''"] assms(6,7,10,11) H
    by (simp add: policy_event_def policy_switch_def allowedTypes_def event_names requireXFRMPlanHash_def mget_def)
  have v: "verifyObservedEvent e2 ''applied'' ?r ?H = Inr ()"
  proof (rule local_profile_verifier)
    show "observationMeetsLocalProfile (w_env W) (Some a) (Some md) ''applied''" using obs(1) assms(3) by simp
    show "ev_Metadata e2 \<noteq> None" by (rule session_event_view(7) [OF s2])
    show "meta e2 k = mget md k" if "k \<in> {''applied'', ''xfrm_mode'', ''observer_source'', ''ebpf_matched'', ''xfrm_plan_hash''}" for k
      using that by (intro session_event_view(5) [OF s2]) auto
    show "strings_ToLower (strings_TrimSpace (mget md ''xfrm_mode'')) = ''apply'' \<longrightarrow> mget md ''xfrm_mode'' = ''apply''"
      using assms(9) unfolding obs(2) .
    show "strings_TrimSpace ?H \<noteq> ''''" using H by simp
  qed (fact assms(4) obs(3) H(3))+
  have p2: "policy_event scope maxL ?r e2 (active, set_stage ?k ''apply_intent'' ?H stages)
      = Inr (active, set_stage ?k ''apply_observed'' ?H (set_stage ?k ''apply_intent'' ?H stages))"
    using v session_event_view(1-4) [OF s2] assms(6,7)
    by (simp add: policy_event_def policy_switch_def allowedTypes_def event_names stage_at_def set_stage_def update_conv')
  let ?t = "tracked_of e3 (ss_ExpiresAt s) ?H"
  have p3: "policy_event scope maxL ?r e3 (active, set_stage ?k ''apply_observed'' ?H (set_stage ?k ''apply_intent'' ?H stages))
      = Inr (AList.update ?k ?t active,
          set_stage ?k ''active'' ?H (set_stage ?k ''apply_observed'' ?H (set_stage ?k ''apply_intent'' ?H stages)))"
    using session_event_view(1-4) [OF s3] session_event_view(6) [OF s3 ex(1)] ex assms(6,7)
    by (simp add: policy_event_def policy_switch_def allowedTypes_def event_names stage_at_def set_stage_def update_conv' Let_def)
  from h' p1 p2 p3 show ?thesis by (auto simp: tracked_of_def)
qed

text \<open>
  The PEP does not check the service of an activation against its scope, and the verifier does:
  an activation for a service outside the scope succeeds at the PEP, and from then on the policy
  rejects every sequence of events that contains it.
\<close>
theorem out_of_scope_activation_poisons:
  assumes "activate_commit W (s, resp) p = (Activated resp', p')" "p_history p = Some h"
    and "ss_ServiceID s \<noteq> ''''" "\<not> contains scope (ss_ServiceID s)" "\<not> contains scope ''*''"
  shows "\<exists>h' new. p_history p' = Some h' \<and> eh_events h' = eh_events h @ new
    \<and> \<not> is_ok (policy_events scope maxL profile (pre @ new @ post) (active, stages))"
proof -
  obtain h' e1 e2 e3 md where h': "p_history p' = Some h'" "eh_events h' = eh_events h @ [e1, e2, e3]"
    and s1: "session_event eventXFRMApplyIntent s [(''xfrm_mode'', getenv (w_env W) ''XFRM_MODE'' ''dry-run''),
       (''xfrm_plan_hash'', xfrmPlanHash (w_prims W) (ss_XFRM s))] e1"
    by (rule commit_events [OF assms(1,2)])
  have bad: "policy_event scope maxL profile e1 st = Inl (ServiceOutsideScope (ss_ServiceID s))" for st
    using session_event_view(2,3) [OF s1] assms(3-5) by (simp add: policy_event_def allowedTypes_def event_names)
  have "\<not> is_ok (policy_events scope maxL profile (pre @ e1 # rest) st)" for rest st
  proof (induction pre arbitrary: st)
    case (Cons e pre)
    then show ?case by (cases "policy_event scope maxL profile e st") simp_all
  qed (simp add: bad)
  with h' show ?thesis by (intro exI [of _ h'] exI [of _ "[e1, e2, e3]"]) simp
qed

subsection \<open>Examples\<close>

text \<open>A dry run with a dry-run profile: a session is installed and accepted.\<close>

definition dry_env :: env where
  "dry_env = [''PEP_REQUIRED_OBSERVER_PROFILE'' \<mapsto> ''dry-run'']"

definition dry_world :: "unit world" where
  "dry_world = att_world\<lparr>w_env := dry_env\<rparr>"

definition dry_pep :: "unit pep" where
  "dry_pep = att_pep\<lparr>p_pendingCapacity := None\<rparr>"

definition dry_session :: Session where
  "dry_session = ex_session\<lparr>ss_ExpiresAt := Format_RFC3339 ex_now\<rparr>"

definition dry_response :: PEPActivationResponse where
  "dry_response = new_response dry_session 30"

lemma dry_pep_idle: "durable dry_pep" "quiescent dry_pep" "keyed dry_pep" "keeps_fitting P dry_pep"
  by (simp_all add: dry_pep_def att_pep_def ex_pep_def durable_def quiescent_def holds_sessions_def keyed_def keeps_fitting_def
      att_state_def)

lemma dry_applied:
  assumes "getenv env ''XFRM_MODE'' ''dry-run'' \<noteq> ''apply''" "strings_ToLower (getenv env ''PEP_REQUIRED_OBSERVER_PROFILE'' ''posthoc'') = ''dry-run''"
  shows "observationMeetsLocalProfile env at (Some (observeXFRMAppliedWithObserver P env ip a b c ob s evs)) ''applied''"
  using assms by (simp add: observationMeetsLocalProfile_def observationSuccessful_def observeXFRMAppliedWithObserver_def
      mget_with_durations mget_outcome_dry observeApplied_meta observeApplied_dry)

lemma dry_env_facts:
  "getenv (w_env dry_world) ''XFRM_MODE'' ''dry-run'' = ''dry-run''" "w_os dry_world n = os_fine"
  "strings_ToLower (getenv (w_env dry_world) ''PEP_REQUIRED_OBSERVER_PROFILE'' ''posthoc'') = ''dry-run''"
  "w_prims dry_world = demo_prims" "w_clock dry_world = (\<lambda>_. ex_now)"
  by (simp_all add: dry_world_def att_world_def ex_world_def dry_env_def getenv_def os_Getenv_def)

text \<open>With a disk that works, a dry run commits every session.\<close>

lemma dry_run_commits:
  assumes W: "getenv (w_env W) ''XFRM_MODE'' ''dry-run'' \<noteq> ''apply''" "\<And>n. w_os W n = os_fine"
    "strings_ToLower (getenv (w_env W) ''PEP_REQUIRED_OBSERVER_PROFILE'' ''posthoc'') = ''dry-run''"
  shows "\<exists>p'. activate_commit W (s, resp) p = (Activated resp, p')"
proof -
  obtain q where b: "activate_begin W s p = (Inr (), q)"
    using put_fine(1) [OF W(2), of "''xfrm_apply''" s p] by (auto simp: activate_begin_def)
  obtain d1 d2 d3 where d: "w_durations W (p_tick q) = (d1, d2, d3)" by (rule prod_cases3)
  have "\<exists>q'. activate_apply W s resp q = (case clearPendingPEPOperation W q' of
      (Inl err, p) \<Rightarrow> (ActError 500 ''persist activated session failed'', p\<lparr>p_healthy := False\<rparr>) | (Inr _, p) \<Rightarrow> (Activated resp, p))"
    using W(1) dry_applied [OF W(1,3)]
    by (simp add: activate_apply_def maybeApplyXFRM_def pep_observe_applied_def d Let_def) blast
  then obtain q' where q': "activate_apply W s resp q = (case clearPendingPEPOperation W q' of
      (Inl err, p) \<Rightarrow> (ActError 500 ''persist activated session failed'', p\<lparr>p_healthy := False\<rparr>) | (Inr _, p) \<Rightarrow> (Activated resp, p))" ..
  from put_fine(2) [OF W(2), of q'] q' b show ?thesis by (auto simp: activate_commit_def)
qed

lemma dry_commit: "\<exists>p'. activate_commit dry_world (s, resp) p = (Activated resp, p')"
  by (rule dry_run_commits) (simp_all add: dry_env_facts)

theorem activation_fail_closed_witness:
  "\<exists>p'. activate_commit dry_world (dry_session, dry_response) dry_pep = (Activated dry_response, p') \<and> quiescent p'"
proof -
  from dry_commit obtain p' where c: "activate_commit dry_world (dry_session, dry_response) dry_pep = (Activated dry_response, p')" by blast
  from activation_fail_closed [OF c dry_pep_idle(1,2)] c show ?thesis by blast
qed


lemma dry_expiry: "expiry_within (w_clock dry_world) 0 dry_session 30"
proof -
  have "Format_RFC3339 ex_now = ''2025-01-01T00:00:00Z''" by code_simp
  moreover have "list_all solid ''2025-01-01T00:00:00Z''" by (simp add: solid_def space_runes_def)
  ultimately have "strings_TrimSpace (Format_RFC3339 ex_now) = Format_RFC3339 ex_now" using TrimSpace_solid by metis
  moreover have "four_digit_year ex_now" using ex_clock by (simp add: clock_ok_def)
  ultimately show ?thesis
    by (simp add: expiry_within_def dry_session_def dry_env_facts Parse_Format) (simp add: Second_def)
qed

lemma dry_history: "p_history dry_pep = Some (NewEnforcementHistory ''p'')" "p_attestation dry_pep = Some att_state" "at_enabled att_state"
  "p_tick dry_pep = 0" "complete_session dry_session"
  by (simp_all add: dry_pep_def att_pep_def ex_pep_def att_state_def complete_session_def dry_session_def ex_session_def)

theorem activation_accepted_by_policy_witness:
  "\<exists>p' h' A. activate_commit dry_world (dry_session, dry_response) dry_pep = (Activated dry_response, p') \<and> p_history p' = Some h'
    \<and> policy_events [''*''] 30 ''dry-run'' (eh_events h') ([], []) = Inr A"
proof -
  from dry_commit obtain p' where c: "activate_commit dry_world (dry_session, dry_response) dry_pep = (Activated dry_response, p')" by blast
  have sc: "contains [''*''] (ss_ServiceID dry_session) \<or> contains [''*''] ''*''"
    using TrimSpace_solid [of "''*''"] by (simp add: solid_def space_runes_def)
  have e: "expiry_within (w_clock dry_world) (p_tick dry_pep) dry_session 30" using dry_expiry dry_history(4) by simp
  have h: "sha256_size (w_prims dry_world)" by (simp add: dry_env_facts)
  have m: "strings_ToLower (strings_TrimSpace (getenv (w_env dry_world) ''XFRM_MODE'' ''dry-run'')) = ''apply''
           \<longrightarrow> getenv (w_env dry_world) ''XFRM_MODE'' ''dry-run'' = ''apply''"
    using TrimSpace_solid [of "''dry-run''"] by (simp add: dry_env_facts solid_def space_runes_def)
  from activation_accepted_by_policy [OF c dry_history(1,2,3) h dry_history(5) sc e m, of "[]" "[]"] c show ?thesis
    by (auto simp: dry_env_facts NewEnforcementHistory_def)
qed

theorem out_of_scope_activation_poisons_witness:
  "\<exists>p' h'. activate_commit dry_world (dry_session, dry_response) dry_pep = (Activated dry_response, p') \<and> p_history p' = Some h'
    \<and> \<not> is_ok (policy_events [] 30 ''dry-run'' (eh_events h') ([], []))"
proof -
  from dry_commit obtain p' where c: "activate_commit dry_world (dry_session, dry_response) dry_pep = (Activated dry_response, p')" by blast
  have "ss_ServiceID dry_session \<noteq> ''''" by (simp add: dry_session_def ex_session_def)
  from out_of_scope_activation_poisons [OF c dry_history(1) this, of "[]" 30 "''dry-run''" "[]" "[]" "[]" "[]"] c show ?thesis
    by (auto simp: NewEnforcementHistory_def)
qed

end
