(* ===== verification/Noise.thy ===== *)
theory Noise
  imports Cryptoutil Go_Time
begin

text \<open>
  The single-packet authorization handshake, \<^verbatim>\<open>common/noiseutil/noiseutil.go\<close>: a one-message Noise IKpsk1
  exchange whose encrypted static slot also carries a timestamp, and the response key it yields.
  SHA-256, X25519 and AES-GCM are the parameters of \<^verbatim>\<open>prims\<close>; HMAC is defined over the hash (RFC 2104).
  Random bytes are an input, \<open>None\<close> when the generator fails.
\<close>

unbundle bit_operations_syntax

definition ProtocolName :: string where "ProtocolName = ''Noise_IKpsk1_25519_AESGCM_SHA256''"
definition NSPlainLen :: nat where "NSPlainLen = 40"
definition NSTagLen :: nat where "NSTagLen = 16"
definition NSCipherLen :: nat where "NSCipherLen = NSPlainLen + NSTagLen"
definition EPublicLen :: nat where "EPublicLen = 32"
definition MaxSPAPacket :: nat where "MaxSPAPacket = 1200"

lemmas spa_lens = NSPlainLen_def NSTagLen_def NSCipherLen_def EPublicLen_def MaxSPAPacket_def

datatype spa_error = ErrInvalidPacket | SPAInvalidTime | ErrInvalidKey | ErrDecryptFailed | SPAError string

record ClientIdentity =
  cid_ClientStaticPub :: string
  cid_ClientStaticPriv :: string
  cid_SPAPSK :: string

record PDPIdentity =
  pid_PDPStaticPub :: string
  pid_PDPStaticPriv :: string
  pid_SPAPSK :: string

record BuildResult =
  br_Packet :: bytes
  br_PacketHash :: string
  br_ResponseKey :: bytes
  br_TimestampMS :: int

record OpenResult =
  or_ClientStaticPub :: string
  or_TimestampMS :: int
  or_Payload :: bytes
  or_PacketHash :: string
  or_ResponseKey :: bytes

record symmetricState =
  sy_ck :: bytes
  sy_h :: bytes
  sy_k :: "bytes option" \<comment> \<open>nil before the first \<open>mixKey\<close>\<close>
  sy_n :: u64

record OpenHeaderResult =
  oh_ClientStaticPub :: string
  oh_TimestampMS :: int
  oh_PacketHash :: string
  oh_pdpStaticPriv :: bytes
  oh_clientStaticPubRaw :: bytes
  oh_nmCipher :: bytes
  oh_ss :: "symmetricState option"

subsection \<open>Keys\<close>

definition decodeB64 :: "string \<Rightarrow> nat \<Rightarrow> spa_error + bytes" where
  "decodeB64 s expected =
     (case base64_DecodeString s of None \<Rightarrow> Inl (SPAError ''base64'')
      | Some b \<Rightarrow> if length b \<noteq> expected then Inl ErrInvalidKey else Inr b)"

definition clamp :: "bytes \<Rightarrow> bytes" where
  "clamp priv =
     (let priv = priv[0 := priv ! 0 AND 248]; priv = priv[31 := priv ! 31 AND 127] in priv[31 := priv ! 31 OR 64])"

definition GenerateStaticKeypair :: "prims \<Rightarrow> bytes option \<Rightarrow> (string \<times> string) option" where
  "GenerateStaticKeypair P rand =
     (case rand of None \<Rightarrow> None
      | Some priv \<Rightarrow>
        let priv = clamp priv in
        (case curve25519_X25519 P priv curve25519_Basepoint of None \<Rightarrow> None
         | Some pub \<Rightarrow> Some (base64_EncodeToString priv, base64_EncodeToString pub)))"

definition GeneratePSK :: "bytes option \<Rightarrow> string option" where
  "GeneratePSK rand = (case rand of None \<Rightarrow> None | Some psk \<Rightarrow> Some (base64_EncodeToString psk))"

subsection \<open>Key derivation and encryption\<close>

text \<open>\<^verbatim>\<open>crypto/hmac\<close> with SHA-256, whose block size is 64.\<close>

definition hmacSHA256 :: "prims \<Rightarrow> bytes \<Rightarrow> bytes \<Rightarrow> bytes" where
  "hmacSHA256 P key data =
     (let key = (if length key > 64 then sha256_Sum256 P key else key);
          key = key @ replicate (64 - length key) 0
      in sha256_Sum256 P (map (\<lambda>b. b XOR 0x5C) key @ sha256_Sum256 P (map (\<lambda>b. b XOR 0x36) key @ data)))"

definition hkdf2 :: "prims \<Rightarrow> bytes \<Rightarrow> bytes \<Rightarrow> bytes \<times> bytes" where
  "hkdf2 P ck input =
     (let tempKey = hmacSHA256 P ck input;
          out1 = hmacSHA256 P tempKey [1];
          out2 = hmacSHA256 P tempKey (out1 @ [2])
      in (out1, out2))"

definition hkdf3 :: "prims \<Rightarrow> bytes \<Rightarrow> bytes \<Rightarrow> bytes \<times> bytes \<times> bytes" where
  "hkdf3 P ck input =
     (let tempKey = hmacSHA256 P ck input;
          out1 = hmacSHA256 P tempKey [1];
          out2 = hmacSHA256 P tempKey (out1 @ [2]);
          out3 = hmacSHA256 P tempKey (out2 @ [3])
      in (out1, out2, out3))"

definition le64_put :: "u64 \<Rightarrow> bytes" where
  "le64_put w = map (\<lambda>k. of_nat (unat w div 256 ^ k mod 256)) [0, 1, 2, 3, 4, 5, 6, 7]"

definition be64_put :: "u64 \<Rightarrow> bytes" where
  "be64_put w = rev (le64_put w)"

definition be64_get :: "bytes \<Rightarrow> u64" where
  "be64_get bs = of_nat (fold (\<lambda>b a. a * 256 + unat b) bs 0)"

definition noiseNonce :: "u64 \<Rightarrow> bytes" where
  "noiseNonce n = replicate 4 0 @ le64_put n"

text \<open>\<^verbatim>\<open>aes.NewCipher\<close> accepts keys of 16, 24 and 32 bytes.\<close>

definition aes_key_ok :: "bytes \<Rightarrow> bool" where
  "aes_key_ok k \<longleftrightarrow> length k \<in> {16, 24, 32}"

definition encryptWithKey :: "prims \<Rightarrow> bytes option \<Rightarrow> u64 \<Rightarrow> bytes \<Rightarrow> bytes \<Rightarrow> bytes option" where
  "encryptWithKey P key nonce ad plaintext =
     (case key of None \<Rightarrow> Some plaintext
      | Some k \<Rightarrow> if \<not> aes_key_ok k then None else Some (gcm_Seal P k (noiseNonce nonce) ad plaintext))"

definition decryptWithKey :: "prims \<Rightarrow> bytes option \<Rightarrow> u64 \<Rightarrow> bytes \<Rightarrow> bytes \<Rightarrow> bytes option" where
  "decryptWithKey P key nonce ad ciphertext =
     (case key of None \<Rightarrow> Some ciphertext
      | Some k \<Rightarrow> if \<not> aes_key_ok k then None else gcm_Open P k (noiseNonce nonce) ad ciphertext)"

definition EncryptResponse :: "prims \<Rightarrow> bytes option \<Rightarrow> bytes \<Rightarrow> bytes option" where
  "EncryptResponse P key plaintext = encryptWithKey P key 0 [] plaintext"

definition DecryptResponse :: "prims \<Rightarrow> bytes option \<Rightarrow> bytes \<Rightarrow> bytes option" where
  "DecryptResponse P key ciphertext = decryptWithKey P key 0 [] ciphertext"

definition PacketHash :: "prims \<Rightarrow> bytes \<Rightarrow> string" where
  "PacketHash P packet = hex_EncodeToString (sha256_Sum256 P packet)"

subsection \<open>The symmetric state\<close>

definition newSymmetricState :: "prims \<Rightarrow> symmetricState" where
  "newSymmetricState P =
     (let h = sha256_Sum256 P (str_bytes ProtocolName) in \<lparr>sy_ck = h, sy_h = h, sy_k = None, sy_n = 0\<rparr>)"

definition mixHash :: "prims \<Rightarrow> bytes \<Rightarrow> symmetricState \<Rightarrow> symmetricState" where
  "mixHash P data s = s\<lparr>sy_h := sha256_Sum256 P (sy_h s @ data)\<rparr>"

definition mixKey :: "prims \<Rightarrow> bytes \<Rightarrow> symmetricState \<Rightarrow> symmetricState" where
  "mixKey P input s = (let (out1, out2) = hkdf2 P (sy_ck s) input in s\<lparr>sy_ck := out1, sy_k := Some out2, sy_n := 0\<rparr>)"

definition mixKeyAndHash :: "prims \<Rightarrow> bytes \<Rightarrow> symmetricState \<Rightarrow> symmetricState" where
  "mixKeyAndHash P input s =
     (let (out1, out2, out3) = hkdf3 P (sy_ck s) input;
          s = mixHash P out2 (s\<lparr>sy_ck := out1\<rparr>)
      in s\<lparr>sy_k := Some out3, sy_n := 0\<rparr>)"

definition encryptAndHash :: "prims \<Rightarrow> bytes \<Rightarrow> symmetricState \<Rightarrow> (bytes \<times> symmetricState) option" where
  "encryptAndHash P plaintext s =
     (case encryptWithKey P (sy_k s) (sy_n s) (sy_h s) plaintext of None \<Rightarrow> None
      | Some ciphertext \<Rightarrow>
        let s = (if sy_k s \<noteq> None then s\<lparr>sy_n := sy_n s + 1\<rparr> else s)
        in Some (ciphertext, mixHash P ciphertext s))"

definition decryptAndHash :: "prims \<Rightarrow> bytes \<Rightarrow> symmetricState \<Rightarrow> (bytes \<times> symmetricState) option" where
  "decryptAndHash P ciphertext s =
     (case decryptWithKey P (sy_k s) (sy_n s) (sy_h s) ciphertext of None \<Rightarrow> None
      | Some plaintext \<Rightarrow>
        let s = (if sy_k s \<noteq> None then s\<lparr>sy_n := sy_n s + 1\<rparr> else s)
        in Some (plaintext, mixHash P ciphertext s))"

definition split_keys :: "prims \<Rightarrow> symmetricState \<Rightarrow> bytes \<times> bytes" where
  "split_keys P s = hkdf2 P (sy_ck s) []"

subsection \<open>The packet\<close>

definition UnixMilli :: "time \<Rightarrow> int" where
  "UnixMilli t = t div 1000000"

definition time_UnixMilli :: "int \<Rightarrow> time" where
  "time_UnixMilli ms = ms * 1000000"

definition BuildIKpsk1SPA :: "prims \<Rightarrow> bytes option \<Rightarrow> ClientIdentity \<Rightarrow> string \<Rightarrow> bytes \<Rightarrow> time \<Rightarrow> spa_error + BuildResult" where
  "BuildIKpsk1SPA P rand client pdpStaticPubB64 payload now =
     rbind (decodeB64 (cid_ClientStaticPriv client) 32) (\<lambda>clientStaticPriv.
     rbind (decodeB64 (cid_ClientStaticPub client) 32) (\<lambda>clientStaticPub.
     rbind (decodeB64 pdpStaticPubB64 32) (\<lambda>pdpStaticPub.
     rbind (decodeB64 (cid_SPAPSK client) 32) (\<lambda>psk.
     rbind (of_opt (SPAError ''rand'') rand) (\<lambda>ePriv.
     let ePriv = clamp ePriv in
     rbind (of_opt (SPAError ''x25519'') (curve25519_X25519 P ePriv curve25519_Basepoint)) (\<lambda>ePub.
     let ss = mixKey P ePub (mixHash P ePub (newSymmetricState P)) in
     rbind (of_opt (SPAError ''x25519'') (curve25519_X25519 P ePriv pdpStaticPub)) (\<lambda>es.
     let ss = mixKey P es ss;
         timestampMS = UnixMilli now;
         nsPlain = be64_put (of_int timestampMS) @ clientStaticPub in
     rbind (of_opt (SPAError ''aes'') (encryptAndHash P nsPlain ss)) (\<lambda>(nsCipher, ss).
     rbind (of_opt (SPAError ''x25519'') (curve25519_X25519 P clientStaticPriv pdpStaticPub)) (\<lambda>ssDH.
     let ss = mixKeyAndHash P psk (mixKey P ssDH ss) in
     rbind (of_opt (SPAError ''aes'') (encryptAndHash P payload ss)) (\<lambda>(nmCipher, ss).
     let packet = ePub @ nsCipher @ nmCipher;
         (_, responderToInitiator) = split_keys P ss in
     Inr \<lparr>br_Packet = packet, br_PacketHash = PacketHash P packet, br_ResponseKey = responderToInitiator,
          br_TimestampMS = timestampMS\<rparr>))))))))))"

definition OpenIKpsk1SPAHeader :: "prims \<Rightarrow> bytes \<Rightarrow> PDPIdentity \<Rightarrow> time \<Rightarrow> duration \<Rightarrow> spa_error + OpenHeaderResult" where
  "OpenIKpsk1SPAHeader P packet pdp now allowedSkew =
     (if length packet < EPublicLen + NSCipherLen + NSTagLen \<or> length packet > MaxSPAPacket then Inl ErrInvalidPacket
      else rbind (decodeB64 (pid_PDPStaticPriv pdp) 32) (\<lambda>pdpStaticPriv.
      let ePub = take EPublicLen packet;
          nsCipher = take NSCipherLen (drop EPublicLen packet);
          nmCipher = drop (EPublicLen + NSCipherLen) packet;
          ss = mixKey P ePub (mixHash P ePub (newSymmetricState P)) in
      rbind (of_opt (SPAError ''x25519'') (curve25519_X25519 P pdpStaticPriv ePub)) (\<lambda>es.
      let ss = mixKey P es ss in
      rbind (of_opt ErrDecryptFailed (decryptAndHash P nsCipher ss)) (\<lambda>(nsPlain, ss).
      if length nsPlain \<noteq> NSPlainLen then Inl ErrInvalidPacket
      else let timestampMS = sint (be64_get (take 8 nsPlain));
               packetTime = time_UnixMilli timestampMS in
      if time_Sub now packetTime > allowedSkew \<or> time_Sub packetTime now > allowedSkew then Inl SPAInvalidTime
      else let clientStaticPub = drop 8 nsPlain in
      Inr \<lparr>oh_ClientStaticPub = base64_EncodeToString clientStaticPub, oh_TimestampMS = timestampMS,
           oh_PacketHash = PacketHash P packet, oh_pdpStaticPriv = pdpStaticPriv, oh_clientStaticPubRaw = clientStaticPub,
           oh_nmCipher = nmCipher, oh_ss = Some ss\<rparr>))))"

definition CompleteIKpsk1SPA :: "prims \<Rightarrow> OpenHeaderResult \<Rightarrow> string \<Rightarrow> spa_error + OpenResult" where
  "CompleteIKpsk1SPA P header pskB64 =
     rbind (decodeB64 pskB64 32) (\<lambda>psk.
     case oh_ss header of None \<Rightarrow> Inl ErrInvalidPacket
     | Some ss \<Rightarrow>
       if length (oh_pdpStaticPriv header) \<noteq> 32 \<or> length (oh_clientStaticPubRaw header) \<noteq> 32 then Inl ErrInvalidPacket
       else rbind (of_opt (SPAError ''x25519'') (curve25519_X25519 P (oh_pdpStaticPriv header) (oh_clientStaticPubRaw header))) (\<lambda>ssDH.
       let ss = mixKeyAndHash P psk (mixKey P ssDH ss) in
       rbind (of_opt ErrDecryptFailed (decryptAndHash P (oh_nmCipher header) ss)) (\<lambda>(payload, ss).
       let (_, responderToInitiator) = split_keys P ss in
       Inr \<lparr>or_ClientStaticPub = oh_ClientStaticPub header, or_TimestampMS = oh_TimestampMS header, or_Payload = payload,
            or_PacketHash = oh_PacketHash header, or_ResponseKey = responderToInitiator\<rparr>)))"

definition OpenIKpsk1SPA :: "prims \<Rightarrow> bytes \<Rightarrow> PDPIdentity \<Rightarrow> time \<Rightarrow> duration \<Rightarrow> spa_error + OpenResult" where
  "OpenIKpsk1SPA P packet pdp now allowedSkew =
     rbind (OpenIKpsk1SPAHeader P packet pdp now allowedSkew) (\<lambda>header. CompleteIKpsk1SPA P header (pid_SPAPSK pdp))"

subsection \<open>Lemmas\<close>

text \<open>Positional notation to base 256.\<close>

lemma base256_fold:
  "fold (\<lambda>b a. a * 256 + unat b) (rev (map (\<lambda>k. of_nat (n div 256 ^ k mod 256) :: byte) [0..<m])) a = a * 256 ^ m + n mod 256 ^ m"
proof (induction m arbitrary: a)
  case (Suc m)
  let ?d = "n div 256 ^ m mod 256"
  have "n mod 256 ^ Suc m = 256 ^ m * ?d + n mod 256 ^ m"
    using mod_mult2_eq [of n "256 ^ m" 256] by (simp add: mult.commute)
  with Suc show ?case by (simp add: unat_of_nat algebra_simps)
qed simp

lemma be64_put_eq: "be64_put w = rev (map (\<lambda>k. of_nat (unat w div 256 ^ k mod 256)) [0..<8])"
  by (simp add: be64_put_def le64_put_def upt_rec)

lemma be64_get_put [simp]: "be64_get (be64_put w) = w"
proof -
  have "unat w < 2 ^ LENGTH(64)" by (rule unsigned_less)
  then have "fold (\<lambda>b a. a * 256 + unat b) (be64_put w) 0 = unat w"
    unfolding be64_put_eq base256_fold by simp
  then show ?thesis by (simp add: be64_get_def)
qed

lemma be64_put_length [simp]: "length (be64_put w) = 8"
  by (simp add: be64_put_def le64_put_def)

lemma sint_timestamp: "- (2 ^ 63) \<le> ts \<Longrightarrow> ts < 2 ^ 63 \<Longrightarrow> sint (of_int ts :: u64) = ts"
  by (simp add: signed_of_int signed_take_bit_int_eq_self)

lemma hmac_length: "sha256_size P \<Longrightarrow> length (hmacSHA256 P k d) = 32"
  by (simp add: hmacSHA256_def Let_def sha256_size_def)

text \<open>A state whose key is one that AES accepts.\<close>

definition keyed_state :: "symmetricState \<Rightarrow> bool" where
  "keyed_state s \<longleftrightarrow> (\<exists>k. sy_k s = Some k \<and> length k = 32)"

lemma mixKey_keyed: "sha256_size P \<Longrightarrow> keyed_state (mixKey P x s)"
  by (simp add: keyed_state_def mixKey_def hkdf2_def Let_def hmac_length)

lemma mixKeyAndHash_keyed: "sha256_size P \<Longrightarrow> keyed_state (mixKeyAndHash P x s)"
  by (simp add: keyed_state_def mixKeyAndHash_def hkdf3_def Let_def hmac_length mixHash_def)

text \<open>The two sides stay in step: decryption inverts encryption and leaves the same state.\<close>

lemma decrypt_encrypt:
  assumes "gcm_correct P" "keyed_state s" "encryptAndHash P m s = Some (c, s')"
  shows "decryptAndHash P c s = Some (m, s')" "length c = length m + 16"
  using assms
  by (auto simp: gcm_correct_def keyed_state_def encryptAndHash_def decryptAndHash_def encryptWithKey_def decryptWithKey_def
      aes_key_ok_def Let_def split: if_splits)

text \<open>
  What X25519 documents: public keys are the products with the base point, and the two sides of an
  exchange compute the same secret.
\<close>

definition x25519_commutes :: "prims \<Rightarrow> bool" where
  "x25519_commutes P \<longleftrightarrow>
     (\<forall>a b A B. curve25519_X25519 P a curve25519_Basepoint = Some A \<longrightarrow> curve25519_X25519 P b curve25519_Basepoint = Some B
        \<longrightarrow> curve25519_X25519 P a B = curve25519_X25519 P b A)"

lemma x25519_commutesD:
  "x25519_commutes P \<Longrightarrow> curve25519_X25519 P a curve25519_Basepoint = Some A \<Longrightarrow> curve25519_X25519 P b curve25519_Basepoint = Some B
    \<Longrightarrow> curve25519_X25519 P b A = curve25519_X25519 P a B"
  unfolding x25519_commutes_def by metis

lemma demo_commutes [simp]: "x25519_commutes demo_prims"
  by (simp add: x25519_commutes_def demo_prims_def)

text \<open>What a successful construction computed.\<close>

lemma build_elim:
  assumes "BuildIKpsk1SPA P rand client pdpPub payload t0 = Inr b"
  obtains r csk cpk ppk psk ePub es ns ss1 dh nm ss2 where
    "rand = Some r" "decodeB64 (cid_ClientStaticPriv client) 32 = Inr csk" "decodeB64 (cid_ClientStaticPub client) 32 = Inr cpk"
    "decodeB64 pdpPub 32 = Inr ppk" "decodeB64 (cid_SPAPSK client) 32 = Inr psk"
    "curve25519_X25519 P (clamp r) curve25519_Basepoint = Some ePub" "curve25519_X25519 P (clamp r) ppk = Some es"
    "encryptAndHash P (be64_put (of_int (UnixMilli t0)) @ cpk) (mixKey P es (mixKey P ePub (mixHash P ePub (newSymmetricState P)))) = Some (ns, ss1)"
    "curve25519_X25519 P csk ppk = Some dh"
    "encryptAndHash P payload (mixKeyAndHash P psk (mixKey P dh ss1)) = Some (nm, ss2)"
    "b = \<lparr>br_Packet = ePub @ ns @ nm, br_PacketHash = PacketHash P (ePub @ ns @ nm), br_ResponseKey = snd (split_keys P ss2),
          br_TimestampMS = UnixMilli t0\<rparr>"
  using assms by (auto simp: BuildIKpsk1SPA_def result_iffs Let_def case_prod_beta)

lemma encryptAndHash_total: "keyed_state s \<Longrightarrow> \<exists>c s'. encryptAndHash P m s = Some (c, s')"
  by (auto simp: keyed_state_def encryptAndHash_def encryptWithKey_def aes_key_ok_def Let_def)

text \<open>Construction fails only on malformed keys, a failing random source or a low-order point.\<close>

lemma build_succeeds:
  assumes "sha256_size P" and "decodeB64 (cid_ClientStaticPriv client) 32 = Inr csk" "decodeB64 (cid_ClientStaticPub client) 32 = Inr cpk"
    "decodeB64 pdpPub 32 = Inr ppk" "decodeB64 (cid_SPAPSK client) 32 = Inr psk"
    and "curve25519_X25519 P (clamp r) curve25519_Basepoint = Some ePub" "curve25519_X25519 P (clamp r) ppk = Some es"
      "curve25519_X25519 P csk ppk = Some dh"
  shows "\<exists>b. BuildIKpsk1SPA P (Some r) client pdpPub payload t0 = Inr b"
proof -
  let ?s = "mixKey P es (mixKey P ePub (mixHash P ePub (newSymmetricState P)))"
  obtain ns s1 where 1: "encryptAndHash P (be64_put (of_int (UnixMilli t0)) @ cpk) ?s = Some (ns, s1)"
    using encryptAndHash_total [OF mixKey_keyed [OF assms(1)]] by blast
  obtain nm s2 where 2: "encryptAndHash P payload (mixKeyAndHash P psk (mixKey P dh s1)) = Some (nm, s2)"
    using encryptAndHash_total [OF mixKeyAndHash_keyed [OF assms(1)]] by blast
  from assms 1 2 show ?thesis by (simp add: BuildIKpsk1SPA_def Let_def case_prod_beta)
qed

lemma decodeB64_encode [simp]: "decodeB64 (base64_EncodeToString b) n = (if length b = n then Inr b else Inl ErrInvalidKey)"
  by (simp add: decodeB64_def)

lemma decodeB64_length: "decodeB64 s n = Inr b \<Longrightarrow> length b = n"
  by (auto simp: decodeB64_def split: option.splits if_splits)

lemma header_elim:
  assumes "OpenIKpsk1SPAHeader P packet pdp now skew = Inr hdr"
  obtains ts where "length packet \<ge> 104" "length packet \<le> 1200" "oh_TimestampMS hdr = ts"
    "time_Sub now (time_UnixMilli ts) \<le> skew" "time_Sub (time_UnixMilli ts) now \<le> skew"
    "oh_PacketHash hdr = PacketHash P packet" "length (oh_clientStaticPubRaw hdr) = 32"
    "oh_ClientStaticPub hdr = base64_EncodeToString (oh_clientStaticPubRaw hdr)"
  using assms
  by (auto simp: OpenIKpsk1SPAHeader_def result_iffs Let_def spa_lens split: if_splits)

lemma time_Sub_le: "time_Sub a b \<le> d \<Longrightarrow> d < max_duration \<Longrightarrow> a - b \<le> d"
  by (auto simp: time_Sub_def max_duration_def min_duration_def)

lemma time_Sub_leI: "a - b \<le> d \<Longrightarrow> min_duration \<le> d \<Longrightarrow> time_Sub a b \<le> d"
  by (auto simp: time_Sub_def)

text \<open>The parts of a packet that was built for a PDP, as this PDP recomputes them.\<close>

lemma built_parts:
  assumes "BuildIKpsk1SPA P rand client (pid_PDPStaticPub pdp) payload t0 = Inr b"
    and P: "sha256_size P" "gcm_correct P" "x25519_size P" "x25519_commutes P"
    and keys: "decodeB64 (cid_ClientStaticPub client) 32 = Inr cpk" "decodeB64 (cid_ClientStaticPriv client) 32 = Inr csk"
      "curve25519_X25519 P csk curve25519_Basepoint = Some cpk"
      "decodeB64 (pid_PDPStaticPub pdp) 32 = Inr ppk" "decodeB64 (pid_PDPStaticPriv pdp) 32 = Inr psk'"
      "curve25519_X25519 P psk' curve25519_Basepoint = Some ppk"
  obtains ePub es ns nm ss1 ss2 psk dh where
    "b = \<lparr>br_Packet = ePub @ ns @ nm, br_PacketHash = PacketHash P (ePub @ ns @ nm), br_ResponseKey = snd (split_keys P ss2),
          br_TimestampMS = UnixMilli t0\<rparr>"
    "length ePub = 32" "length ns = 56" "length nm = length payload + 16" "length cpk = 32" "length psk' = 32"
    "curve25519_X25519 P psk' ePub = Some es" "curve25519_X25519 P psk' cpk = Some dh" "decodeB64 (cid_SPAPSK client) 32 = Inr psk"
    "decryptAndHash P ns (mixKey P es (mixKey P ePub (mixHash P ePub (newSymmetricState P)))) = Some (be64_put (of_int (UnixMilli t0)) @ cpk, ss1)"
    "decryptAndHash P nm (mixKeyAndHash P psk (mixKey P dh ss1)) = Some (payload, ss2)"
proof -
  from assms(1) obtain r csk0 cpk0 ppk0 psk ePub es ns ss1 dh nm ss2 where
    raw: "decodeB64 (cid_ClientStaticPriv client) 32 = Inr csk0" "decodeB64 (cid_ClientStaticPub client) 32 = Inr cpk0"
      "decodeB64 (pid_PDPStaticPub pdp) 32 = Inr ppk0"
    and psk: "decodeB64 (cid_SPAPSK client) 32 = Inr psk"
    and e0: "curve25519_X25519 P (clamp r) curve25519_Basepoint = Some ePub" "curve25519_X25519 P (clamp r) ppk0 = Some es"
    and ns0: "encryptAndHash P (be64_put (of_int (UnixMilli t0)) @ cpk0) (mixKey P es (mixKey P ePub (mixHash P ePub (newSymmetricState P)))) = Some (ns, ss1)"
    and dh0: "curve25519_X25519 P csk0 ppk0 = Some dh"
    and nm: "encryptAndHash P payload (mixKeyAndHash P psk (mixKey P dh ss1)) = Some (nm, ss2)"
    and b: "b = \<lparr>br_Packet = ePub @ ns @ nm, br_PacketHash = PacketHash P (ePub @ ns @ nm), br_ResponseKey = snd (split_keys P ss2),
          br_TimestampMS = UnixMilli t0\<rparr>"
    by (rule build_elim)
  have same: "csk0 = csk" "cpk0 = cpk" "ppk0 = ppk" using raw keys by simp_all
  note e = e0 [unfolded same] and ns = ns0 [unfolded same] and dh = dh0 [unfolded same]
  have es: "curve25519_X25519 P psk' ePub = Some es" using x25519_commutesD [OF P(4) e(1) keys(6)] e(2) by simp
  have dh': "curve25519_X25519 P psk' cpk = Some dh" using x25519_commutesD [OF P(4) keys(3) keys(6)] dh by simp
  have l: "length ePub = 32" "length cpk = 32" "length psk' = 32"
    using decodeB64_length [OF keys(1)] decodeB64_length [OF keys(5)] P(3) [unfolded x25519_size_def] e(1) by metis+
  note dns = decrypt_encrypt [OF P(2) mixKey_keyed [OF P(1)] ns]
  note dnm = decrypt_encrypt [OF P(2) mixKeyAndHash_keyed [OF P(1)] nm]
  show thesis by (rule that [OF b l(1) _ dnm(2) l(2,3) es dh' psk dns(1) dnm(1)]) (use dns(2) l in simp)
qed

lemma open_built:
  assumes "BuildIKpsk1SPA P rand client (pid_PDPStaticPub pdp) payload t0 = Inr b"
    and P: "sha256_size P" "gcm_correct P" "x25519_size P" "x25519_commutes P"
    and keys: "decodeB64 (cid_ClientStaticPub client) 32 = Inr cpk" "decodeB64 (cid_ClientStaticPriv client) 32 = Inr csk"
      "curve25519_X25519 P csk curve25519_Basepoint = Some cpk"
      "decodeB64 (pid_PDPStaticPub pdp) 32 = Inr ppk" "decodeB64 (pid_PDPStaticPriv pdp) 32 = Inr psk'"
      "curve25519_X25519 P psk' curve25519_Basepoint = Some ppk" "pid_SPAPSK pdp = cid_SPAPSK client"
    and len: "length payload \<le> 1096"
    and time: "- (2 ^ 63) \<le> UnixMilli t0" "UnixMilli t0 < 2 ^ 63" "0 \<le> skew"
      "\<bar>t1 - time_UnixMilli (UnixMilli t0)\<bar> \<le> skew"
  shows "OpenIKpsk1SPA P (br_Packet b) pdp t1 skew
    = Inr \<lparr>or_ClientStaticPub = base64_EncodeToString cpk, or_TimestampMS = br_TimestampMS b, or_Payload = payload,
           or_PacketHash = br_PacketHash b, or_ResponseKey = br_ResponseKey b\<rparr>"
proof -
  have sub: "time_Sub t1 (time_UnixMilli (UnixMilli t0)) \<le> skew" "time_Sub (time_UnixMilli (UnixMilli t0)) t1 \<le> skew"
    using time(3,4) by (auto intro!: time_Sub_leI simp: min_duration_def)
  have ts: "sint (be64_get (be64_put (of_int (UnixMilli t0) :: u64))) = UnixMilli t0" using time by (simp add: sint_timestamp)
  from assms(1-11) show ?thesis
    by (rule built_parts)
      (use len keys(5,7) ts sub in \<open>simp add: OpenIKpsk1SPA_def OpenIKpsk1SPAHeader_def CompleteIKpsk1SPA_def spa_lens case_prod_beta Let_def\<close>)
qed

text \<open>Outside the window the same packet is refused for its timestamp.\<close>

lemma open_stale:
  assumes "BuildIKpsk1SPA P rand client (pid_PDPStaticPub pdp) payload t0 = Inr b"
    and P: "sha256_size P" "gcm_correct P" "x25519_size P" "x25519_commutes P"
    and keys: "decodeB64 (cid_ClientStaticPub client) 32 = Inr cpk" "decodeB64 (cid_ClientStaticPriv client) 32 = Inr csk"
      "curve25519_X25519 P csk curve25519_Basepoint = Some cpk"
      "decodeB64 (pid_PDPStaticPub pdp) 32 = Inr ppk" "decodeB64 (pid_PDPStaticPriv pdp) 32 = Inr psk'"
      "curve25519_X25519 P psk' curve25519_Basepoint = Some ppk"
    and len: "length payload \<le> 1096"
    and time: "- (2 ^ 63) \<le> UnixMilli t0" "UnixMilli t0 < 2 ^ 63" "skew < max_duration"
      "\<bar>t1 - time_UnixMilli (UnixMilli t0)\<bar> > skew"
  shows "OpenIKpsk1SPAHeader P (br_Packet b) pdp t1 skew = Inl SPAInvalidTime"
proof -
  have sub: "time_Sub t1 (time_UnixMilli (UnixMilli t0)) > skew \<or> time_Sub (time_UnixMilli (UnixMilli t0)) t1 > skew"
    using time(3,4) time_Sub_le [of t1 "time_UnixMilli (UnixMilli t0)" skew] time_Sub_le [of "time_UnixMilli (UnixMilli t0)" t1 skew]
    by linarith
  have ts: "sint (be64_get (be64_put (of_int (UnixMilli t0) :: u64))) = UnixMilli t0" using time by (simp add: sint_timestamp)
  from assms(1-11) show ?thesis
    by (rule built_parts) (use len keys(5) ts sub in \<open>auto simp: OpenIKpsk1SPAHeader_def spa_lens Let_def\<close>)
qed

subsection \<open>Properties\<close>

text \<open>
  (C13) The handshake is complete: a packet that a client builds is opened by the PDP that holds the
  matching static key and the client's PSK, at any time within the allowed skew of the packet's
  timestamp. Both ends have the same payload, timestamp, packet hash and response key, and the PDP
  learns the client's static key. The payload may have up to 1096 bytes.
\<close>
theorem spa_roundtrip:
  assumes "BuildIKpsk1SPA P rand client (pid_PDPStaticPub pdp) payload t0 = Inr b"
    and P: "sha256_size P" "gcm_correct P" "x25519_size P" "x25519_commutes P"
    and keys: "decodeB64 (cid_ClientStaticPub client) 32 = Inr cpk" "decodeB64 (cid_ClientStaticPriv client) 32 = Inr csk"
      "curve25519_X25519 P csk curve25519_Basepoint = Some cpk"
      "decodeB64 (pid_PDPStaticPub pdp) 32 = Inr ppk" "decodeB64 (pid_PDPStaticPriv pdp) 32 = Inr psk'"
      "curve25519_X25519 P psk' curve25519_Basepoint = Some ppk" "pid_SPAPSK pdp = cid_SPAPSK client"
    and len: "length payload \<le> 1096"
    and time: "- (2 ^ 63) \<le> UnixMilli t0" "UnixMilli t0 < 2 ^ 63" "0 \<le> skew"
      "\<bar>t1 - time_UnixMilli (UnixMilli t0)\<bar> \<le> skew"
  shows "OpenIKpsk1SPA P (br_Packet b) pdp t1 skew
    = Inr \<lparr>or_ClientStaticPub = base64_EncodeToString cpk, or_TimestampMS = br_TimestampMS b, or_Payload = payload,
           or_PacketHash = br_PacketHash b, or_ResponseKey = br_ResponseKey b\<rparr>"
  using assms by (rule open_built)

text \<open>
  A header that the PDP accepts is fresh and well-formed: the packet has between 104 and 1200 bytes,
  its timestamp lies within the skew of the PDP's clock on either side, and the result names the
  packet's hash and a client key of 32 bytes.
\<close>
theorem spa_header_window:
  assumes "OpenIKpsk1SPAHeader P packet pdp now skew = Inr hdr" and "skew < max_duration"
  shows "104 \<le> length packet \<and> length packet \<le> 1200 \<and> \<bar>now - time_UnixMilli (oh_TimestampMS hdr)\<bar> \<le> skew
    \<and> oh_PacketHash hdr = PacketHash P packet \<and> length (oh_clientStaticPubRaw hdr) = 32
    \<and> oh_ClientStaticPub hdr = base64_EncodeToString (oh_clientStaticPubRaw hdr)"
  using assms by (elim header_elim) (auto dest: time_Sub_le simp: abs_le_iff)

text \<open>
  The PDP's response round-trips: what it encrypts with a response key of 32 bytes, the client
  decrypts with the same key. A \<^verbatim>\<open>nil\<close> key would send it in the clear, and any length that AES does
  not know is an error on both sides.
\<close>
theorem response_roundtrip:
  assumes "gcm_correct P"
  shows "(length k = 32 \<longrightarrow> (\<exists>c. EncryptResponse P (Some k) m = Some c \<and> DecryptResponse P (Some k) c = Some m \<and> length c = length m + 16))
    \<and> EncryptResponse P None m = Some m
    \<and> (length k \<notin> {16, 24, 32} \<longrightarrow> EncryptResponse P (Some k) m = None \<and> DecryptResponse P (Some k) m = None)"
  using assms
  by (auto simp: EncryptResponse_def DecryptResponse_def encryptWithKey_def decryptWithKey_def aes_key_ok_def gcm_correct_def)

text \<open>Distinct counters give distinct nonces of 12 bytes.\<close>

lemma noiseNonce_inj: "noiseNonce a = noiseNonce b \<longleftrightarrow> a = b"
  by (metis append_eq_append_conv be64_get_put be64_put_def noiseNonce_def)

lemma noiseNonce_length [simp]: "length (noiseNonce a) = 12"
  by (simp add: noiseNonce_def le64_put_def)

text \<open>
  No key and nonce pair seals two different texts of one handshake: each of the two encryptions of
  \<^verbatim>\<open>BuildIKpsk1SPA\<close> starts from a state whose counter a \<^verbatim>\<open>mixKey\<close> has just reset to zero, each
  encryption advances the counter, and different counters are different nonces.
\<close>
theorem nonce_discipline:
  "sy_n (mixKey P x s) = 0 \<and> sy_n (mixKeyAndHash P x s) = 0
   \<and> (\<forall>m c s'. encryptAndHash P m s = Some (c, s') \<longrightarrow> sy_n s' = (if sy_k s = None then sy_n s else sy_n s + 1))
   \<and> (noiseNonce a = noiseNonce b \<longleftrightarrow> a = b) \<and> length (noiseNonce a) = 12"
  by (auto simp: mixKey_def mixKeyAndHash_def hkdf2_def hkdf3_def Let_def mixHash_def encryptAndHash_def noiseNonce_inj
      split: option.splits if_splits)

subsection \<open>Examples\<close>

definition ex_client :: ClientIdentity where
  "ex_client = \<lparr>cid_ClientStaticPub = base64_EncodeToString (replicate 32 1), cid_ClientStaticPriv = base64_EncodeToString (replicate 32 1),
     cid_SPAPSK = base64_EncodeToString (replicate 32 5)\<rparr>"

definition ex_pdp :: PDPIdentity where
  "ex_pdp = \<lparr>pid_PDPStaticPub = base64_EncodeToString (replicate 32 1), pid_PDPStaticPriv = base64_EncodeToString (replicate 32 2),
     pid_SPAPSK = base64_EncodeToString (replicate 32 5)\<rparr>"


lemma ex_build: "\<exists>b. BuildIKpsk1SPA demo_prims (Some (replicate 32 7)) ex_client (pid_PDPStaticPub ex_pdp) [1, 2] 1000000000 = Inr b"
  by (rule build_succeeds) (auto simp: ex_client_def ex_pdp_def, simp_all add: demo_prims_def)

theorem spa_roundtrip_witness:
  "\<exists>b. BuildIKpsk1SPA demo_prims (Some (replicate 32 7)) ex_client (pid_PDPStaticPub ex_pdp) [1, 2] 1000000000 = Inr b
     \<and> OpenIKpsk1SPA demo_prims (br_Packet b) ex_pdp 3000000000 10000000000
       = Inr \<lparr>or_ClientStaticPub = base64_EncodeToString (replicate 32 1), or_TimestampMS = br_TimestampMS b, or_Payload = [1, 2],
              or_PacketHash = br_PacketHash b, or_ResponseKey = br_ResponseKey b\<rparr>"
proof -
  obtain b where b: "BuildIKpsk1SPA demo_prims (Some (replicate 32 7)) ex_client (pid_PDPStaticPub ex_pdp) [1, 2] 1000000000 = Inr b"
    using ex_build by blast
  have dh: "curve25519_X25519 demo_prims x y = Some (replicate 32 1)" for x y by (simp add: demo_prims_def)
  show ?thesis
    by (rule exI [of _ b], rule conjI [OF b], rule spa_roundtrip [OF b, where csk = "replicate 32 1" and ppk = "replicate 32 1" and psk' = "replicate 32 2"])
      (auto simp: ex_client_def ex_pdp_def dh UnixMilli_def time_UnixMilli_def)
qed

theorem spa_header_window_witness:
  "\<exists>packet hdr. OpenIKpsk1SPAHeader demo_prims packet ex_pdp 3000000000 10000000000 = Inr hdr \<and> length packet \<le> 1200"
proof -
  let ?ns = "be64_put 1000 @ replicate 32 1 @ replicate 16 9"
  let ?p = "replicate 32 1 @ ?ns @ replicate 16 9"
  have "\<exists>hdr. OpenIKpsk1SPAHeader demo_prims ?p ex_pdp 3000000000 10000000000 = Inr hdr"
    by (simp add: OpenIKpsk1SPAHeader_def spa_lens ex_pdp_def Let_def decryptAndHash_def decryptWithKey_def mixKey_def hkdf2_def
        aes_key_ok_def hmac_length time_UnixMilli_def)
       (simp add: demo_prims_def time_Sub_def max_duration_def min_duration_def Let_def time_UnixMilli_def)
  then obtain hdr where h: "OpenIKpsk1SPAHeader demo_prims ?p ex_pdp 3000000000 10000000000 = Inr hdr" by blast
  have "(10000000000 :: int) < max_duration" by (simp add: max_duration_def)
  from h spa_header_window [OF h this] show ?thesis by blast
qed

theorem response_roundtrip_witness:
  "\<exists>c. EncryptResponse demo_prims (Some (replicate 32 1)) [1] = Some c \<and> DecryptResponse demo_prims (Some (replicate 32 1)) c = Some [1]"
  using response_roundtrip [of demo_prims "replicate 32 1" "[1]"] by auto

theorem nonce_discipline_witness: "noiseNonce 1 \<noteq> noiseNonce 2 \<and> length (noiseNonce 1) = 12"
  using nonce_discipline [of demo_prims "[]" "newSymmetricState demo_prims" 1 2] by simp

end
