(* ===== verification/Pip.thy ===== *)
theory Pip
  imports Protocol
begin

text \<open>
  The policy information point, \<^verbatim>\<open>pip/main.go\<close>: the table of clients and the handler of \<^verbatim>\<open>/clients/\<close>.
  SQLite is a parameter, \<open>sqlite\<close>, with the three statements that the code executes as its operations;
  \<open>sql_table\<close> states what the statements mean for a table with a primary key. The request path is
  cleaned by \<^verbatim>\<open>http.ServeMux\<close> before the handler sees it (an unclean path is answered with a redirect to
  the clean one, which the PDP's \<^verbatim>\<open>http.Get\<close> follows).
\<close>

record client_row =
  cl_client_pubkey :: string
  cl_psk :: string
  cl_allowed_services :: string
  cl_revoked :: int

record 'd sqlite =
  sq_create :: "'d \<Rightarrow> string + 'd" \<comment> \<open>\<^verbatim>\<open>CREATE TABLE IF NOT EXISTS\<close>\<close>
  sq_replace :: "client_row \<Rightarrow> 'd \<Rightarrow> string + 'd" \<comment> \<open>\<^verbatim>\<open>INSERT OR REPLACE\<close>\<close>
  sq_select :: "string \<Rightarrow> 'd \<Rightarrow> string + client_row option" \<comment> \<open>\<^verbatim>\<open>SELECT ... WHERE client_pubkey = ?\<close>; \<open>None\<close>: \<^verbatim>\<open>sql.ErrNoRows\<close>\<close>

definition initDB :: "'d sqlite \<Rightarrow> 'd \<Rightarrow> 'd option" where
  "initDB S d = (case sq_create S d of Inl _ \<Rightarrow> None | Inr d \<Rightarrow> Some d)"

definition row_of :: "ClientInfo \<Rightarrow> client_row" where
  "row_of c =
     (let services = strings_Join '','' (ci_AllowedServices c); revoked = (if ci_Revoked c then 1 else 0)
      in \<lparr>cl_client_pubkey = ci_ClientPubKey c, cl_psk = ci_PSK c, cl_allowed_services = services, cl_revoked = revoked\<rparr>)"

fun seed_loop :: "'d sqlite \<Rightarrow> ClientInfo list \<Rightarrow> 'd \<Rightarrow> 'd option" where
  "seed_loop S [] d = Some d"
| "seed_loop S (c # cs) d = (case sq_replace S (row_of c) d of Inl _ \<Rightarrow> None | Inr d \<Rightarrow> seed_loop S cs d)"

text \<open>The seed file is absent (\<open>None\<close>), does not decode (\<open>Some None\<close>) or holds clients; \<open>None\<close> is \<^verbatim>\<open>log.Fatal\<close>.\<close>

definition seedClients :: "'d sqlite \<Rightarrow> ClientInfo list option option \<Rightarrow> 'd \<Rightarrow> 'd option" where
  "seedClients S seedFile d =
     (case seedFile of None \<Rightarrow> Some d
      | Some None \<Rightarrow> None
      | Some (Some clients) \<Rightarrow> seed_loop S clients d)"

datatype pip_error = ErrNoRows | SqlError string

definition getClient :: "'d sqlite \<Rightarrow> 'd \<Rightarrow> string \<Rightarrow> pip_error + ClientInfo" where
  "getClient S d pubkey =
     (case sq_select S pubkey d of
        Inl err \<Rightarrow> Inl (SqlError err)
      | Inr None \<Rightarrow> Inl ErrNoRows
      | Inr (Some r) \<Rightarrow>
          Inr \<lparr>ci_ClientPubKey = cl_client_pubkey r, ci_PSK = cl_psk r,
               ci_AllowedServices = split_at (CHR '','') (cl_allowed_services r), ci_Revoked = (cl_revoked r \<noteq> 0)\<rparr>)"

subsection \<open>HTTP\<close>

text \<open>An HTTP exchange as its caller sees it: a transport error, or a status and the decoded body.\<close>

datatype 'a http_reply = NoResponse string | Response nat "'a option"

text \<open>\<^verbatim>\<open>path.Clean\<close> of a rooted path, and the cleaning of \<^verbatim>\<open>ServeMux\<close>, which keeps a trailing slash.\<close>

fun clean_segs :: "string list \<Rightarrow> string list \<Rightarrow> string list" where
  "clean_segs acc [] = rev acc"
| "clean_segs acc (s # ss) =
     (if s = '''' \<or> s = ''.'' then clean_segs acc ss
      else if s = ''..'' then clean_segs (tl acc) ss
      else clean_segs (s # acc) ss)"

definition path_Clean :: "string \<Rightarrow> string" where
  "path_Clean p = ''/'' @ strings_Join ''/'' (clean_segs [] (split_at (CHR ''/'') p))"

definition mux_cleanPath :: "string \<Rightarrow> string" where
  "mux_cleanPath p =
     (if p = '''' then ''/''
      else let p = (if \<not> strings_HasPrefix p ''/'' then ''/'' @ p else p); np = path_Clean p in
      if last p = CHR ''/'' \<and> np \<noteq> ''/'' then np @ ''/'' else np)"

definition clientsHandler :: "'d sqlite \<Rightarrow> 'd \<Rightarrow> string \<Rightarrow> ClientInfo http_reply" where
  "clientsHandler S d urlPath =
     (let clientPubKey = strings_TrimPrefix urlPath ''/clients/'' in
      if clientPubKey = '''' then Response 400 None
      else case getClient S d clientPubKey of
        Inl ErrNoRows \<Rightarrow> Response 404 None
      | Inl (SqlError _) \<Rightarrow> Response 500 None
      | Inr client \<Rightarrow> Response 200 (Some client))"

text \<open>A GET of a path that the PDP asks for.\<close>

definition pip_get :: "'d sqlite \<Rightarrow> 'd \<Rightarrow> string \<Rightarrow> ClientInfo http_reply" where
  "pip_get S d p =
     (let p = mux_cleanPath p in
      if strings_HasPrefix p ''/clients/'' then clientsHandler S d p else Response 404 None)"

subsection \<open>Lemmas\<close>

text \<open>What the two statements document: a row replaces the one with its key, and others stay.\<close>

definition sql_table :: "'d sqlite \<Rightarrow> bool" where
  "sql_table S \<longleftrightarrow> (\<forall>r d d'. sq_replace S r d = Inr d' \<longrightarrow>
     (\<forall>k. sq_select S k d' = (if k = cl_client_pubkey r then Inr (Some r) else sq_select S k d)))"

text \<open>The row that a seed list leaves for a key: that of the last client with the key.\<close>

fun seeded :: "ClientInfo list \<Rightarrow> string \<Rightarrow> ClientInfo option" where
  "seeded [] k = None"
| "seeded (c # cs) k = (case seeded cs k of Some c' \<Rightarrow> Some c' | None \<Rightarrow> if ci_ClientPubKey c = k then Some c else None)"

lemma seed_loop_select:
  assumes "sql_table S" "seed_loop S cs d = Some d'"
  shows "sq_select S k d' = (case seeded cs k of Some c \<Rightarrow> Inr (Some (row_of c)) | None \<Rightarrow> sq_select S k d)"
  using assms(2)
proof (induction cs arbitrary: d)
  case (Cons c cs)
  then obtain d1 where d1: "sq_replace S (row_of c) d = Inr d1" "seed_loop S cs d1 = Some d'" by (auto split: sum.splits)
  have "cl_client_pubkey (row_of c) = ci_ClientPubKey c" by (simp add: row_of_def)
  with assms(1) d1(1) have "sq_select S k d1 = (if k = ci_ClientPubKey c then Inr (Some (row_of c)) else sq_select S k d)"
    by (simp add: sql_table_def)
  with Cons.IH [OF d1(2)] show ?case by (auto split: option.split)
qed simp

text \<open>Service names that survive the comma-separated column.\<close>

definition storable :: "string list \<Rightarrow> bool" where
  "storable xs \<longleftrightarrow> xs \<noteq> [] \<and> (\<forall>x\<in>set xs. CHR '','' \<notin> set x)"

lemma get_row_of:
  "sq_select S k d = Inr (Some (row_of c)) \<Longrightarrow>
   getClient S d k = Inr (c\<lparr>ci_AllowedServices := split_at (CHR '','') (strings_Join '','' (ci_AllowedServices c))\<rparr>)"
  by (cases c) (simp add: getClient_def row_of_def)

lemma get_storable:
  "sq_select S k d = Inr (Some (row_of c)) \<Longrightarrow> storable (ci_AllowedServices c) \<Longrightarrow> getClient S d k = Inr c"
  by (simp add: get_row_of storable_def split_at_Join)

text \<open>Paths. A key without empty or dotted segments reaches the handler unchanged.\<close>

definition plain_seg :: "string \<Rightarrow> bool" where
  "plain_seg s \<longleftrightarrow> s \<noteq> '''' \<and> s \<noteq> ''.'' \<and> s \<noteq> ''..''"

lemma clean_segs_plain: "list_all plain_seg ss \<Longrightarrow> clean_segs acc ss = rev acc @ ss"
  by (induction ss arbitrary: acc) (auto simp: plain_seg_def)

lemma clean_segs_dotfree:
  "(\<forall>s\<in>set ss. CHR ''.'' \<notin> set s) \<Longrightarrow> clean_segs acc ss = rev acc @ filter (\<lambda>s. s \<noteq> '''') ss"
  by (induction ss arbitrary: acc) auto

lemma split_at_free_segs: "s \<in> set (split_at d t) \<Longrightarrow> d \<notin> set s"
  by (induction t arbitrary: s) (auto split: if_splits list.splits)

lemma split_at_subset: "s \<in> set (split_at d t) \<Longrightarrow> set s \<subseteq> set t"
  by (induction t arbitrary: s) (auto split: if_splits list.splits, blast)

lemma Join_split_at: "strings_Join [d] (split_at d t) = t"
proof (induction t)
  case (Cons c t)
  obtain f fs where "split_at d t = f # fs" by (cases "split_at d t") simp_all
  with Cons show ?case by (cases fs) auto
qed simp

lemma split_at_snoc: "split_at d (t @ [d]) = split_at d t @ [[]]"
  by (induction t) (auto split: list.split)

lemma Join_blank: "\<forall>s\<in>set ss. s = '''' \<Longrightarrow> set (strings_Join ''/'' ss) \<subseteq> {CHR ''/''}"
  by (induction ss rule: induct_list012) auto

lemma clients_split: "split_at (CHR ''/'') (''/clients/'' @ key) = '''' # ''clients'' # split_at (CHR ''/'') key"
  by simp

definition squeeze :: "string \<Rightarrow> string" where
  "squeeze key = strings_Join ''/'' (filter (\<lambda>s. s \<noteq> '''') (split_at (CHR ''/'') key))"

lemma squeeze_id_iff:
  assumes "key \<noteq> ''''"
  shows "squeeze key = key \<longleftrightarrow> '''' \<notin> set (split_at (CHR ''/'') key)"
proof
  let ?ss = "split_at (CHR ''/'') key"
  assume e: "squeeze key = key"
  show "'''' \<notin> set ?ss"
  proof (cases "filter (\<lambda>s. s \<noteq> '''') ?ss = []")
    case True
    with e assms show ?thesis by (simp add: squeeze_def)
  next
    case False
    then have "?ss = filter (\<lambda>s. s \<noteq> '''') ?ss"
      using split_at_Join [of "filter (\<lambda>s. s \<noteq> '''') ?ss" "CHR ''/''"] e split_at_free_segs [of _ "CHR ''/''" key]
      by (simp add: squeeze_def)
    then have "filter (\<lambda>s. s \<noteq> '''') ?ss = ?ss" by (rule sym)
    then show ?thesis by (auto simp: filter_id_conv)
  qed
next
  assume "'''' \<notin> set (split_at (CHR ''/'') key)"
  then have "filter (\<lambda>s. s \<noteq> '''') (split_at (CHR ''/'') key) = split_at (CHR ''/'') key"
    by (auto simp: filter_id_conv)
  then show "squeeze key = key" by (simp add: squeeze_def Join_split_at)
qed

lemma pip_get_key:
  assumes "CHR ''.'' \<notin> set key" "key \<noteq> ''''" "last key \<noteq> CHR ''/''"
  shows "pip_get S d (''/clients/'' @ key) = clientsHandler S d (''/clients/'' @ squeeze key)"
proof -
  let ?ss = "split_at (CHR ''/'') key"
  have "\<exists>s\<in>set ?ss. s \<noteq> ''''"
  proof (rule ccontr)
    assume "\<not> (\<exists>s\<in>set ?ss. s \<noteq> '''')"
    then have "set (strings_Join ''/'' ?ss) \<subseteq> {CHR ''/''}"
      by (intro Join_blank) simp
    with Join_split_at [of "CHR ''/''" key] assms(2,3) last_in_set [of key] show False by (metis singletonD subsetD)
  qed
  then obtain f fs where f: "filter (\<lambda>s. s \<noteq> '''') ?ss = f # fs"
    by (cases "filter (\<lambda>s. s \<noteq> '''') ?ss") (auto simp: filter_empty_conv)
  have "clean_segs [] ('''' # ''clients'' # ?ss) = ''clients'' # f # fs"
    using clean_segs_dotfree [of ?ss "[''clients'']"] split_at_subset [of _ "CHR ''/''" key] assms(1) f by auto
  then have "path_Clean (''/clients/'' @ key) = ''/clients/'' @ squeeze key"
    unfolding path_Clean_def clients_split squeeze_def f by simp
  with assms(2,3) show ?thesis
    by (simp add: pip_get_def mux_cleanPath_def Let_def strings_HasPrefix_def starts_with_iff)
qed

lemma clientsHandler_key: "key \<noteq> '''' \<Longrightarrow> clientsHandler S d (''/clients/'' @ key) =
    (case getClient S d key of Inl ErrNoRows \<Rightarrow> Response 404 None | Inl (SqlError _) \<Rightarrow> Response 500 None
     | Inr client \<Rightarrow> Response 200 (Some client))"
  by (simp add: clientsHandler_def strings_TrimPrefix_def strings_HasPrefix_def starts_with_iff)

subsection \<open>Properties\<close>

text \<open>
  (C36) The table round-trips: after seeding, a request for a client's key is answered with the client
  as the seed file has it, the last entry winning, and a key that neither the file nor the
  table had is answered 404. The key must reach the handler (no dots, no empty path segments), and
  the services must be storable: at least one, none with a comma.
\<close>
theorem pip_seed_lookup:
  assumes "sql_table S" and "seedClients S (Some (Some cs)) d = Some d'"
    and "key \<noteq> ''''" "CHR ''.'' \<notin> set key" "'''' \<notin> set (split_at (CHR ''/'') key)"
  shows "(\<forall>c. seeded cs key = Some c \<and> storable (ci_AllowedServices c) \<longrightarrow> pip_get S d' (''/clients/'' @ key) = Response 200 (Some c))
    \<and> (seeded cs key = None \<and> sq_select S key d = Inr None \<longrightarrow> pip_get S d' (''/clients/'' @ key) = Response 404 None)"
proof -
  have "last key \<noteq> CHR ''/''"
  proof
    assume "last key = CHR ''/''"
    then obtain k where "key = k @ ''/''" using assms(3) by (metis append_butlast_last_id)
    with assms(5) split_at_snoc [of "CHR ''/''" k] show False by simp
  qed
  with assms(3-5) have g: "pip_get S d' (''/clients/'' @ key) = clientsHandler S d' (''/clients/'' @ key)"
    using pip_get_key [of key S d'] squeeze_id_iff [of key] by simp
  have sel: "sq_select S key d' = (case seeded cs key of Some c \<Rightarrow> Inr (Some (row_of c)) | None \<Rightarrow> sq_select S key d)"
    using assms(1,2) by (intro seed_loop_select) (simp_all add: seedClients_def)
  have "pip_get S d' (''/clients/'' @ key) = Response 200 (Some c)" if "seeded cs key = Some c" "storable (ci_AllowedServices c)" for c
    using that sel g get_storable [of S key d' c] clientsHandler_key [OF assms(3), of S d'] by simp
  moreover have "pip_get S d' (''/clients/'' @ key) = Response 404 None" if "seeded cs key = None" "sq_select S key d = Inr None"
    using that sel g clientsHandler_key [OF assms(3), of S d'] by (simp add: getClient_def)
  ultimately show ?thesis by blast
qed

text \<open>
  A client whose base64 key starts with a slash or contains two in a row cannot be looked up: the
  multiplexer removes the empty segments, and the handler is asked for another, shorter key.
\<close>
theorem pip_slash_key_unreachable:
  assumes "CHR ''.'' \<notin> set key" "key \<noteq> ''''" "last key \<noteq> CHR ''/''" "'''' \<in> set (split_at (CHR ''/'') key)"
  shows "pip_get S d (''/clients/'' @ key) = clientsHandler S d (''/clients/'' @ squeeze key) \<and> squeeze key \<noteq> key"
  using pip_get_key [OF assms(1-3)] squeeze_id_iff [OF assms(2)] assms(4) by simp

text \<open>
  A client seeded with no services is read back with one, the empty string, and a name with a
  comma is read back as several names.
\<close>
theorem pip_services_not_faithful:
  assumes "sq_select S k d = Inr (Some (row_of c))"
  shows "(ci_AllowedServices c = [] \<longrightarrow> getClient S d k = Inr (c\<lparr>ci_AllowedServices := ['''']\<rparr>))
    \<and> (ci_AllowedServices c = [a @ '','' @ b] \<and> CHR '','' \<notin> set a \<and> CHR '','' \<notin> set b
       \<longrightarrow> getClient S d k = Inr (c\<lparr>ci_AllowedServices := [a, b]\<rparr>))"
  using get_row_of [OF assms] by (simp add: split_at_append_sep split_at_free)

subsection \<open>Examples\<close>

definition alist_sqlite :: "client_row smap sqlite" where
  "alist_sqlite = \<lparr>sq_create = Inr, sq_replace = (\<lambda>r d. Inr (AList.update (cl_client_pubkey r) r d)), sq_select = (\<lambda>k d. Inr (map_of d k))\<rparr>"

lemma alist_sql_table [simp]: "sql_table alist_sqlite"
  by (simp add: sql_table_def alist_sqlite_def update_conv')

definition ex_info :: ClientInfo where
  "ex_info = \<lparr>ci_ClientPubKey = ''a/b='', ci_PSK = ''p'', ci_AllowedServices = [''svc-http'', ''svc-db''], ci_Revoked = False\<rparr>"

theorem pip_seed_lookup_witness:
  "\<exists>d. seedClients alist_sqlite (Some (Some [ex_info])) [] = Some d \<and> pip_get alist_sqlite d ''/clients/a/b='' = Response 200 (Some ex_info)"
proof -
  obtain d where d: "seedClients alist_sqlite (Some (Some [ex_info])) [] = Some d"
    by (simp add: seedClients_def alist_sqlite_def)
  then show ?thesis
    using pip_seed_lookup [OF alist_sql_table d, of "''a/b=''"] by (auto simp: ex_info_def storable_def)
qed

theorem pip_slash_key_unreachable_witness:
  "pip_get alist_sqlite [(''//x='', row_of ex_info)] ''/clients///x='' = Response 404 None"
  using pip_slash_key_unreachable [of "''//x=''" alist_sqlite "[(''//x='', row_of ex_info)]"]
  by (simp add: squeeze_def clientsHandler_def strings_TrimPrefix_def strings_HasPrefix_def getClient_def alist_sqlite_def)

theorem pip_services_not_faithful_witness:
  "getClient alist_sqlite [(''k'', row_of (ex_info\<lparr>ci_AllowedServices := []\<rparr>))] ''k'' = Inr (ex_info\<lparr>ci_AllowedServices := ['''']\<rparr>)"
  using pip_services_not_faithful [of alist_sqlite "''k''" "[(''k'', row_of (ex_info\<lparr>ci_AllowedServices := []\<rparr>))]" "ex_info\<lparr>ci_AllowedServices := []\<rparr>" "''''" "''''"]
  by (simp add: alist_sqlite_def ex_info_def)

end
