(* ===== verification/Pdp.thy ===== *)
theory Pdp
  imports Noise Pip Transition
begin

text \<open>
  The policy decision point, \<^verbatim>\<open>pdp/main.go\<close> and \<^verbatim>\<open>pdp/metrics.go\<close>: the replay cache, the handler of an SPA
  packet and its metrics. The handler runs in a goroutine per packet and locks the cache twice, in
  \<^verbatim>\<open>Seen\<close> and in \<^verbatim>\<open>Add\<close>; it is split between them, \<open>handle_open\<close> and \<open>handle_authorize\<close>, and \<open>dstep\<close>
  interleaves the parts. The PIP and the PEP are called over HTTP: the PIP as a function of the path,
  the PEP as a function of the request and its own state. \<open>d_unmarshal\<close> and \<open>d_marshal\<close> stand for
  \<^verbatim>\<open>encoding/json\<close> on the access payload and response.
\<close>

definition replayTTL :: duration where "replayTTL = 10 * Second"
definition spaSkew :: duration where "spaSkew = 10 * Second"

subsection \<open>The replay cache\<close>

definition Seen :: "string \<Rightarrow> time \<Rightarrow> time smap \<Rightarrow> bool \<times> time smap" where
  "Seen hash now items =
     (let items = filter (\<lambda>(k, exp). \<not> now > exp) items in (map_of items hash \<noteq> None, items))"

definition Add :: "string \<Rightarrow> time \<Rightarrow> time smap \<Rightarrow> time smap" where
  "Add hash now items = AList.update hash (now + replayTTL) items"

text \<open>
  What the handler relies on: \<open>entry\<close> is the expiry under which a cache holds a hash. A visit of a
  packet checks its hash and enters it if the packet is accepted; an entry then outlives every visit
  up to its expiry, and the packet it stands for is seen.
\<close>

locale replay_cache =
  fixes seen :: "string \<Rightarrow> time \<Rightarrow> 'c \<Rightarrow> bool \<times> 'c" and add :: "string \<Rightarrow> time \<Rightarrow> 'c \<Rightarrow> 'c"
    and entry :: "'c \<Rightarrow> string \<Rightarrow> time option" and wf_cache :: "'c \<Rightarrow> bool"
  assumes seen_iff: "wf_cache c \<Longrightarrow> fst (seen h now c) \<longleftrightarrow> (\<exists>e. entry c h = Some e \<and> now \<le> e)"
    and seen_keeps: "wf_cache c \<Longrightarrow> entry c h = Some e \<Longrightarrow> now \<le> e \<Longrightarrow> entry (snd (seen k now c)) h = Some e"
    and add_entry: "entry (add h now c) k = (if k = h then Some (now + replayTTL) else entry c k)"
    and seen_wf: "wf_cache c \<Longrightarrow> wf_cache (snd (seen h now c))"
    and add_wf: "wf_cache c \<Longrightarrow> wf_cache (add h now c)"
begin

definition visit :: "string \<Rightarrow> time \<Rightarrow> bool \<Rightarrow> 'c \<Rightarrow> 'c" where
  "visit h now accepted c = (let (b, c) = seen h now c in if \<not> b \<and> accepted then add h now c else c)"

lemma visit_keeps:
  assumes "wf_cache c" "entry c h = Some e" "now \<le> e"
  shows "entry (visit k now a c) h = Some e" "wf_cache (visit k now a c)"
proof -
  have "k = h \<Longrightarrow> fst (seen k now c)" using assms by (auto simp: seen_iff)
  with assms show "entry (visit k now a c) h = Some e"
    by (auto simp: visit_def Let_def case_prod_beta add_entry seen_keeps)
  show "wf_cache (visit k now a c)" using assms(1) by (simp add: visit_def Let_def case_prod_beta seen_wf add_wf)
qed

lemma visits_seen:
  assumes "wf_cache c" "entry c h = Some e" "\<forall>(k, now, a)\<in>set vs. now \<le> e" "t \<le> e"
  shows "fst (seen h t (fold (\<lambda>(k, now, a). visit k now a) vs c))"
  using assms
proof (induction vs arbitrary: c)
  case Nil
  then show ?case by (simp add: seen_iff)
next
  case (Cons v vs)
  obtain k now a where v: "v = (k, now, a)" by (cases v)
  from Cons.prems v visit_keeps [of c h e now k a] Cons.IH [of "visit k now a c"] show ?case by simp
qed

lemma accepted_seen:
  assumes "wf_cache c" "\<not> fst (seen h t0 c)" "\<forall>(k, now, a)\<in>set vs. now \<le> t0 + replayTTL" "t \<le> t0 + replayTTL"
  shows "fst (seen h t (fold (\<lambda>(k, now, a). visit k now a) vs (visit h t0 True c)))"
proof -
  have "entry (visit h t0 True c) h = Some (t0 + replayTTL)" "wf_cache (visit h t0 True c)"
    using assms(1,2) by (auto simp: visit_def Let_def case_prod_beta add_entry seen_wf add_wf)
  then show ?thesis using assms(3,4) by (intro visits_seen)
qed

end

subsection \<open>Metrics\<close>

record spaMetric =
  sm_Seq :: u64
  sm_StartUnixNS :: int
  sm_Scenario :: string
  sm_Outcome :: string
  sm_DurationUS :: int
  sm_PacketSize :: nat
  sm_Error :: string

record spaMetrics =
  ms_next :: u64
  ms_max :: nat
  ms_events :: "spaMetric list"

definition globalSPAMetrics :: spaMetrics where
  "globalSPAMetrics = \<lparr>ms_next = 0, ms_max = 200000, ms_events = []\<rparr>"

text \<open>\<open>fin\<close> is the clock at \<^verbatim>\<open>time.Since\<close>. In a full slice the events move down by one place.\<close>

definition recordSPAMetric :: "string \<Rightarrow> string \<Rightarrow> time \<Rightarrow> time \<Rightarrow> nat \<Rightarrow> string option \<Rightarrow> spaMetrics \<Rightarrow> spaMetrics" where
  "recordSPAMetric scenario outcome start fin packetSize err m =
     (let errorText = (case err of None \<Rightarrow> '''' | Some e \<Rightarrow> e);
          m = m\<lparr>ms_next := ms_next m + 1\<rparr>;
          ev = \<lparr>sm_Seq = ms_next m, sm_StartUnixNS = start, sm_Scenario = scenario, sm_Outcome = outcome,
                sm_DurationUS = Microseconds (time_Sub fin start), sm_PacketSize = packetSize, sm_Error = errorText\<rparr> in
      if length (ms_events m) \<ge> ms_max m
      then m\<lparr>ms_events := (tl (ms_events m) @ [last (ms_events m)])[length (ms_events m) - 1 := ev]\<rparr>
      else m\<lparr>ms_events := ms_events m @ [ev]\<rparr>)"

definition resetSPAMetrics :: "spaMetrics \<Rightarrow> spaMetrics" where
  "resetSPAMetrics m = m\<lparr>ms_next := 0, ms_events := []\<rparr>"

text \<open>The rows of \<^verbatim>\<open>/metrics/spa/raw\<close>.\<close>

definition metrics_raw :: "spaMetrics \<Rightarrow> string list list" where
  "metrics_raw m =
     [''seq'', ''start_unix_ns'', ''scenario'', ''outcome'', ''duration_us'', ''packet_size'', ''error'']
     # map (\<lambda>ev. [utoa (sm_Seq ev), itoa (sm_StartUnixNS ev), sm_Scenario ev, sm_Outcome ev, itoa (sm_DurationUS ev),
                   itoa (int (sm_PacketSize ev)), sm_Error ev]) (ms_events m)"

subsection \<open>The handler\<close>

record 'w pdp_config =
  d_prims :: prims
  d_identity :: PDPIdentity
  d_pip :: "string \<Rightarrow> ClientInfo http_reply"
  d_pep :: "ActivateRequest \<Rightarrow> 'w \<Rightarrow> PEPActivationResponse http_reply \<times> 'w"
  d_pepWANAddress :: string
  d_pepNATTPort :: int
  d_unmarshal :: "bytes \<Rightarrow> AccessPayload option"
  d_marshal :: "AccessResponse \<Rightarrow> bytes option"
  d_write :: "bytes \<Rightarrow> string option" \<comment> \<open>\<^verbatim>\<open>WriteToUDP\<close>: the error, if any\<close>

record 'w pdp_state =
  pd_items :: "time smap"
  pd_metrics :: spaMetrics
  pd_world :: 'w

definition pdp_contains :: "string list \<Rightarrow> string \<Rightarrow> bool" where
  "pdp_contains xs x = list_ex (\<lambda>v. v = x) xs"

text \<open>Any status but 200 is \<^verbatim>\<open>http.ErrNoLocation\<close>; a body that does not decode is an error.\<close>

definition http_result :: "'a http_reply \<Rightarrow> string + 'a" where
  "http_result r =
     (case r of NoResponse err \<Rightarrow> Inl err
      | Response code body \<Rightarrow> if code \<noteq> 200 then Inl ''http: no Location header in response''
        else of_opt ''json'' body)"

definition fetchClient :: "'w pdp_config \<Rightarrow> string \<Rightarrow> string + ClientInfo" where
  "fetchClient D pubkey = http_result (d_pip D (''/clients/'' @ pubkey))"

definition activatePEP :: "'w pdp_config \<Rightarrow> ActivateRequest \<Rightarrow> 'w \<Rightarrow> (string + PEPActivationResponse) \<times> 'w" where
  "activatePEP D req w = (case d_pep D req w of (r, w) \<Rightarrow> (http_result r, w))"

text \<open>How a packet ends: a scenario and an outcome for the metrics with an error text, or nothing recorded.\<close>

datatype pdp_end = Metric string string "string option" | Unrecorded

definition err_text :: "spa_error \<Rightarrow> string" where
  "err_text e = (case e of ErrInvalidPacket \<Rightarrow> ''invalid SPA packet'' | SPAInvalidTime \<Rightarrow> ''invalid SPA timestamp''
     | ErrInvalidKey \<Rightarrow> ''invalid key'' | ErrDecryptFailed \<Rightarrow> ''SPA decrypt failed'' | SPAError s \<Rightarrow> s)"

text \<open>From \<^verbatim>\<open>Seen\<close> to the opened payload.\<close>

definition handle_open :: "'w pdp_config \<Rightarrow> bytes \<Rightarrow> time \<Rightarrow> time smap \<Rightarrow> (pdp_end + ClientInfo \<times> OpenResult) \<times> time smap" where
  "handle_open D packet now items =
     (let packetHash = PacketHash (d_prims D) packet; (seen, items) = Seen packetHash now items in
      ((if seen then Inl (Metric ''replay'' ''drop'' None)
        else case OpenIKpsk1SPAHeader (d_prims D) packet (d_identity D) now spaSkew of
          Inl err \<Rightarrow> Inl (Metric ''random'' ''drop_invalid_header'' (Some (err_text err)))
        | Inr header \<Rightarrow>
          (case fetchClient D (oh_ClientStaticPub header) of
             Inl err \<Rightarrow> Inl (Metric ''unknown_static_key'' ''drop_unknown_or_revoked'' (Some err))
           | Inr client \<Rightarrow>
             if ci_Revoked client then Inl (Metric ''unknown_static_key'' ''drop_unknown_or_revoked'' None)
             else (case CompleteIKpsk1SPA (d_prims D) header (ci_PSK client) of
                     Inl err \<Rightarrow> Inl (Metric ''wrong-psk'' ''drop_invalid_payload'' (Some (err_text err)))
                   | Inr opened \<Rightarrow> Inr (client, opened)))), items))"

definition activate_request :: "OpenResult \<Rightarrow> string \<Rightarrow> AccessPayload \<Rightarrow> ActivateRequest" where
  "activate_request opened clientOuterIP payload =
     \<lparr>ar_ClientPubKey = or_ClientStaticPub opened, ar_ClientOuterIP = clientOuterIP, ar_ServiceID = ap_ServiceID payload,
      ar_ClientInSPI = ap_ClientInSPI payload, ar_ClientDHPub = ap_ClientDHPub payload, ar_AEADSuites = ap_AEADSuites payload\<rparr>"

definition tunnel_params :: "'w pdp_config \<Rightarrow> PEPActivationResponse \<Rightarrow> TunnelParams" where
  "tunnel_params D a =
     \<lparr>tp_ServiceID = pr_ServiceID a, tp_ServiceIP = pr_ServiceIP a, tp_PEPAddress = d_pepWANAddress D, tp_PEPPort = d_pepNATTPort D,
      tp_ClientInnerIP = pr_ClientInnerIP a, tp_ClientInSPI = pr_ClientInSPI a, tp_PEPInSPI = pr_PEPInSPI a,
      tp_PEPDHPub = pr_PEPDHPub a, tp_AEAD = pr_AEAD a, tp_SALifetime = pr_SALifetime a, tp_ExpiresAt = pr_ExpiresAt a,
      tp_CapacityToken = pr_CapacityToken a, tp_SABinding = pr_SABinding a\<rparr>"

definition access_response :: "'w pdp_config \<Rightarrow> PEPActivationResponse \<Rightarrow> AccessResponse" where
  "access_response D a = \<lparr>rs_Authorized = True, rs_Reason = ''authorized'', rs_Tunnel = Some (tunnel_params D a)\<rparr>"

text \<open>The end of the handler: the response is marshalled, encrypted and written; \<open>Some\<close> is what was written.\<close>

definition send_response :: "'w pdp_config \<Rightarrow> OpenResult \<Rightarrow> PEPActivationResponse \<Rightarrow> pdp_end \<times> bytes option" where
  "send_response D opened activation =
     (case d_marshal D (access_response D activation) of None \<Rightarrow> (Unrecorded, None)
      | Some plainResp \<Rightarrow>
        (case EncryptResponse (d_prims D) (Some (or_ResponseKey opened)) plainResp of None \<Rightarrow> (Unrecorded, None)
         | Some cipherResp \<Rightarrow>
           (case d_write D cipherResp of
              Some err \<Rightarrow> (Metric ''valid'' ''write_error'' (Some err), None)
            | None \<Rightarrow> (Metric ''valid'' ''authorized'' None, Some cipherResp))))"

text \<open>From \<^verbatim>\<open>Add\<close> to the response.\<close>

definition handle_authorize ::
  "'w pdp_config \<Rightarrow> string \<Rightarrow> time \<Rightarrow> ClientInfo \<times> OpenResult \<Rightarrow> 'w pdp_state \<Rightarrow> (pdp_end \<times> bytes option) \<times> 'w pdp_state" where
  "handle_authorize D clientOuterIP now = (\<lambda>(client, opened) s.
     let s = s\<lparr>pd_items := Add (or_PacketHash opened) now (pd_items s)\<rparr> in
     case d_unmarshal D (or_Payload opened) of None \<Rightarrow> ((Unrecorded, None), s)
     | Some payload \<Rightarrow>
       if \<not> pdp_contains (ci_AllowedServices client) (ap_ServiceID payload)
       then ((Metric ''unauthorized'' ''drop_policy'' None, None), s)
       else (case activatePEP D (activate_request opened clientOuterIP payload) (pd_world s) of
               (Inl err, w) \<Rightarrow> ((Metric ''valid'' ''activation_error'' (Some err), None), s\<lparr>pd_world := w\<rparr>)
             | (Inr activation, w) \<Rightarrow> (send_response D opened activation, s\<lparr>pd_world := w\<rparr>)))"

definition record_end :: "pdp_end \<Rightarrow> time \<Rightarrow> time \<Rightarrow> nat \<Rightarrow> 'w pdp_state \<Rightarrow> 'w pdp_state" where
  "record_end e start fin packetSize s =
     (case e of Unrecorded \<Rightarrow> s
      | Metric scenario outcome err \<Rightarrow> s\<lparr>pd_metrics := recordSPAMetric scenario outcome start fin packetSize err (pd_metrics s)\<rparr>)"

text \<open>One packet without interference: what is written back, if anything.\<close>

definition handleUDPPacket ::
  "'w pdp_config \<Rightarrow> string \<Rightarrow> bytes \<Rightarrow> time \<Rightarrow> time \<Rightarrow> 'w pdp_state \<Rightarrow> bytes option \<times> 'w pdp_state" where
  "handleUDPPacket D remoteIP packet now fin s =
     (case handle_open D packet now (pd_items s) of
        (Inl e, items) \<Rightarrow> (None, record_end e now fin (length packet) (s\<lparr>pd_items := items\<rparr>))
      | (Inr x, items) \<Rightarrow>
        (case handle_authorize D remoteIP now x (s\<lparr>pd_items := items\<rparr>) of
           ((e, out), s) \<Rightarrow> (out, record_end e now fin (length packet) s)))"

text \<open>The loop of \<^verbatim>\<open>main\<close>: a datagram is read into a buffer of 2048 bytes, and what does not fit is lost.\<close>

definition receiveUDP ::
  "'w pdp_config \<Rightarrow> string \<Rightarrow> bytes \<Rightarrow> time \<Rightarrow> time \<Rightarrow> 'w pdp_state \<Rightarrow> bytes option \<times> 'w pdp_state" where
  "receiveUDP D remoteIP datagram now fin s = handleUDPPacket D remoteIP (take 2048 datagram) now fin s"

text \<open>The goroutines: a packet is opened and waits, or is dropped; a waiting one is authorized.\<close>

type_synonym inflight = "string \<times> bytes \<times> time \<times> ClientInfo \<times> OpenResult"

inductive dstep :: "'w pdp_config \<Rightarrow> 'w pdp_state \<times> inflight list \<Rightarrow> 'w pdp_state \<times> inflight list \<Rightarrow> bool"
  for D where
  opened: "handle_open D packet now (pd_items s) = (Inr (client, res), items) \<Longrightarrow>
    dstep D (s, fs) (s\<lparr>pd_items := items\<rparr>, (ip, packet, now, client, res) # fs)"
| dropped: "handle_open D packet now (pd_items s) = (Inl e, items) \<Longrightarrow>
    dstep D (s, fs) (record_end e now fin (length packet) (s\<lparr>pd_items := items\<rparr>), fs)"
| authorized: "(ip, packet, now, client, res) \<in> set fs \<Longrightarrow> handle_authorize D ip now (client, res) s = ((e, out), s') \<Longrightarrow>
    dstep D (s, fs) (record_end e now fin (length packet) s', remove1 (ip, packet, now, client, res) fs)"
| reset: "dstep D (s, fs) (s\<lparr>pd_metrics := resetSPAMetrics (pd_metrics s)\<rparr>, fs)"

inductive_cases dstep_elim: "dstep D (s, fs) (s', fs')"

text \<open>The settings that \<^verbatim>\<open>main\<close> requires: \<open>None\<close> is \<^verbatim>\<open>log.Fatal\<close>.\<close>

definition pdp_getenvInt :: "env \<Rightarrow> string \<Rightarrow> int \<Rightarrow> int" where
  "pdp_getenvInt env k fallback =
     (let v = getenv env k '''' in
      if v = '''' then fallback else case strconv_Atoi v of None \<Rightarrow> fallback | Some n \<Rightarrow> n)"

definition pdp_settings :: "env \<Rightarrow> (string \<times> string \<times> string \<times> int) option" where
  "pdp_settings env =
     (let pipURL = getenv env ''PIP_URL'' ''''; pepControlURL = getenv env ''PEP_CONTROL_URL'' '''';
          pepWANAddress = getenv env ''PEP_WAN_ADDRESS'' '''' in
      if pipURL = '''' \<or> pepControlURL = '''' \<or> pepWANAddress = '''' then None
      else Some (pipURL, pepControlURL, pepWANAddress, pdp_getenvInt env ''PEP_NATT_PORT'' 4500))"

subsection \<open>Lemmas\<close>

text \<open>An entry survives every \<^verbatim>\<open>Seen\<close> up to its expiry, and every \<^verbatim>\<open>Add\<close> of another hash.\<close>

lemma Seen_keeps:
  assumes "Seen h now items = (b, items')" "map_of items k = Some e" "now \<le> e" "distinct (keys items)"
  shows "map_of items' k = Some e" "distinct (keys items')"
proof -
  have i: "items' = filter (\<lambda>(k, exp). \<not> now > exp) items" using assms(1) by (simp add: Seen_def Let_def)
  show d: "distinct (keys items')" using assms(4) by (simp add: i distinct_map_filter)
  have "(k, e) \<in> set items'" using assms(2,3) by (auto simp: i dest: map_of_SomeD)
  with d show "map_of items' k = Some e" by simp
qed

lemma Seen_distinct: "Seen h now items = (b, items') \<Longrightarrow> distinct (keys items) \<Longrightarrow> distinct (keys items')"
  by (auto simp: Seen_def Let_def distinct_map_filter)

lemma Seen_iff:
  assumes "distinct (keys items)"
  shows "fst (Seen h now items) \<longleftrightarrow> (\<exists>e. map_of items h = Some e \<and> now \<le> e)"
proof -
  have d: "distinct (keys (filter (\<lambda>(k, exp). \<not> now > exp) items))" using assms by (simp add: distinct_map_filter)
  show ?thesis
  proof
    assume "fst (Seen h now items)"
    then obtain e where "map_of (filter (\<lambda>(k, exp). \<not> now > exp) items) h = Some e" by (auto simp: Seen_def Let_def)
    then have "(h, e) \<in> set items" "now \<le> e" by (auto dest!: map_of_SomeD)
    with assms show "\<exists>e. map_of items h = Some e \<and> now \<le> e" by auto
  next
    assume "\<exists>e. map_of items h = Some e \<and> now \<le> e"
    then obtain e where "(h, e) \<in> set items" "now \<le> e" by (metis map_of_SomeD)
    then have "(h, e) \<in> set (filter (\<lambda>(k, exp). \<not> now > exp) items)" by simp
    with d show "fst (Seen h now items)" by (simp add: Seen_def Let_def)
  qed
qed

lemma Add_simps [simp]:
  "map_of (Add h now items) k = (if k = h then Some (now + replayTTL) else map_of items k)"
  "distinct (keys items) \<Longrightarrow> distinct (keys (Add h now items))"
  by (simp_all add: Add_def update_conv')

interpretation cache: replay_cache Seen Add map_of "\<lambda>items. distinct (keys items)"
proof
  fix c :: "time smap" and h k now e
  assume d: "distinct (keys c)"
  show "fst (Seen h now c) \<longleftrightarrow> (\<exists>e. map_of c h = Some e \<and> now \<le> e)" by (rule Seen_iff [OF d])
  show "distinct (keys (snd (Seen h now c)))" using Seen_distinct [of h now c] d by (cases "Seen h now c") simp
  show "distinct (keys (Add h now c))" using d by simp
  show "map_of (snd (Seen k now c)) h = Some e" if "map_of c h = Some e" "now \<le> e"
    using Seen_keeps(1) [of k now c "fst (Seen k now c)" "snd (Seen k now c)" h e] that d by simp
qed simp

lemma record_end_frame [simp]:
  "pd_items (record_end e a b c s) = pd_items s" "pd_world (record_end e a b c s) = pd_world s"
  by (simp_all add: record_end_def split: pdp_end.split)

lemma handle_open_items: "snd (handle_open D packet now items) = snd (Seen (PacketHash (d_prims D) packet) now items)"
  by (simp add: handle_open_def Let_def case_prod_beta)

lemma handle_open_replay:
  "fst (Seen (PacketHash (d_prims D) packet) now items) \<Longrightarrow> fst (handle_open D packet now items) = Inl (Metric ''replay'' ''drop'' None)"
  by (simp add: handle_open_def Let_def case_prod_beta)

text \<open>What an opened packet has passed.\<close>

lemma handle_open_elim:
  assumes "handle_open D packet now items = (Inr (client, res), items')"
  obtains header where "Seen (PacketHash (d_prims D) packet) now items = (False, items')"
    "OpenIKpsk1SPAHeader (d_prims D) packet (d_identity D) now spaSkew = Inr header"
    "fetchClient D (oh_ClientStaticPub header) = Inr client" "\<not> ci_Revoked client"
    "CompleteIKpsk1SPA (d_prims D) header (ci_PSK client) = Inr res"
  using assms
  by (auto simp: handle_open_def Let_def case_prod_beta prod_eq_iff split: if_splits sum.splits)

lemma complete_names: "CompleteIKpsk1SPA P header psk = Inr res \<Longrightarrow>
    or_PacketHash res = oh_PacketHash header \<and> or_ClientStaticPub res = oh_ClientStaticPub header \<and> or_TimestampMS res = oh_TimestampMS header"
  by (cases "oh_ss header") (auto simp: CompleteIKpsk1SPA_def result_iffs Let_def case_prod_beta split: if_splits)

lemma header_hash: "OpenIKpsk1SPAHeader P packet pdp now skew = Inr header \<Longrightarrow> oh_PacketHash header = PacketHash P packet"
  by (erule header_elim) simp

lemma opened_hash:
  assumes "handle_open D packet now items = (Inr (client, res), items')"
  shows "or_PacketHash res = PacketHash (d_prims D) packet"
  using assms by (rule handle_open_elim) (metis complete_names header_hash)

lemma authorize_items: "pd_items (snd (handle_authorize D ip now (client, res) s)) = Add (or_PacketHash res) now (pd_items s)"
  by (auto simp: handle_authorize_def Let_def split: option.split prod.split sum.split)

text \<open>A packet that went through entered its hash; a packet that did not only swept the cache.\<close>

lemma handle_items:
  assumes "handleUDPPacket D ip packet now fin s = (out, s')"
  shows "pd_items s' = (case handle_open D packet now (pd_items s) of (Inr x, items) \<Rightarrow> Add (PacketHash (d_prims D) packet) now items
    | (Inl e, items) \<Rightarrow> items)"
proof (cases "handle_open D packet now (pd_items s)")
  case (Pair r items)
  show ?thesis
  proof (cases r)
    case (Inl e)
    with Pair assms show ?thesis by (auto simp: handleUDPPacket_def)
  next
    case (Inr x)
    obtain client res where x: "x = (client, res)" by (cases x)
    obtain e o1 s1 where a: "handle_authorize D ip now x (s\<lparr>pd_items := items\<rparr>) = ((e, o1), s1)" by (metis prod.collapse)
    with assms Pair Inr have "pd_items s' = pd_items s1" by (auto simp: handleUDPPacket_def)
    with authorize_items [of D ip now client res "s\<lparr>pd_items := items\<rparr>"] a x opened_hash [of D packet now "pd_items s" client res items] Pair Inr
    show ?thesis by simp
  qed
qed

text \<open>The run of a sequence of packets.\<close>

fun run_packets :: "'w pdp_config \<Rightarrow> (string \<times> bytes \<times> time \<times> time) list \<Rightarrow> 'w pdp_state \<Rightarrow> 'w pdp_state" where
  "run_packets D [] s = s"
| "run_packets D ((ip, packet, now, fin) # ps) s = run_packets D ps (snd (handleUDPPacket D ip packet now fin s))"

lemma handle_visit:
  "pd_items (snd (handleUDPPacket D ip packet now fin s))
     = cache.visit (PacketHash (d_prims D) packet) now (is_ok (fst (handle_open D packet now (pd_items s)))) (pd_items s)"
proof -
  let ?h = "handle_open D packet now (pd_items s)"
  have it: "snd ?h = snd (Seen (PacketHash (d_prims D) packet) now (pd_items s))" by (rule handle_open_items)
  have "handleUDPPacket D ip packet now fin s = (fst (handleUDPPacket D ip packet now fin s), snd (handleUDPPacket D ip packet now fin s))" by simp
  from handle_items [OF this] it show ?thesis
    using handle_open_replay [of D packet now "pd_items s"]
    by (cases "fst ?h") (auto simp: cache.visit_def Let_def case_prod_beta)
qed

lemma run_visits:
  assumes "\<forall>(ip, packet, now, fin)\<in>set ps. now \<le> e"
  shows "\<exists>vs. pd_items (run_packets D ps s) = fold (\<lambda>(k, now, a). cache.visit k now a) vs (pd_items s) \<and> (\<forall>(k, now, a)\<in>set vs. now \<le> e)"
  using assms
proof (induction ps arbitrary: s)
  case Nil
  show ?case by (rule exI [of _ "[]"]) simp
next
  case (Cons q ps)
  obtain ip packet now fin where q: "q = (ip, packet, now, fin)" by (metis prod.collapse)
  let ?s1 = "snd (handleUDPPacket D ip packet now fin s)"
  from Cons.IH [of ?s1] Cons.prems obtain vs where
    vs: "pd_items (run_packets D ps ?s1) = fold (\<lambda>(k, now, a). cache.visit k now a) vs (pd_items ?s1)" "\<forall>(k, now, a)\<in>set vs. now \<le> e" by auto
  let ?v = "(PacketHash (d_prims D) packet, now, is_ok (fst (handle_open D packet now (pd_items s))))"
  show ?case
  proof (intro exI conjI)
    show "pd_items (run_packets D (q # ps) s) = fold (\<lambda>(k, now, a). cache.visit k now a) (?v # vs) (pd_items s)"
      using vs(1) by (simp add: q handle_visit)
    show "\<forall>(k, now, a)\<in>set (?v # vs). now \<le> e" using vs(2) Cons.prems q by simp
  qed
qed

text \<open>Keys in base64: no dots, and 32 bytes end with padding.\<close>

lemma b64_no_dot: "CHR ''.'' \<notin> set (base64_EncodeToString bs)"
proof -
  have "\<forall>n \<in> set (map unat bs). n < 256" by (auto simp: unat_byte_less)
  moreover have "b64_val (CHR ''.'') = None" by (simp add: b64_val_def)
  ultimately show ?thesis using b64_enc_clean [of "map unat bs" "CHR ''.''"] by (auto simp: base64_EncodeToString_def)
qed

lemma b64_last: "length ns mod 3 \<noteq> 0 \<Longrightarrow> last (b64_enc ns) = CHR ''=''"
proof (induction ns rule: b64_enc.induct)
  case (4 a b c r)
  moreover from 4 have "b64_enc r \<noteq> []" by (cases r rule: b64_enc.cases) auto
  ultimately show ?case by (simp add: last_append)
qed simp_all

lemma squeeze_nonempty:
  assumes "key \<noteq> ''''" "last key \<noteq> CHR ''/''"
  shows "squeeze key \<noteq> ''''"
proof
  let ?ss = "split_at (CHR ''/'') key"
  assume e: "squeeze key = ''''"
  have "filter (\<lambda>s. s \<noteq> '''') ?ss = []"
  proof (cases "filter (\<lambda>s. s \<noteq> '''') ?ss")
    case (Cons f fs)
    then have "f \<in> set (filter (\<lambda>s. s \<noteq> '''') ?ss)" by simp
    then have "f \<noteq> ''''" by simp
    with e Cons show ?thesis by (cases fs) (simp_all add: squeeze_def)
  qed
  then have "set key \<subseteq> {CHR ''/''}" using Join_blank [of ?ss] by (simp add: filter_empty_conv Join_split_at)
  with assms last_in_set [of key] show False by blast
qed

text \<open>What the cryptography documents, and a client and a PDP with matching keys.\<close>

definition crypto_ok :: "prims \<Rightarrow> bool" where
  "crypto_ok P \<longleftrightarrow> sha256_size P \<and> gcm_correct P \<and> x25519_size P \<and> x25519_commutes P"

definition static_pair :: "prims \<Rightarrow> string \<Rightarrow> string \<Rightarrow> bytes \<Rightarrow> bool" where
  "static_pair P priv pub k \<longleftrightarrow>
     (\<exists>sk. decodeB64 priv 32 = Inr sk \<and> decodeB64 pub 32 = Inr k \<and> curve25519_X25519 P sk curve25519_Basepoint = Some k)"

definition enrolled :: "'w pdp_config \<Rightarrow> ClientIdentity \<Rightarrow> bytes \<Rightarrow> ClientInfo \<Rightarrow> bool" where
  "enrolled D cid cpk info \<longleftrightarrow>
     static_pair (d_prims D) (cid_ClientStaticPriv cid) (cid_ClientStaticPub cid) cpk
     \<and> (\<exists>ppk. static_pair (d_prims D) (pid_PDPStaticPriv (d_identity D)) (pid_PDPStaticPub (d_identity D)) ppk)
     \<and> fetchClient D (base64_EncodeToString cpk) = Inr info \<and> \<not> ci_Revoked info \<and> ci_PSK info = cid_SPAPSK cid"

lemma open_split:
  assumes "OpenIKpsk1SPA P packet (pdp\<lparr>pid_SPAPSK := psk\<rparr>) now skew = Inr r"
  obtains h where "OpenIKpsk1SPAHeader P packet pdp now skew = Inr h" "CompleteIKpsk1SPA P h psk = Inr r"
proof -
  have "OpenIKpsk1SPAHeader P packet (pdp\<lparr>pid_SPAPSK := psk\<rparr>) now skew = OpenIKpsk1SPAHeader P packet pdp now skew"
    by (simp add: OpenIKpsk1SPAHeader_def)
  with assms that show thesis by (auto simp: OpenIKpsk1SPA_def result_iffs)
qed

text \<open>The packet of an enrolled client is opened, at any time in the window, unless its hash is in the cache.\<close>

lemma built_opens:
  assumes "crypto_ok (d_prims D)" "enrolled D cid cpk info"
    and "BuildIKpsk1SPA (d_prims D) rand cid (pid_PDPStaticPub (d_identity D)) payload t0 = Inr b"
    and "length payload \<le> 1096" "- (2 ^ 63) \<le> UnixMilli t0" "UnixMilli t0 < 2 ^ 63"
    and "\<bar>now - time_UnixMilli (UnixMilli t0)\<bar> \<le> spaSkew"
    and "\<not> fst (Seen (br_PacketHash b) now items)"
  shows "handle_open D (br_Packet b) now items
    = (Inr (info, \<lparr>or_ClientStaticPub = base64_EncodeToString cpk, or_TimestampMS = br_TimestampMS b, or_Payload = payload,
                   or_PacketHash = br_PacketHash b, or_ResponseKey = br_ResponseKey b\<rparr>), snd (Seen (br_PacketHash b) now items))"
proof -
  let ?pdp = "(d_identity D)\<lparr>pid_SPAPSK := ci_PSK info\<rparr>"
  from assms(2) obtain csk ppk psk' where k: "decodeB64 (cid_ClientStaticPriv cid) 32 = Inr csk" "decodeB64 (cid_ClientStaticPub cid) 32 = Inr cpk"
    "curve25519_X25519 (d_prims D) csk curve25519_Basepoint = Some cpk"
    "decodeB64 (pid_PDPStaticPriv (d_identity D)) 32 = Inr psk'" "decodeB64 (pid_PDPStaticPub (d_identity D)) 32 = Inr ppk"
    "curve25519_X25519 (d_prims D) psk' curve25519_Basepoint = Some ppk"
    and info: "fetchClient D (base64_EncodeToString cpk) = Inr info" "\<not> ci_Revoked info" "ci_PSK info = cid_SPAPSK cid"
    by (auto simp: enrolled_def static_pair_def)
  have "OpenIKpsk1SPA (d_prims D) (br_Packet b) ?pdp now spaSkew
    = Inr \<lparr>or_ClientStaticPub = base64_EncodeToString cpk, or_TimestampMS = br_TimestampMS b, or_Payload = payload,
           or_PacketHash = br_PacketHash b, or_ResponseKey = br_ResponseKey b\<rparr>" (is "_ = Inr ?r")
  proof (rule open_built)
    show "BuildIKpsk1SPA (d_prims D) rand cid (pid_PDPStaticPub ?pdp) payload t0 = Inr b" using assms(3) by simp
    show "pid_SPAPSK ?pdp = cid_SPAPSK cid" using info by simp
    show "0 \<le> spaSkew" by (simp add: spaSkew_def Second_def)
    show "curve25519_X25519 (d_prims D) csk curve25519_Basepoint = Some cpk" "curve25519_X25519 (d_prims D) psk' curve25519_Basepoint = Some ppk"
      by (fact k)+
  qed (use assms k in \<open>simp_all add: crypto_ok_def\<close>)
  then obtain h where h: "OpenIKpsk1SPAHeader (d_prims D) (br_Packet b) (d_identity D) now spaSkew = Inr h"
    "CompleteIKpsk1SPA (d_prims D) h (ci_PSK info) = Inr ?r" by (rule open_split)
  have n: "oh_ClientStaticPub h = base64_EncodeToString cpk" "PacketHash (d_prims D) (br_Packet b) = br_PacketHash b"
    using complete_names [OF h(2)] header_hash [OF h(1)] by simp_all
  show ?thesis using h n info assms(8) by (simp add: handle_open_def Let_def case_prod_beta)
qed

text \<open>What the second half does for an allowed service.\<close>

lemma authorize_calls:
  assumes "d_unmarshal D (or_Payload res) = Some pl" "pdp_contains (ci_AllowedServices client) (ap_ServiceID pl)"
    "handle_authorize D ip now (client, res) s = ((e, out), s')"
  shows "pd_world s' = snd (d_pep D (activate_request res ip pl) (pd_world s))" "pd_items s' = Add (or_PacketHash res) now (pd_items s)"
  using assms by (auto simp: handle_authorize_def Let_def activatePEP_def case_prod_beta prod_eq_iff split: sum.splits)

lemma handle_calls:
  assumes "handleUDPPacket D ip packet t fin u = (out, s')" "handle_open D packet t (pd_items u) = (Inr (client, res), items)"
    and "d_unmarshal D (or_Payload res) = Some pl" "pdp_contains (ci_AllowedServices client) (ap_ServiceID pl)"
  shows "pd_world s' = snd (d_pep D (activate_request res ip pl) (pd_world u)) \<and> pd_items s' = Add (or_PacketHash res) t items"
proof -
  obtain e o1 u1 where a: "handle_authorize D ip t (client, res) (u\<lparr>pd_items := items\<rparr>) = ((e, o1), u1)" by (metis prod.collapse)
  from authorize_calls [OF assms(3,4) a] a assms(1,2) show ?thesis by (auto simp: handleUDPPacket_def)
qed

lemma Seen_sweeps:
  assumes "\<not> fst (Seen h now items)"
  shows "\<not> fst (Seen h now (snd (Seen h now items)))" "snd (Seen h now (snd (Seen h now items))) = snd (Seen h now items)"
  using assms by (simp_all add: Seen_def Let_def)

text \<open>The metrics: the window holds the last events, numbered consecutively.\<close>

definition last_n :: "nat \<Rightarrow> 'a list \<Rightarrow> 'a list" where
  "last_n n xs = drop (length xs - n) xs"

definition metrics_ok :: "spaMetrics \<Rightarrow> bool" where
  "metrics_ok m \<longleftrightarrow> 0 < ms_max m \<and> length (ms_events m) \<le> ms_max m
     \<and> map sm_Seq (ms_events m) = map (\<lambda>i. ms_next m - of_nat i) (rev [0..<length (ms_events m)])"

lemma shift_last: "xs \<noteq> [] \<Longrightarrow> (tl xs @ [last xs])[length xs - 1 := v] = tl xs @ [v]"
  by (simp add: list_update_append)

lemma record_window:
  assumes "0 < ms_max m" "length (ms_events m) \<le> ms_max m"
  shows "\<exists>ev. ms_events (recordSPAMetric scenario outcome a b n err m) = last_n (ms_max m) (ms_events m @ [ev])
    \<and> sm_Seq ev = ms_next m + 1 \<and> sm_Scenario ev = scenario \<and> sm_Outcome ev = outcome"
proof (cases "length (ms_events m) \<ge> ms_max m")
  case True
  with assms have l: "length (ms_events m) = ms_max m" and ne: "ms_events m \<noteq> []" by auto
  obtain ev where ev: "ms_events (recordSPAMetric scenario outcome a b n err m) = tl (ms_events m) @ [ev]" "sm_Seq ev = ms_next m + 1"
    "sm_Scenario ev = scenario" "sm_Outcome ev = outcome"
    using True shift_last [OF ne] by (simp add: recordSPAMetric_def Let_def)
  have "last_n (ms_max m) (ms_events m @ [ev]) = tl (ms_events m) @ [ev]"
    using ne unfolding l [symmetric] by (cases "ms_events m") (simp_all add: last_n_def)
  with ev show ?thesis by metis
next
  case False
  then show ?thesis by (simp add: recordSPAMetric_def Let_def last_n_def)
qed

lemma record_frame [simp]:
  "ms_max (recordSPAMetric scenario outcome a b n err m) = ms_max m"
  "ms_next (recordSPAMetric scenario outcome a b n err m) = ms_next m + 1"
  by (simp_all add: recordSPAMetric_def Let_def)

lemma map_rev_upt_Suc: "map f (rev [0..<Suc n]) = map (\<lambda>i. f (Suc i)) (rev [0..<n]) @ [f 0]"
proof -
  have "[0..<Suc n] = 0 # map Suc [0..<n]" by (simp add: map_Suc_upt upt_conv_Cons del: upt_Suc)
  then show ?thesis by (simp add: rev_map del: upt_Suc)
qed

lemma record_metrics_ok:
  assumes "metrics_ok m"
  shows "metrics_ok (recordSPAMetric scenario outcome a b n err m)"
proof -
  let ?m = "recordSPAMetric scenario outcome a b n err m" and ?l = "length (ms_events m)"
  have m: "0 < ms_max m" "?l \<le> ms_max m" "map sm_Seq (ms_events m) = map (\<lambda>i. ms_next m - of_nat i) (rev [0..<?l])"
    using assms by (simp_all add: metrics_ok_def)
  from record_window [OF m(1,2)] obtain ev where ev: "ms_events ?m = last_n (ms_max m) (ms_events m @ [ev])" "sm_Seq ev = ms_next m + 1"
    by blast
  have all: "map sm_Seq (ms_events m @ [ev]) = map (\<lambda>i. (ms_next m + 1) - of_nat i) (rev [0..<Suc ?l])"
    unfolding map_rev_upt_Suc using m(3) ev(2) by (simp add: algebra_simps)
  have "map sm_Seq (ms_events ?m) = drop (Suc ?l - ms_max m) (map (\<lambda>i. (ms_next m + 1) - of_nat i) (rev [0..<Suc ?l]))"
    unfolding ev(1) last_n_def drop_map [symmetric] all by simp
  also have "\<dots> = map (\<lambda>i. (ms_next m + 1) - of_nat i) (rev [0..<length (ms_events ?m)])"
    using m(1,2) by (cases "?l = ms_max m") (simp_all add: ev(1) last_n_def drop_map drop_rev Suc_le_eq del: upt_Suc)
  finally show ?thesis using m by (simp add: metrics_ok_def ev(1) last_n_def)
qed

lemma reset_metrics_ok: "metrics_ok m \<Longrightarrow> metrics_ok (resetSPAMetrics m)"
  by (simp add: metrics_ok_def resetSPAMetrics_def)

lemma record_end_metrics: "metrics_ok (pd_metrics s) \<Longrightarrow> metrics_ok (pd_metrics (record_end e a b c s))"
  by (simp add: record_end_def record_metrics_ok split: pdp_end.split)

lemma authorize_metrics: "handle_authorize D ip now x s = ((e, out), s') \<Longrightarrow> pd_metrics s' = pd_metrics s"
  by (auto simp: handle_authorize_def Let_def split: prod.splits option.splits sum.splits if_splits)

lemma dstep_metrics: "dstep D (s, fs) (s', fs') \<Longrightarrow> metrics_ok (pd_metrics s) \<Longrightarrow> metrics_ok (pd_metrics s')"
  by (erule dstep_elim) (auto intro!: record_end_metrics reset_metrics_ok dest: authorize_metrics)

interpretation pdp_run: transition_system "dstep D" "\<lambda>(s, fs). metrics_ok (pd_metrics s)" for D
  by unfold_locales (auto intro: dstep_metrics)

subsection \<open>Properties\<close>


text \<open>
  (C8) The PDP acts only on authority: when a packet makes it contact the PEP or send anything, the
  packet was not in the cache, its timestamp was within ten seconds, the PIP knew the client that
  the handshake authenticated and had not revoked it, the payload opened under that client's PSK,
  and its service was among the client's. The PEP got one request, in that client's name.
\<close>
theorem pdp_acts_on_authority:
  assumes "handleUDPPacket D ip packet now fin s = (out, s')" "out \<noteq> None \<or> pd_world s' \<noteq> pd_world s"
  shows "\<exists>header client res payload.
      \<not> fst (Seen (PacketHash (d_prims D) packet) now (pd_items s))
    \<and> OpenIKpsk1SPAHeader (d_prims D) packet (d_identity D) now spaSkew = Inr header
    \<and> \<bar>now - time_UnixMilli (oh_TimestampMS header)\<bar> \<le> 10 * Second
    \<and> fetchClient D (oh_ClientStaticPub header) = Inr client \<and> \<not> ci_Revoked client
    \<and> CompleteIKpsk1SPA (d_prims D) header (ci_PSK client) = Inr res
    \<and> d_unmarshal D (or_Payload res) = Some payload \<and> ap_ServiceID payload \<in> set (ci_AllowedServices client)
    \<and> pd_world s' = snd (d_pep D (activate_request res ip payload) (pd_world s))
    \<and> ar_ClientPubKey (activate_request res ip payload) = oh_ClientStaticPub header"
proof -
  obtain r items where o: "handle_open D packet now (pd_items s) = (r, items)" by (cases "handle_open D packet now (pd_items s)")
  from assms o obtain client res where r: "r = Inr (client, res)"
    by (cases r) (auto simp: handleUDPPacket_def)
  obtain e o1 s1 where a: "handle_authorize D ip now (client, res) (s\<lparr>pd_items := items\<rparr>) = ((e, o1), s1)" by (metis prod.collapse)
  with assms o r have out: "out = o1" "pd_world s' = pd_world s1" by (auto simp: handleUDPPacket_def)
  obtain pl where pl: "d_unmarshal D (or_Payload res) = Some pl" "pdp_contains (ci_AllowedServices client) (ap_ServiceID pl)"
    using a assms(2) out by (cases "d_unmarshal D (or_Payload res)") (auto simp: handle_authorize_def Let_def split: if_splits)
  from o [unfolded r] obtain header where h: "Seen (PacketHash (d_prims D) packet) now (pd_items s) = (False, items)"
    "OpenIKpsk1SPAHeader (d_prims D) packet (d_identity D) now spaSkew = Inr header"
    "fetchClient D (oh_ClientStaticPub header) = Inr client" "\<not> ci_Revoked client"
    "CompleteIKpsk1SPA (d_prims D) header (ci_PSK client) = Inr res" by (rule handle_open_elim)
  from h(2) have "\<bar>now - time_UnixMilli (oh_TimestampMS header)\<bar> \<le> spaSkew"
    by (rule header_elim) (auto dest!: time_Sub_le simp: abs_le_iff spaSkew_def Second_def max_duration_def)
  then show ?thesis
    using h pl authorize_calls [OF pl a] out complete_names [OF h(5)]
    by (intro exI [of _ header] exI [of _ client] exI [of _ res] exI [of _ pl])
      (auto simp: spaSkew_def pdp_contains_def list_ex_iff activate_request_def)
qed

text \<open>
  (C38) The TTL is shorter than the validity of a packet from a clock that runs ahead: its hash is
  dropped from the cache ten seconds after the first use, while its timestamp stays acceptable until
  ten seconds after the time it names. Such a packet, replayed in between, reaches the PEP a second
  time.
\<close>
theorem pdp_replay_gap:
  assumes "crypto_ok (d_prims D)" "enrolled D cid cpk info"
    and "BuildIKpsk1SPA (d_prims D) rand cid (pid_PDPStaticPub (d_identity D)) payload t0 = Inr b"
    and "length payload \<le> 1096" "- (2 ^ 63) \<le> UnixMilli t0" "UnixMilli t0 < 2 ^ 63"
    and "d_unmarshal D payload = Some pl" "ap_ServiceID pl \<in> set (ci_AllowedServices info)"
    and "\<bar>t1 - time_UnixMilli (UnixMilli t0)\<bar> \<le> spaSkew" "\<bar>t2 - time_UnixMilli (UnixMilli t0)\<bar> \<le> spaSkew" "t1 + replayTTL < t2"
    and "pd_items s = []"
    and "handleUDPPacket D ip (br_Packet b) t1 fin1 s = (out1, s1)" "handleUDPPacket D ip (br_Packet b) t2 fin2 s1 = (out2, s2)"
  shows "\<exists>req. pd_world s2 = snd (d_pep D req (snd (d_pep D req (pd_world s))))"
proof -
  let ?res = "\<lparr>or_ClientStaticPub = base64_EncodeToString cpk, or_TimestampMS = br_TimestampMS b, or_Payload = payload,
                   or_PacketHash = br_PacketHash b, or_ResponseKey = br_ResponseKey b\<rparr>"
  note built = built_opens [OF assms(1-6)]
  have allowed: "d_unmarshal D (or_Payload ?res) = Some pl" "pdp_contains (ci_AllowedServices info) (ap_ServiceID pl)"
    using assms(7,8) by (simp_all add: pdp_contains_def list_ex_iff)
  note step = handle_calls [where res = ?res, OF _ _ allowed]
  have "\<not> fst (Seen (br_PacketHash b) t1 (pd_items s))" using assms(12) by (simp add: Seen_def)
  from step [OF assms(13) built [OF assms(9) this]] assms(12)
  have s1: "pd_world s1 = snd (d_pep D (activate_request ?res ip pl) (pd_world s))" "pd_items s1 = Add (br_PacketHash b) t1 []"
    by (simp_all add: Seen_def)
  then have "\<not> fst (Seen (br_PacketHash b) t2 (pd_items s1))" using assms(11) by (simp add: Seen_iff)
  from step [OF assms(14) built [OF assms(10) this]] s1 show ?thesis by auto
qed

text \<open>
  The check for replays and the entry in the cache are two critical sections: two goroutines that
  handle copies of one packet can both pass the first before either reaches the second, and the
  PEP is called twice.
\<close>
theorem pdp_replay_race:
  assumes "handle_open D packet now (pd_items s) = (Inr (client, res), items)"
    and "d_unmarshal D (or_Payload res) = Some pl" "ap_ServiceID pl \<in> set (ci_AllowedServices client)"
  shows "\<exists>s' req. (dstep D)\<^sup>*\<^sup>* (s, []) (s', []) \<and> pd_world s' = snd (d_pep D req (snd (d_pep D req (pd_world s))))"
proof -
  let ?h = "PacketHash (d_prims D) packet" and ?f = "(''ip'', packet, now, client, res)" and ?req = "activate_request res ''ip'' pl"
  from assms(1) have sn: "Seen ?h now (pd_items s) = (False, items)" by (rule handle_open_elim)
  have again: "handle_open D packet now items = (Inr (client, res), items)"
    using assms(1) sn Seen_sweeps [of ?h now "pd_items s"] by (simp add: handle_open_def Let_def case_prod_beta prod_eq_iff)
  let ?s1 = "s\<lparr>pd_items := items\<rparr>"
  have d1: "dstep D (s, []) (?s1, [?f])" by (rule dstep.opened [OF assms(1)])
  have d2: "dstep D (?s1, [?f]) (?s1\<lparr>pd_items := items\<rparr>, [?f, ?f])" by (rule dstep.opened) (simp add: again)
  have c: "pdp_contains (ci_AllowedServices client) (ap_ServiceID pl)" using assms(3) by (simp add: pdp_contains_def list_ex_iff)
  obtain e1 o1 s2 where a1: "handle_authorize D ''ip'' now (client, res) ?s1 = ((e1, o1), s2)" by (metis prod.collapse)
  let ?s2 = "record_end e1 now now (length packet) s2"
  obtain e2 o2 s3 where a2: "handle_authorize D ''ip'' now (client, res) ?s2 = ((e2, o2), s3)" by (metis prod.collapse)
  let ?s3 = "record_end e2 now now (length packet) s3"
  have d3: "dstep D (?s1, [?f, ?f]) (?s2, [?f])" using dstep.authorized [OF _ a1, of packet "[?f, ?f]" now] by simp
  have d4: "dstep D (?s2, [?f]) (?s3, [])" using dstep.authorized [OF _ a2, of packet "[?f]" now] by simp
  have "(dstep D)\<^sup>*\<^sup>* (s, []) (?s3, [])" using d1 d2 d3 d4 by (simp add: converse_rtranclp_into_rtranclp)
  moreover have "pd_world ?s3 = snd (d_pep D ?req (snd (d_pep D ?req (pd_world s))))"
    using authorize_calls(1) [OF assms(2) c a1] authorize_calls(1) [OF assms(2) c a2] by simp
  ultimately show ?thesis by blast
qed

text \<open>
  The metrics of a run with any interleaving are a bounded, gapless window: at most \<^verbatim>\<open>max\<close> events,
  numbered consecutively up to the last one recorded.
\<close>
theorem metrics_window:
  assumes "(dstep D)\<^sup>*\<^sup>* (s, fs) (s', fs')" "metrics_ok (pd_metrics s)"
  shows "metrics_ok (pd_metrics s')"
  using pdp_run.inv_reachable [OF assms(1)] assms(2) by simp

text \<open>
  A client whose base64 key has an empty path segment is locked out: with the PIP of this
  repository the PDP asks for a different key, and drops the packet as coming from an unknown
  client, even if the table has a row for the client.
\<close>
theorem slash_client_locked_out:
  assumes "d_pip D = pip_get S d" "length k = 32" "'''' \<in> set (split_at (CHR ''/'') (base64_EncodeToString k))"
    and "sq_select S (squeeze (base64_EncodeToString k)) d = Inr None"
    and "OpenIKpsk1SPAHeader (d_prims D) packet (d_identity D) now spaSkew = Inr header" "oh_ClientStaticPub header = base64_EncodeToString k"
    and "handleUDPPacket D ip packet now fin s = (out, s')"
  shows "out = None \<and> pd_world s' = pd_world s"
proof -
  let ?key = "base64_EncodeToString k"
  have "k \<noteq> []" using assms(2) by auto
  then have ne: "?key \<noteq> ''''" by (rule base64_Encode_nonempty)
  have "last ?key = CHR ''=''" using b64_last [of "map unat k"] assms(2) by (simp add: base64_EncodeToString_def)
  then have "pip_get S d (''/clients/'' @ ?key) = Response 404 None"
    using pip_get_key [OF b64_no_dot ne, of S d] squeeze_nonempty [OF ne] assms(4) clientsHandler_key [of "squeeze ?key" S d]
    by (simp add: getClient_def)
  then have "\<not> is_ok (fetchClient D ?key)" by (simp add: fetchClient_def assms(1) http_result_def)
  then have "\<not> is_ok (fst (handle_open D packet now (pd_items s)))"
    using assms(5,6) by (auto simp: handle_open_def Let_def case_prod_beta is_ok_def split: sum.split)
  then show ?thesis using assms(7) by (auto simp: handleUDPPacket_def is_ok_def split: prod.splits sum.splits)
qed

subsection \<open>Examples\<close>

text \<open>A PEP that counts its calls and answers nothing, and a PIP that knows one client.\<close>

definition ex_D :: "nat pdp_config" where
  "ex_D = \<lparr>d_prims = demo_prims, d_identity = ex_pdp,
     d_pip = (\<lambda>_. Response 200 (Some (ex_info\<lparr>ci_PSK := base64_EncodeToString (replicate 32 5)\<rparr>))),
     d_pep = (\<lambda>_ n. (NoResponse ''down'', Suc n)), d_pepWANAddress = ''192.0.2.1'', d_pepNATTPort = 4500,
     d_unmarshal = (\<lambda>_. Some \<lparr>ap_ServiceID = ''svc-http'', ap_ClientInSPI = ''0x1'', ap_ClientDHPub = ''k'', ap_AEADSuites = []\<rparr>),
     d_marshal = (\<lambda>_. None), d_write = (\<lambda>_. None)\<rparr>"

definition ex_state :: "nat pdp_state" where
  "ex_state = \<lparr>pd_items = [], pd_metrics = globalSPAMetrics, pd_world = 0\<rparr>"

lemma ex_D_ok: "crypto_ok (d_prims ex_D)" "enrolled ex_D ex_client (replicate 32 1) (ex_info\<lparr>ci_PSK := base64_EncodeToString (replicate 32 5)\<rparr>)"
proof -
  show "crypto_ok (d_prims ex_D)" by (simp add: crypto_ok_def ex_D_def)
  have "curve25519_X25519 demo_prims x y = Some (replicate 32 1)" for x y by (simp add: demo_prims_def)
  then show "enrolled ex_D ex_client (replicate 32 1) (ex_info\<lparr>ci_PSK := base64_EncodeToString (replicate 32 5)\<rparr>)"
    by (simp add: enrolled_def static_pair_def ex_D_def ex_client_def ex_pdp_def fetchClient_def http_result_def ex_info_def)
qed

definition ex_spa :: BuildResult where
  "ex_spa = projr (BuildIKpsk1SPA demo_prims (Some (replicate 32 7)) ex_client (pid_PDPStaticPub ex_pdp) [1, 2] 1000000000)"

lemma ex_spa: "BuildIKpsk1SPA (d_prims ex_D) (Some (replicate 32 7)) ex_client (pid_PDPStaticPub (d_identity ex_D)) [1, 2] 1000000000 = Inr ex_spa"
  using ex_build by (auto simp: ex_spa_def ex_D_def)

lemma ex_opens:
  assumes "\<bar>now - 1000000000\<bar> \<le> 10000000000"
  shows "\<exists>x. handle_open ex_D (br_Packet ex_spa) now [] = (Inr x, [])"
  using built_opens [OF ex_D_ok ex_spa, of now "[]"] assms
  by (simp add: UnixMilli_def time_UnixMilli_def spaSkew_def Second_def Seen_def)


theorem pdp_acts_on_authority_witness:
  "\<exists>header. OpenIKpsk1SPAHeader demo_prims (br_Packet ex_spa) ex_pdp 1000000000 spaSkew = Inr header
     \<and> \<bar>1000000000 - time_UnixMilli (oh_TimestampMS header)\<bar> \<le> 10 * Second"
proof -
  let ?p = "br_Packet ex_spa"
  from ex_opens [of 1000000000] obtain c r where h: "handle_open ex_D ?p 1000000000 (pd_items ex_state) = (Inr (c, r), [])"
    by (auto simp: ex_state_def)
  obtain out s1 where s1: "handleUDPPacket ex_D ''ip'' ?p 1000000000 1000000000 ex_state = (out, s1)" by (metis prod.collapse)
  have "ci_AllowedServices c = [''svc-http'', ''svc-db'']"
    using h by (elim handle_open_elim) (auto simp: fetchClient_def http_result_def ex_D_def ex_info_def)
  then have "pd_world s1 \<noteq> pd_world ex_state"
    using handle_calls [OF s1 h] by (simp add: ex_D_def pdp_contains_def)
  from pdp_acts_on_authority [OF s1] this show ?thesis by (auto simp: ex_D_def)
qed

theorem pdp_replay_gap_witness:
  "\<exists>s1 s2 o1 o2. handleUDPPacket ex_D ''ip'' (br_Packet ex_spa) (- 9000000000) 0 ex_state = (o1, s1)
     \<and> handleUDPPacket ex_D ''ip'' (br_Packet ex_spa) 1000000001 0 s1 = (o2, s2) \<and> pd_world s2 = 2"
proof -
  obtain o1 s1 where s1: "handleUDPPacket ex_D ''ip'' (br_Packet ex_spa) (- 9000000000) 0 ex_state = (o1, s1)" by (metis prod.collapse)
  obtain o2 s2 where s2: "handleUDPPacket ex_D ''ip'' (br_Packet ex_spa) 1000000001 0 s1 = (o2, s2)" by (metis prod.collapse)
  have "\<exists>req. pd_world s2 = snd (d_pep ex_D req (snd (d_pep ex_D req (pd_world ex_state))))"
    by (rule pdp_replay_gap [OF ex_D_ok ex_spa _ _ _ _ _ _ _ _ _ s1 s2])
      (auto simp: ex_D_def ex_state_def ex_info_def UnixMilli_def time_UnixMilli_def spaSkew_def replayTTL_def Second_def)
  with s1 s2 show ?thesis by (auto simp: ex_D_def ex_state_def)
qed

theorem pdp_replay_race_witness: "\<exists>s'. (dstep ex_D)\<^sup>*\<^sup>* (ex_state, []) (s', []) \<and> pd_world s' = 2"
proof -
  from ex_opens [of 1000000000] obtain c r where h: "handle_open ex_D (br_Packet ex_spa) 1000000000 (pd_items ex_state) = (Inr (c, r), [])"
    by (auto simp: ex_state_def)
  have "ci_AllowedServices c = [''svc-http'', ''svc-db'']"
    using h by (elim handle_open_elim) (auto simp: fetchClient_def http_result_def ex_D_def ex_info_def)
  with pdp_replay_race [OF h] show ?thesis by (auto simp: ex_D_def ex_state_def)
qed

theorem metrics_window_witness: "\<exists>s'. (dstep ex_D)\<^sup>*\<^sup>* (ex_state, []) (s', []) \<and> metrics_ok (pd_metrics s')"
proof -
  have "(dstep ex_D)\<^sup>*\<^sup>* (ex_state, []) (ex_state\<lparr>pd_metrics := resetSPAMetrics (pd_metrics ex_state)\<rparr>, [])"
    by (rule r_into_rtranclp) (rule dstep.reset)
  moreover have "metrics_ok (pd_metrics ex_state)" by (simp add: ex_state_def globalSPAMetrics_def metrics_ok_def)
  ultimately show ?thesis using metrics_window by blast
qed

text \<open>A header in the demonstration cryptography that names any key.\<close>

definition ex_packet :: "bytes \<Rightarrow> bytes" where
  "ex_packet k = replicate 32 1 @ (be64_put 1000 @ k @ replicate 16 9) @ replicate 16 9"

lemma ex_header:
  assumes "length k = 32"
  shows "\<exists>hdr. OpenIKpsk1SPAHeader demo_prims (ex_packet k) ex_pdp 1000000000 spaSkew = Inr hdr \<and> oh_ClientStaticPub hdr = base64_EncodeToString k"
  using assms
  by (simp add: ex_packet_def OpenIKpsk1SPAHeader_def spa_lens ex_pdp_def Let_def decryptAndHash_def decryptWithKey_def mixKey_def hkdf2_def
      aes_key_ok_def hmac_length)
    (simp add: demo_prims_def time_Sub_def max_duration_def min_duration_def spaSkew_def Second_def Let_def time_UnixMilli_def)

lemma ex_slash_key: "'''' \<in> set (split_at (CHR ''/'') (base64_EncodeToString (replicate 32 255)))"
proof -
  have "replicate 32 (255 :: byte) = [255, 255, 255] @ replicate 29 255"
    using replicate_add [of 3 29 "255 :: byte"] by (simp add: numeral_3_eq_3)
  then show ?thesis by (simp add: base64_EncodeToString_def b64_char_def)
qed

theorem slash_client_locked_out_witness:
  "\<exists>s'. handleUDPPacket (ex_D\<lparr>d_pip := pip_get alist_sqlite []\<rparr>) ''ip'' (ex_packet (replicate 32 255)) 1000000000 0 ex_state = (None, s')
     \<and> pd_world s' = 0"
proof -
  let ?D = "ex_D\<lparr>d_pip := pip_get alist_sqlite []\<rparr>" and ?k = "replicate 32 255 :: bytes"
  obtain hdr where h: "OpenIKpsk1SPAHeader demo_prims (ex_packet ?k) ex_pdp 1000000000 spaSkew = Inr hdr"
    "oh_ClientStaticPub hdr = base64_EncodeToString ?k" using ex_header [of ?k] by auto
  obtain out s' where s': "handleUDPPacket ?D ''ip'' (ex_packet ?k) 1000000000 0 ex_state = (out, s')" by (metis prod.collapse)
  have "out = None \<and> pd_world s' = pd_world ex_state"
    by (rule slash_client_locked_out [where S = alist_sqlite and d = "[]" and k = ?k, OF _ _ ex_slash_key _ _ h(2) s'])
      (use h(1) in \<open>simp_all add: ex_D_def alist_sqlite_def\<close>)
  with s' show ?thesis by (simp add: ex_state_def)
qed

end
