(* ===== verification/Client.thy ===== *)
theory Client
  imports Pep_Xfrm Noise
begin

text \<open>
  The client, \<^verbatim>\<open>client/main.go\<close>, \<^verbatim>\<open>client/attestation.go\<close>, \<^verbatim>\<open>client/xfrm.go\<close> and the handshake of
  \<^verbatim>\<open>client/bench.go\<close>: a request is built and sent, the response is decrypted, the attestation in it is
  checked, and the tunnel is installed. The network, the random source, the clock and the shell are
  parameters (\<open>client_world\<close>); \<open>cw_marshal\<close> and \<open>cw_unmarshal\<close> stand for \<^verbatim>\<open>encoding/json\<close>.
\<close>

record ClientConfig =
  cc_PDPUDPAddr :: string
  cc_PDPStaticPub :: string
  cc_ServiceID :: string
  cc_AEADSuites :: "string list"
  cc_VerifierPubKey :: string
  cc_ExpectedPolicyHash :: string
  cc_AttestationRequired :: bool

subsection \<open>The attestation check\<close>

datatype client_error =
    AttestationMissing | AttestationIncomplete | NoVerifierKey | PolicyHashMismatch | NoCheckpoint
  | ServiceMismatch | SPIMismatch | NoClientDH | BindingRefused attest_error

text \<open>The environment variable overrides the configuration when it has one of eight values.\<close>

definition attestation_required :: "env \<Rightarrow> ClientConfig \<Rightarrow> bool" where
  "attestation_required env cfg =
     (case env ''CLIENT_ATTESTATION_REQUIRED'' of None \<Rightarrow> cc_AttestationRequired cfg
      | Some value \<Rightarrow>
        let v = strings_ToLower (strings_TrimSpace value) in
        if v \<in> {''1'', ''true'', ''yes'', ''on''} then True
        else if v \<in> {''0'', ''false'', ''no'', ''off''} then False
        else cc_AttestationRequired cfg)"

definition verifyTunnelAttestation ::
  "prims \<Rightarrow> env \<Rightarrow> time \<Rightarrow> ClientConfig \<Rightarrow> ClientIdentity \<Rightarrow> AccessPayload \<Rightarrow> TunnelParams \<Rightarrow> client_error + unit" where
  "verifyTunnelAttestation P env now cfg cid payload tunnel =
     (let required = attestation_required env cfg;
          hasAttestation = (tp_CapacityToken tunnel \<noteq> None \<or> tp_SABinding tunnel \<noteq> None) in
      if \<not> required \<and> \<not> hasAttestation then Inr ()
      else if required \<and> \<not> hasAttestation then Inl AttestationMissing
      else if \<not> hasAttestation then Inr ()
      else case (tp_CapacityToken tunnel, tp_SABinding tunnel) of
        (Some tok, Some _) \<Rightarrow>
          if cc_VerifierPubKey cfg = '''' then Inl NoVerifierKey
          else if cc_ExpectedPolicyHash cfg \<noteq> '''' \<and> ct_PolicyHash tok \<noteq> cc_ExpectedPolicyHash cfg then Inl PolicyHashMismatch
          else if ct_CheckpointHash tok = '''' \<or> ct_HistoryEpoch tok = 0 then Inl NoCheckpoint
          else if ap_ServiceID payload \<noteq> tp_ServiceID tunnel then Inl ServiceMismatch
          else if ap_ClientInSPI payload \<noteq> tp_ClientInSPI tunnel then Inl SPIMismatch
          else if ap_ClientDHPub payload = '''' then Inl NoClientDH
          else (case VerifyTunnelBinding P tunnel (cid_ClientStaticPub cid) (ap_ClientDHPub payload) (cc_VerifierPubKey cfg) now of
                  Inl err \<Rightarrow> Inl (BindingRefused err) | Inr u \<Rightarrow> Inr ())
      | _ \<Rightarrow> Inl AttestationIncomplete)"

subsection \<open>The tunnel\<close>

definition buildClientXFRMPlan ::
  "prims \<Rightarrow> (string \<Rightarrow> int \<Rightarrow> string + string) \<Rightarrow> TunnelParams \<Rightarrow> string \<Rightarrow> string \<Rightarrow> u32 \<Rightarrow> string + XFRMPlan" where
  "buildClientXFRMPlan P localIPForRemote t c2pKey p2cKey reqID =
     (if tp_ServiceIP t = '''' then Inl ''missing service_ip in tunnel params''
      else if tp_ClientInnerIP t = '''' then Inl ''missing client_inner_ip in tunnel params''
      else if tp_PEPAddress t = '''' then Inl ''missing pep_address in tunnel params''
      else let t = (if tp_PEPPort t = 0 then t\<lparr>tp_PEPPort := 4500\<rparr> else t) in
      rbind (localIPForRemote (tp_PEPAddress t) (tp_PEPPort t)) (\<lambda>clientOuterIP.
      of_opt ''xfrm plan'' (BuildClientXFRMTunnelPlan P
        \<lparr>ti_ClientOuterIP = clientOuterIP, ti_ClientInnerIP = tp_ClientInnerIP t, ti_PEPOuterIP = tp_PEPAddress t,
         ti_ServiceIP = tp_ServiceIP t, ti_NATTPort = tp_PEPPort t, ti_ClientInSPI = tp_ClientInSPI t, ti_PEPInSPI = tp_PEPInSPI t,
         ti_ReqID = reqID, ti_C2PKeyB64 = c2pKey, ti_P2CKeyB64 = p2cKey\<rparr>)))"

definition maybeApplyClientXFRM :: "env \<Rightarrow> 'k kernel \<Rightarrow> XFRMPlan \<Rightarrow> 'k \<Rightarrow> string option \<times> 'k" where
  "maybeApplyClientXFRM env K x k =
     (if getenv env ''XFRM_MODE'' ''dry-run'' \<noteq> ''apply'' then (None, k)
      else run_all K (xp_Commands x) (run_each K (xp_DeleteCommands x) k))"

text \<open>The script that a background shell gets, if one is started.\<close>

definition cleanup_script :: "XFRMPlan \<Rightarrow> int \<Rightarrow> string" where
  "cleanup_script x delaySeconds =
     strings_Join ''; '' ((''sleep '' @ itoa delaySeconds) # map (\<lambda>cmd. cmd @ '' >/dev/null 2>&1 || true'') (xp_DeleteCommands x))"

definition scheduleClientXFRMCleanup :: "env \<Rightarrow> (string \<Rightarrow> string option) \<Rightarrow> XFRMPlan \<Rightarrow> int \<Rightarrow> string option" where
  "scheduleClientXFRMCleanup env start x delaySeconds =
     (if getenv env ''XFRM_MODE'' ''dry-run'' \<noteq> ''apply'' then None
      else if delaySeconds \<le> 0 then None
      else start (cleanup_script x delaySeconds))"

subsection \<open>The handshake\<close>

record 'k client_world =
  cw_prims :: prims
  cw_env :: env
  cw_kernel :: "'k kernel"
  cw_rand :: "nat \<Rightarrow> bytes option" \<comment> \<open>the draws: key pair, SPI, SPA key, request id\<close>
  cw_clock :: "nat \<Rightarrow> time" \<comment> \<open>the readings: SPA timestamp, attestation check\<close>
  cw_marshal :: "AccessPayload \<Rightarrow> bytes option"
  cw_unmarshal :: "bytes \<Rightarrow> AccessResponse option"
  cw_exchange :: "string \<Rightarrow> bytes \<Rightarrow> string + bytes" \<comment> \<open>one datagram out, one back within three seconds\<close>
  cw_localIP :: "string \<Rightarrow> int \<Rightarrow> string + string"
  cw_start :: "string \<Rightarrow> string option"

record client_request =
  rq_eph :: KeyPair
  rq_payload :: AccessPayload
  rq_spa :: BuildResult

definition client_prepare :: "'k client_world \<Rightarrow> ClientConfig \<Rightarrow> ClientIdentity \<Rightarrow> string + client_request" where
  "client_prepare W cfg cid =
     rbind (of_opt ''dh'' (GenerateX25519KeyPair (cw_prims W) (cw_rand W 0))) (\<lambda>eph.
     rbind (of_opt ''spi'' (GenerateSPI (cw_rand W 1))) (\<lambda>clientInSPI.
     let payload = \<lparr>ap_ServiceID = cc_ServiceID cfg, ap_ClientInSPI = clientInSPI, ap_ClientDHPub = kp_PublicB64 eph,
                    ap_AEADSuites = cc_AEADSuites cfg\<rparr> in
     rbind (of_opt ''json'' (cw_marshal W payload)) (\<lambda>payloadBytes.
     case BuildIKpsk1SPA (cw_prims W) (cw_rand W 2) cid (cc_PDPStaticPub cfg) payloadBytes (cw_clock W 0) of
       Inl err \<Rightarrow> Inl ''spa''
     | Inr spa \<Rightarrow> Inr \<lparr>rq_eph = eph, rq_payload = payload, rq_spa = spa\<rparr>)))"

definition client_exchange :: "'k client_world \<Rightarrow> ClientConfig \<Rightarrow> client_request \<Rightarrow> string + AccessResponse" where
  "client_exchange W cfg rq =
     (case cw_exchange W (cc_PDPUDPAddr cfg) (br_Packet (rq_spa rq)) of
        Inl err \<Rightarrow> Inl (''no valid response from PDP: '' @ err)
      | Inr reply \<Rightarrow>
        (case DecryptResponse (cw_prims W) (Some (br_ResponseKey (rq_spa rq))) reply of
           None \<Rightarrow> Inl ''invalid encrypted PDP response''
         | Some plainResp \<Rightarrow> of_opt ''json'' (cw_unmarshal W plainResp)))"

definition client_plan :: "'k client_world \<Rightarrow> client_request \<Rightarrow> TunnelParams \<Rightarrow> string + XFRMPlan" where
  "client_plan W rq t =
     rbind (of_opt ''dh'' (DeriveSharedSecretB64 (cw_prims W) (kp_PrivateB64 (rq_eph rq)) (tp_PEPDHPub t))) (\<lambda>shared.
     rbind (of_opt ''kdf'' (DeriveSessionKeys (cw_prims W) shared)) (\<lambda>(c2p, p2c).
     rbind (of_opt ''reqid'' (GenerateReqID (cw_rand W 3))) (\<lambda>clientReqID.
     buildClientXFRMPlan (cw_prims W) (cw_localIP W) t c2p p2c clientReqID)))"

definition client_install :: "'k client_world \<Rightarrow> XFRMPlan \<Rightarrow> TunnelParams \<Rightarrow> 'k \<Rightarrow> string option \<times> 'k" where
  "client_install W plan t k =
     (case maybeApplyClientXFRM (cw_env W) (cw_kernel W) plan k of
        (Some err, k) \<Rightarrow> (Some (''client xfrm apply failed: '' @ err), k)
      | (None, k) \<Rightarrow>
        (case scheduleClientXFRMCleanup (cw_env W) (cw_start W) plan (tp_SALifetime t) of
           Some err \<Rightarrow> (Some (''client xfrm cleanup scheduling failed: '' @ err), k)
         | None \<Rightarrow> (None, k)))"

record benchmarkHandshakeResult =
  hr_Response :: AccessResponse
  hr_PacketHash :: string

definition zero_response :: AccessResponse where
  "zero_response = \<lparr>rs_Authorized = False, rs_Reason = '''', rs_Tunnel = None\<rparr>"

text \<open>\<^verbatim>\<open>benchmarkHandshakeOnce\<close>: a result and an error at the same time, as in the code; its duration is left out.\<close>

definition benchmarkHandshakeOnce ::
  "'k client_world \<Rightarrow> ClientConfig \<Rightarrow> ClientIdentity \<Rightarrow> 'k \<Rightarrow> (benchmarkHandshakeResult \<times> string option) \<times> 'k" where
  "benchmarkHandshakeOnce W cfg cid k =
     (let result = \<lparr>hr_Response = zero_response, hr_PacketHash = ''''\<rparr> in
      case client_prepare W cfg cid of Inl err \<Rightarrow> ((result, Some err), k)
      | Inr rq \<Rightarrow>
        let result = result\<lparr>hr_PacketHash := br_PacketHash (rq_spa rq)\<rparr> in
        (case client_exchange W cfg rq of Inl err \<Rightarrow> ((result, Some err), k)
         | Inr out \<Rightarrow>
           let result = result\<lparr>hr_Response := out\<rparr> in
           (case rs_Tunnel out of
              Some t \<Rightarrow>
                if \<not> rs_Authorized out then ((result, None), k)
                else (case verifyTunnelAttestation (cw_prims W) (cw_env W) (cw_clock W 1) cfg cid (rq_payload rq) t of
                  Inl err \<Rightarrow> ((result, Some ''attested PEP verification failed''), k)
                | Inr _ \<Rightarrow>
                  (case client_plan W rq t of Inl err \<Rightarrow> ((result, Some err), k)
                   | Inr plan \<Rightarrow> (case client_install W plan t k of (err, k) \<Rightarrow> ((result, err), k))))
            | None \<Rightarrow> ((result, None), k))))"

text \<open>\<^verbatim>\<open>main\<close> without a subcommand: \<^verbatim>\<open>log.Fatal\<close>, the exit with status 1, or the end of the function.\<close>

datatype exit = Fatal string | Exit1 | Finished

definition client_main :: "'k client_world \<Rightarrow> ClientConfig \<Rightarrow> ClientIdentity \<Rightarrow> 'k \<Rightarrow> exit \<times> 'k" where
  "client_main W cfg cid k =
     (case client_prepare W cfg cid of Inl err \<Rightarrow> (Fatal err, k)
      | Inr rq \<Rightarrow>
        (case client_exchange W cfg rq of Inl err \<Rightarrow> (Fatal err, k)
         | Inr out \<Rightarrow>
           if rs_Authorized out \<and> rs_Tunnel out \<noteq> None
              \<and> \<not> is_ok (verifyTunnelAttestation (cw_prims W) (cw_env W) (cw_clock W 1) cfg cid (rq_payload rq) (the (rs_Tunnel out)))
           then (Fatal ''attested PEP verification failed'', k)
           else if \<not> rs_Authorized out \<or> rs_Tunnel out = None then (Exit1, k)
           else let t = the (rs_Tunnel out) in
             (case client_plan W rq t of Inl err \<Rightarrow> (Fatal err, k)
              | Inr plan \<Rightarrow>
                (case client_install W plan t k of (Some err, k) \<Rightarrow> (Fatal err, k) | (None, k) \<Rightarrow> (Finished, k)))))"

definition genIdentity :: "prims \<Rightarrow> bytes option \<Rightarrow> bytes option \<Rightarrow> ClientIdentity option" where
  "genIdentity P rand1 rand2 =
     (case GenerateStaticKeypair P rand1 of None \<Rightarrow> None
      | Some (priv, pub) \<Rightarrow>
        (case GeneratePSK rand2 of None \<Rightarrow> None
         | Some psk \<Rightarrow> Some \<lparr>cid_ClientStaticPub = pub, cid_ClientStaticPriv = priv, cid_SPAPSK = psk\<rparr>))"

subsection \<open>Lemmas\<close>

text \<open>The conditions under which a tunnel with attestation is accepted.\<close>

definition attested_tunnel :: "prims \<Rightarrow> time \<Rightarrow> ClientConfig \<Rightarrow> ClientIdentity \<Rightarrow> AccessPayload \<Rightarrow> TunnelParams \<Rightarrow> bool" where
  "attested_tunnel P now cfg cid payload t \<longleftrightarrow>
     (\<exists>tok. tp_CapacityToken t = Some tok \<and> cc_VerifierPubKey cfg \<noteq> ''''
        \<and> (cc_ExpectedPolicyHash cfg = '''' \<or> ct_PolicyHash tok = cc_ExpectedPolicyHash cfg)
        \<and> ct_CheckpointHash tok \<noteq> '''' \<and> ct_HistoryEpoch tok \<noteq> 0)
     \<and> ap_ServiceID payload = tp_ServiceID t \<and> ap_ClientInSPI payload = tp_ClientInSPI t \<and> ap_ClientDHPub payload \<noteq> ''''
     \<and> tunnel_ok P t (cid_ClientStaticPub cid) (ap_ClientDHPub payload) (cc_VerifierPubKey cfg) now"

lemma verify_iff:
  "verifyTunnelAttestation P env now cfg cid payload t = Inr () \<longleftrightarrow>
     \<not> attestation_required env cfg \<and> tp_CapacityToken t = None \<and> tp_SABinding t = None \<or> attested_tunnel P now cfg cid payload t"
proof (cases "tp_CapacityToken t = None \<or> tp_SABinding t = None")
  case True
  then have "\<not> tunnel_ok P t (cid_ClientStaticPub cid) (ap_ClientDHPub payload) (cc_VerifierPubKey cfg) now"
    unfolding tunnel_ok_def by (cases "tp_CapacityToken t") auto
  with True show ?thesis
    by (cases "tp_CapacityToken t"; cases "tp_SABinding t") (simp_all add: verifyTunnelAttestation_def attested_tunnel_def Let_def)
next
  case False
  then obtain tok b where tb: "tp_CapacityToken t = Some tok" "tp_SABinding t = Some b" by auto
  have v: "VerifyTunnelBinding P t (cid_ClientStaticPub cid) (ap_ClientDHPub payload) (cc_VerifierPubKey cfg) now = Inr ()
      \<longleftrightarrow> tunnel_ok P t (cid_ClientStaticPub cid) (ap_ClientDHPub payload) (cc_VerifierPubKey cfg) now"
    by (rule VerifyTunnelBinding_iff)
  show ?thesis
    using tb v
    by (cases "VerifyTunnelBinding P t (cid_ClientStaticPub cid) (ap_ClientDHPub payload) (cc_VerifierPubKey cfg) now")
      (auto simp: verifyTunnelAttestation_def attested_tunnel_def Let_def)
qed

lemma case_sum_Inr_iff: "(case r of Inl e \<Rightarrow> Inl c | Inr y \<Rightarrow> Inr (f y)) = Inr z \<longleftrightarrow> (\<exists>y. r = Inr y \<and> z = f y)"
  by (cases r) auto

lemma client_prepare_elim:
  assumes "client_prepare W cfg cid = Inr rq"
  obtains pb where "GenerateX25519KeyPair (cw_prims W) (cw_rand W 0) = Some (rq_eph rq)" "cw_marshal W (rq_payload rq) = Some pb"
    "BuildIKpsk1SPA (cw_prims W) (cw_rand W 2) cid (cc_PDPStaticPub cfg) pb (cw_clock W 0) = Inr (rq_spa rq)"
    "ap_ServiceID (rq_payload rq) = cc_ServiceID cfg" "ap_ClientDHPub (rq_payload rq) = kp_PublicB64 (rq_eph rq)"
  using assms by (auto simp: client_prepare_def result_iffs Let_def case_sum_Inr_iff)

lemma handshake_kernel:
  assumes "benchmarkHandshakeOnce W cfg cid k = ((result, err), k')" "k' \<noteq> k \<or> err = None \<and> rs_Authorized (hr_Response result) \<and> rs_Tunnel (hr_Response result) \<noteq> None"
  obtains rq t plan where "client_prepare W cfg cid = Inr rq" "client_exchange W cfg rq = Inr (hr_Response result)"
    "rs_Authorized (hr_Response result)" "rs_Tunnel (hr_Response result) = Some t"
    "verifyTunnelAttestation (cw_prims W) (cw_env W) (cw_clock W 1) cfg cid (rq_payload rq) t = Inr ()"
    "client_plan W rq t = Inr plan" "client_install W plan t k = (err, k')"
  using assms
  by (cases "client_prepare W cfg cid"; cases "client_exchange W cfg (projr (client_prepare W cfg cid))";
      cases "rs_Tunnel (projr (client_exchange W cfg (projr (client_prepare W cfg cid))))")
    (auto simp: benchmarkHandshakeOnce_def Let_def zero_response_def split: sum.splits if_splits prod.splits)

lemma dry_run_kernel:
  "getenv (cw_env W) ''XFRM_MODE'' ''dry-run'' \<noteq> ''apply'' \<Longrightarrow> client_install W plan t k = (None, k)"
  by (simp add: client_install_def maybeApplyClientXFRM_def scheduleClientXFRMCleanup_def)

subsection \<open>Properties\<close>

text \<open>
  The client's check is exact: a tunnel is accepted when it carries no attestation and none is
  required, or when it carries both parts, a verifier key is configured, the policy hash is the
  expected one if one is configured, the token is bound to a checkpoint, the tunnel answers the
  client's own request, and the binding verifies. Nothing else is accepted.
\<close>
theorem client_attestation_exact:
  "verifyTunnelAttestation P env now cfg cid payload t = Inr () \<longleftrightarrow>
     \<not> attestation_required env cfg \<and> tp_CapacityToken t = None \<and> tp_SABinding t = None \<or> attested_tunnel P now cfg cid payload t"
  by (rule verify_iff)

text \<open>
  (C7) No downgrade: when attestation is required, the client touches its kernel, or reports success,
  only for a tunnel whose token and binding verified for this very request.
\<close>
theorem client_no_downgrade:
  assumes "benchmarkHandshakeOnce W cfg cid k = ((result, err), k')" "attestation_required (cw_env W) cfg"
    and "k' \<noteq> k \<or> err = None \<and> rs_Authorized (hr_Response result) \<and> rs_Tunnel (hr_Response result) \<noteq> None"
  shows "\<exists>rq t. client_prepare W cfg cid = Inr rq \<and> client_exchange W cfg rq = Inr (hr_Response result)
    \<and> rs_Tunnel (hr_Response result) = Some t \<and> attested_tunnel (cw_prims W) (cw_clock W 1) cfg cid (rq_payload rq) t"
proof -
  from assms(1,3) obtain rq t plan where "client_prepare W cfg cid = Inr rq" "client_exchange W cfg rq = Inr (hr_Response result)"
    "rs_Authorized (hr_Response result)" "rs_Tunnel (hr_Response result) = Some t"
    "verifyTunnelAttestation (cw_prims W) (cw_env W) (cw_clock W 1) cfg cid (rq_payload rq) t = Inr ()"
    "client_plan W rq t = Inr plan" "client_install W plan t k = (err, k')" by (rule handshake_kernel)
  with assms(2) show ?thesis by (auto simp: verify_iff)
qed

text \<open>
  The two copies of the handshake agree: \<^verbatim>\<open>main\<close> and the benchmark have the same effect on the
  kernel, \<^verbatim>\<open>main\<close> stops with the error that the benchmark returns, exits with status 1 exactly when
  the benchmark returns a refusal, and finishes otherwise.
\<close>
theorem client_main_benchmark:
  "client_main W cfg cid k =
     (case benchmarkHandshakeOnce W cfg cid k of ((result, err), k') \<Rightarrow>
        (case err of Some e \<Rightarrow> Fatal e
         | None \<Rightarrow> if rs_Authorized (hr_Response result) \<and> rs_Tunnel (hr_Response result) \<noteq> None then Finished else Exit1, k'))"
proof (cases "client_prepare W cfg cid")
  case (Inr rq)
  show ?thesis
  proof (cases "client_exchange W cfg rq")
    case out: (Inr out)
    show ?thesis
    proof (cases "rs_Tunnel out")
      case None
      with Inr out show ?thesis by (simp add: client_main_def benchmarkHandshakeOnce_def Let_def)
    next
      case (Some t)
      show ?thesis
      proof (cases "client_plan W rq t")
        case (Inl e)
        with Inr out Some show ?thesis by (simp add: client_main_def benchmarkHandshakeOnce_def Let_def split: sum.split)
      next
        case p: (Inr plan)
        with Inr out Some show ?thesis
          by (cases "client_install W plan t k") (simp add: client_main_def benchmarkHandshakeOnce_def Let_def split: sum.split option.split)
      qed
    qed
  qed (simp add: client_main_def benchmarkHandshakeOnce_def Inr)
qed (simp add: client_main_def benchmarkHandshakeOnce_def)



end
