(* ===== verification/Handshake.thy ===== *)
theory Handshake
  imports Pep_Main Pdp Client
begin

text \<open>
  The components together: the client's handshake against a PDP whose PEP is the one of this
  development. HTTP carries the activation request and its reply as structs.
\<close>

text \<open>A POST to \<^verbatim>\<open>/activate\<close>, as \<^verbatim>\<open>activatePEP\<close> sees it.\<close>

definition pep_http :: "'k world \<Rightarrow> ActivateRequest \<Rightarrow> 'k pep \<Rightarrow> PEPActivationResponse http_reply \<times> 'k pep" where
  "pep_http W req p =
     (case activateHandler W \<lparr>aq_Method = ''POST'', aq_Body = Some req\<rparr> p of
        (Activated resp, p') \<Rightarrow> (Response 200 (Some resp), p')
      | (ActError code _, p') \<Rightarrow> (Response code None, p'))"

lemma pep_http_ok:
  assumes "pep_http W req p = (r, p')" "http_result r = Inr resp"
  shows "activateHandler W \<lparr>aq_Method = ''POST'', aq_Body = Some req\<rparr> p = (Activated resp, p')"
  using assms by (auto simp: pep_http_def http_result_def split: prod.splits act_reply.splits if_splits)

subsection \<open>What an activation consists of\<close>

lemma keys_elim:
  assumes "activate_keys W n req = Inr (pub, c2p, p2c)"
  obtains pair shared where "GenerateX25519KeyPair (w_prims W) (w_rand W n) = Some pair" "pub = kp_PublicB64 pair"
    "DeriveSharedSecretB64 (w_prims W) (kp_PrivateB64 pair) (ar_ClientDHPub req) = Some shared"
    "DeriveSessionKeys (w_prims W) shared = Some (c2p, p2c)"
  using assms by (auto simp: activate_keys_def split: option.splits prod.splits)

lemma resources_elim:
  assumes "activate_resources W r p = (Inr x, p')"
  obtains n where "aq_Body r = Some (rs_req x)" "activate_keys W n (rs_req x) = Inr (rs_keys x)"
    "\<exists>c off. clientInnerIPFromOffset c off = Some (rs_innerIP x)" "p_attestation p' = p_attestation p" "p_healthy p'"
    "ar_ClientDHPub (rs_req x) \<noteq> ''''"
proof -
  obtain req where g: "activate_guards r p = Inr req"
    using assms by (cases "activate_guards r p") (auto simp: activate_resources_def)
  then have b: "aq_Body r = Some req" "p_healthy p" "ar_ClientDHPub req \<noteq> ''''"
    by (auto simp: activate_guards_def split: if_splits option.splits)
  obtain ks where k: "activate_keys W (p_tick p) req = Inr ks"
    using assms g by (cases "activate_keys W (p_tick p) req") (auto simp: activate_resources_def)
  obtain spi where s: "GenerateSPI (w_rand W (Suc (p_tick p))) = Some spi"
    using assms g k by (cases "GenerateSPI (w_rand W (Suc (p_tick p)))") (auto simp: activate_resources_def Let_def)
  from assms g k s have "rs_req x = req" "rs_keys x = ks" "p_attestation p' = p_attestation p" "p_healthy p' = p_healthy p"
    "clientInnerIPFromOffset (getenv (w_env W) ''CLIENT_TUNNEL_CIDR'' ''10.200.0.0/16'') (p_nextClientInnerID p + 1) = Some (rs_innerIP x)"
    by (auto simp: activate_resources_def allocateReqID_def allocateClientInnerIP_def Let_def split: option.splits if_splits)
  with b k that [of "p_tick p"] show thesis by blast
qed

text \<open>The session and the response of a prepared activation.\<close>

definition made_session :: "'k world \<Rightarrow> act_resources \<Rightarrow> time \<Rightarrow> int \<Rightarrow> Session" where
  "made_session W x t lifetime = new_session (w_env W) (rs_req x) (rs_keys x) (rs_spi x) (rs_reqID x) (rs_innerIP x) (rs_outerIP x)
     (Format_RFC3339 (t + dur_seconds lifetime))"

lemma session_elim:
  assumes "activate_session W x p = (Inr (s, resp), p')"
  obtains lifetime ct q plan where "activate_lifetime W p = (Inr (lifetime, ct), q)" "p' = tick q"
    "attach_binding W p' (rs_req x) ct (new_response (made_session W x (w_clock W (p_tick q)) lifetime) lifetime) = Inr resp"
    "s = (made_session W x (w_clock W (p_tick q)) lifetime)\<lparr>ss_XFRM := plan\<rparr>"
    "buildXFRMPlan (w_prims W) (made_session W x (w_clock W (p_tick q)) lifetime) = Some plan"
proof -
  obtain lifetime ct q where l: "activate_lifetime W p = (Inr (lifetime, ct), q)"
    using assms by (cases "activate_lifetime W p"; cases "fst (activate_lifetime W p)") (auto simp: activate_session_def)
  from assms l that [of lifetime ct q] show thesis
    by (auto simp: activate_session_def made_session_def Let_def split: sum.splits option.splits)
qed

lemma attach_none: "attach_binding W p req None resp = Inr resp"
  by (simp add: attach_binding_def)

lemma attach_shape:
  assumes "attach_binding W p req ct resp = Inr resp'"
  shows "resp' = resp\<lparr>pr_CapacityToken := pr_CapacityToken resp', pr_SABinding := pr_SABinding resp'\<rparr>"
  using assms by (auto simp: attach_binding_def split: option.splits sum.splits)

text \<open>Preparation ends with an error or a session, never with a reply of success.\<close>

lemma prepare_error:
  assumes "activate_prepare W r p = (Inl e, p')"
  shows "\<exists>c m. e = ActError c m"
proof -
  have g: "\<exists>c m. e = ActError c m" if "activate_guards r p = Inl e" for e
    using that by (auto simp: activate_guards_def split: if_splits option.splits)
  have k: "\<exists>c m. e = ActError c m" if "activate_keys W n req = Inl e" for e n req
    using that by (auto simp: activate_keys_def split: option.splits)
  have a: "\<exists>c m. e = ActError c m" if "attach_binding W q req ct resp = Inl e" for e q req ct resp
    using that by (auto simp: attach_binding_def split: option.splits sum.splits)
  have l: "\<exists>c m. e = ActError c m" if "activate_lifetime W q = (Inl e, q')" for e q q'
    using that by (auto simp: activate_lifetime_def Let_def split: if_splits prod.splits sum.splits)
  from assms consider "\<exists>q. activate_resources W r p = (Inl e, q)" | x q where "activate_session W x q = (Inl e, p')"
    by (auto simp: activate_prepare_def split: prod.splits sum.splits)
  then show ?thesis
  proof cases
    case 1
    then show ?thesis
      by (auto simp: activate_resources_def Let_def dest: g k split: sum.splits option.splits prod.splits if_splits)
  next
    case (2 x q)
    then show ?thesis by (auto simp: activate_session_def Let_def dest: a l split: sum.splits option.splits prod.splits)
  qed
qed

text \<open>A whole activation: the reply answers the request, and the stored session has its keys.\<close>

lemma activation_elim:
  assumes "activateHandler W \<lparr>aq_Method = ''POST'', aq_Body = Some req\<rparr> p = (Activated resp, p')"
  obtains s x q p1 lifetime ct t where "activate_resources W \<lparr>aq_Method = ''POST'', aq_Body = Some req\<rparr> p = (Inr x, q)" "rs_req x = req"
    "activate_session W x q = (Inr (s, resp), p1)" "activate_commit W (s, resp) p1 = (Activated resp, p')"
proof -
  let ?r = "\<lparr>aq_Method = ''POST'', aq_Body = Some req\<rparr>"
  obtain s resp1 p1 where pr: "activate_prepare W ?r p = (Inr (s, resp1), p1)" "activate_commit W (s, resp1) p1 = (Activated resp, p')"
    using assms prepare_error [of W ?r p "Activated resp" p'] by (auto simp: activateHandler_def split: prod.splits sum.splits)
  then obtain x q where x: "activate_resources W ?r p = (Inr x, q)" "activate_session W x q = (Inr (s, resp1), p1)"
    by (auto simp: activate_prepare_def split: prod.splits sum.splits)
  have "resp1 = resp"
    using pr(2) by (auto simp: activate_commit_def activate_apply_def Let_def split: prod.splits sum.splits option.splits if_splits)
  moreover have "rs_req x = req" by (rule resources_elim [OF x(1)]) simp
  ultimately show thesis using that x pr(2) by blast
qed

lemma response_fields:
  assumes "activate_session W x q = (Inr (s, resp), p1)"
  shows "pr_ServiceID resp = ar_ServiceID (rs_req x)" "pr_ClientInSPI resp = ar_ClientInSPI (rs_req x)"
    "pr_PEPDHPub resp = fst (rs_keys x)" "pr_ClientInnerIP resp = rs_innerIP x" "pr_ServiceIP resp \<noteq> ''''"
    "pr_PEPInSPI resp = rs_spi x" "ss_PEPInSPI s = rs_spi x" "ss_C2PKey s = fst (snd (rs_keys x))" "ss_P2CKey s = snd (snd (rs_keys x))"
proof -
  from assms obtain lifetime ct q1 plan where "p1 = tick q1"
    and a: "attach_binding W p1 (rs_req x) ct (new_response (made_session W x (w_clock W (p_tick q1)) lifetime) lifetime) = Inr resp"
    and s: "s = (made_session W x (w_clock W (p_tick q1)) lifetime)\<lparr>ss_XFRM := plan\<rparr>" by (rule session_elim) blast
  define r0 where "r0 = new_response (made_session W x (w_clock W (p_tick q1)) lifetime) lifetime"
  from attach_shape [OF a] have r: "resp = r0\<lparr>pr_CapacityToken := pr_CapacityToken resp, pr_SABinding := pr_SABinding resp\<rparr>" by (simp add: r0_def)
  obtain pub c2p p2c where k: "rs_keys x = (pub, c2p, p2c)" by (metis prod.collapse)
  have "pr_ServiceID resp = pr_ServiceID r0" "pr_ClientInSPI resp = pr_ClientInSPI r0" "pr_PEPDHPub resp = pr_PEPDHPub r0"
    "pr_ClientInnerIP resp = pr_ClientInnerIP r0" "pr_ServiceIP resp = pr_ServiceIP r0" "pr_PEPInSPI resp = pr_PEPInSPI r0"
    by (subst r, simp)+
  then show "pr_ServiceID resp = ar_ServiceID (rs_req x)" "pr_ClientInSPI resp = ar_ClientInSPI (rs_req x)"
    "pr_PEPDHPub resp = fst (rs_keys x)" "pr_ClientInnerIP resp = rs_innerIP x" "pr_ServiceIP resp \<noteq> ''''" "pr_PEPInSPI resp = rs_spi x"
    by (simp_all add: r0_def made_session_def new_session_def new_response_def k getenv_nonempty)
  show "ss_PEPInSPI s = rs_spi x" "ss_C2PKey s = fst (snd (rs_keys x))" "ss_P2CKey s = snd (snd (rs_keys x))"
    by (simp_all add: s made_session_def new_session_def k)
qed

text \<open>The attestation of a reply.\<close>

lemma response_attested:
  assumes "activate_session W x q = (Inr (s, resp), p1)" "pr_CapacityToken resp = Some tok" "keeps_fitting (w_prims W) q"
  obtains a b r0 lifetime n want where "p_attestation q = Some a" "token_fits (w_prims W) a tok" "pr_SABinding resp = Some b"
    "signSABinding (w_prims W) a (rs_req x) r0 tok = Inr b" "resp = r0\<lparr>pr_CapacityToken := Some tok, pr_SABinding := Some b\<rparr>"
    "boundLifetime (w_clock W n) want tok = Inr lifetime" "pr_SALifetime resp = lifetime"
    "pr_ExpiresAt resp = Format_RFC3339 (w_clock W (Suc n) + dur_seconds lifetime)"
proof -
  from assms(1) obtain lifetime ct q1 plan where l: "activate_lifetime W q = (Inr (lifetime, ct), q1)" and p1: "p1 = tick q1"
    and at: "attach_binding W p1 (rs_req x) ct (new_response (made_session W x (w_clock W (p_tick q1)) lifetime) lifetime) = Inr resp"
    by (rule session_elim) blast
  define r0 where "r0 = new_response (made_session W x (w_clock W (p_tick q1)) lifetime) lifetime"
  have r0: "pr_CapacityToken r0 = None" "pr_SALifetime r0 = lifetime" "pr_ExpiresAt r0 = Format_RFC3339 (w_clock W (p_tick q1) + dur_seconds lifetime)"
    by (auto simp: r0_def new_response_def made_session_def new_session_def split: prod.split)
  from at assms(2) r0 obtain a1 b where ab: "ct = Some tok" "p_attestation p1 = Some a1" "signSABinding (w_prims W) a1 (rs_req x) r0 tok = Inr b"
    "resp = r0\<lparr>pr_CapacityToken := Some tok, pr_SABinding := Some b\<rparr>"
    unfolding r0_def [symmetric] by (auto simp: attach_binding_def split: option.splits sum.splits)
  from l ab(1) obtain q0 where q0: "ensureCapacityToken W q = (Inr tok, q0)" "q1 = tick q0"
    "boundLifetime (w_clock W (p_tick q0)) (pep_getenvInt (w_env W) ''SA_LIFETIME_SECONDS'' 60) tok = Inr lifetime"
    by (auto simp: activate_lifetime_def Let_def split: if_splits prod.splits sum.splits)
  from ensure_ok [OF q0(1) assms(3)] obtain a where a: "p_attestation q = Some a" "token_fits (w_prims W) a tok"
    "p_attestation q0 = Some (a\<lparr>at_token := Some tok\<rparr>)" by metis
  with ab(2) p1 q0(2) have "a1 = a\<lparr>at_token := Some tok\<rparr>" by simp
  with ab(3) have sg: "signSABinding (w_prims W) a (rs_req x) r0 tok = Inr b" by (simp add: signSABinding_def)
  have ex: "pr_SABinding resp = Some b" "pr_SALifetime resp = lifetime"
    "pr_ExpiresAt resp = Format_RFC3339 (w_clock W (Suc (p_tick q0)) + dur_seconds lifetime)"
    using ab(4) r0 q0(2) by simp_all
  show thesis by (rule that [OF a(1,2) ex(1) sg ab(4) q0(3) ex(2,3)])
qed

text \<open>The client accepts what the PEP attested and the PDP passed on.\<close>

lemma tunnel_params_fields [simp]:
  "tp_ServiceID (tunnel_params D r) = pr_ServiceID r" "tp_ServiceIP (tunnel_params D r) = pr_ServiceIP r"
  "tp_PEPAddress (tunnel_params D r) = d_pepWANAddress D" "tp_PEPPort (tunnel_params D r) = d_pepNATTPort D"
  "tp_ClientInnerIP (tunnel_params D r) = pr_ClientInnerIP r" "tp_ClientInSPI (tunnel_params D r) = pr_ClientInSPI r"
  "tp_PEPInSPI (tunnel_params D r) = pr_PEPInSPI r" "tp_PEPDHPub (tunnel_params D r) = pr_PEPDHPub r" "tp_AEAD (tunnel_params D r) = pr_AEAD r"
  "tp_SALifetime (tunnel_params D r) = pr_SALifetime r" "tp_ExpiresAt (tunnel_params D r) = pr_ExpiresAt r"
  "tp_CapacityToken (tunnel_params D r) = pr_CapacityToken r" "tp_SABinding (tunnel_params D r) = pr_SABinding r"
  by (simp_all add: tunnel_params_def)

text \<open>The clocks of a PEP: consecutive readings less than a second apart, and every expiry in a four-digit year.\<close>

definition clock_steady :: "(nat \<Rightarrow> time) \<Rightarrow> bool" where
  "clock_steady clock \<longleftrightarrow> (\<forall>n. clock (Suc n) < clock n + Second)
     \<and> (\<forall>n l. 0 < l \<and> l \<le> 1000000 \<longrightarrow> four_digit_year (clock n + dur_seconds l))"

lemma passed_on_accepted:
  assumes "activate_session W x q = (Inr (s, resp), p1)" "pr_CapacityToken resp = Some tok" "keeps_fitting (w_prims W) q"
    and "p_attestation q = Some a" "key_pair (w_prims W) (at_key a)" "at_maxSALifetime a \<le> 1000000" "clock_steady (w_clock W)"
    and "token_current now tok" "ct_CheckpointHash tok \<noteq> ''''" "ct_HistoryEpoch tok \<noteq> 0"
    and "Parse_RFC3339 (ct_ExpiresAt tok) = Some e" "e mod Second = 0"
    and "ar_ServiceID (rs_req x) \<in> set (slice (ct_Scope tok))"
    and "cc_VerifierPubKey cfg = at_verifierPubKey a" "at_verifierPubKey a \<noteq> ''''" "cc_ExpectedPolicyHash cfg \<in> {'''', at_policyHash a}"
    and "ap_ServiceID pl = ar_ServiceID (rs_req x)" "ap_ClientInSPI pl = ar_ClientInSPI (rs_req x)" "ap_ClientDHPub pl = ar_ClientDHPub (rs_req x)"
    and "ar_ClientDHPub (rs_req x) \<noteq> ''''" "cid_ClientStaticPub cid = ar_ClientPubKey (rs_req x)"
  shows "attested_tunnel (w_prims W) now cfg cid pl (tunnel_params D resp)"
proof -
  from response_attested [OF assms(1-3)] obtain b r0 lifetime n want where
    fits: "token_fits (w_prims W) a tok" and b: "pr_SABinding resp = Some b" "signSABinding (w_prims W) a (rs_req x) r0 tok = Inr b"
    and r0: "resp = r0\<lparr>pr_CapacityToken := Some tok, pr_SABinding := Some b\<rparr>"
    and l: "boundLifetime (w_clock W n) want tok = Inr lifetime" "pr_SALifetime resp = lifetime"
      "pr_ExpiresAt resp = Format_RFC3339 (w_clock W (Suc n) + dur_seconds lifetime)"
    using assms(4) by (metis option.inject)
  note f = response_fields [OF assms(1)]
  have tok: "VerifyCapacityToken (w_prims W) tok (cc_VerifierPubKey cfg) now = Inr ()"
    using fits assms(8,14) by (simp add: VerifyCapacityToken_iff token_fits_def)
  have pk: "ct_PEPSigningPubKey tok = id_PublicKey (at_key a)" using fits by (simp add: token_fits_def)
  from signSABinding_verifies [OF assms(5) b(2) pk] obtain sg where
    vb: "VerifySABinding (w_prims W) b (ct_PEPSigningPubKey tok) = Inr ()" and bs: "b = (sa_binding (w_prims W) (rs_req x) r0 tok)\<lparr>sb_Signature := sg\<rparr>" by blast
  have max: "0 < lifetime" "lifetime \<le> ct_MaxSALifetime tok" using l(1) assms(11) by (auto simp: boundLifetime_iff)
  then have "lifetime \<le> 1000000" using fits assms(6) by (simp add: token_fits_def)
  with max assms(7) have "w_clock W (Suc n) < w_clock W n + Second" "four_digit_year (w_clock W (Suc n) + dur_seconds lifetime)"
    by (auto simp: clock_steady_def)
  from sa_expiry_within [OF l(1) assms(11,12) this] obtain u where u: "Parse_RFC3339 (pr_ExpiresAt resp) = Some u" "u \<le> e"
    using l(3) by auto
  have "b = expected_binding (w_prims W) (tunnel_params D resp) tok b (cid_ClientStaticPub cid) (ap_ClientDHPub pl) \<and> sb_Version b = 1"
    by (simp add: bs sa_binding_def expected_binding_def r0 assms(19,21))
  with tok vb max u assms(2,11,13) l(2) b(1) f(1)
  have "tunnel_ok (w_prims W) (tunnel_params D resp) (cid_ClientStaticPub cid) (ap_ClientDHPub pl) (cc_VerifierPubKey cfg) now"
    by (simp add: tunnel_ok_def)
  moreover have "ct_PolicyHash tok = at_policyHash a" using fits by (simp add: token_fits_def)
  ultimately show ?thesis using assms(2,9,10,14-20) f(1,2) by (auto simp: attested_tunnel_def)
qed

subsection \<open>The way back\<close>

text \<open>The PDP's answer to an opened packet, when the PEP activates.\<close>

lemma pdp_answers:
  assumes "handle_open D packet now (pd_items st) = (Inr (info, res), items)"
    and "d_unmarshal D (or_Payload res) = Some pl" "pdp_contains (ci_AllowedServices info) (ap_ServiceID pl)"
    and "d_pep D (activate_request res ip pl) (pd_world st) = (Response 200 (Some resp), p')"
    and "d_marshal D (access_response D resp) = Some rb" "d_write D = (\<lambda>_. None)"
    and "gcm_correct (d_prims D)" "length (or_ResponseKey res) = 32"
  shows "\<exists>c st'. handleUDPPacket D ip packet now fin st = (Some c, st') \<and> pd_world st' = p'
    \<and> DecryptResponse (d_prims D) (Some (or_ResponseKey res)) c = Some rb"
proof -
  obtain c where c: "EncryptResponse (d_prims D) (Some (or_ResponseKey res)) rb = Some c"
    "DecryptResponse (d_prims D) (Some (or_ResponseKey res)) c = Some rb"
    using assms(7,8) by (simp add: EncryptResponse_def DecryptResponse_def encryptWithKey_def decryptWithKey_def aes_key_ok_def gcm_correct_def)
  with assms show ?thesis
    by (auto simp: handleUDPPacket_def handle_authorize_def activatePEP_def http_result_def send_response_def Let_def)
qed

lemma response_key_length:
  assumes "sha256_size P" "BuildIKpsk1SPA P rand cid pub payload t0 = Inr b"
  shows "length (br_ResponseKey b) = 32"
  using assms(2) by (rule build_elim) (simp add: split_keys_def hkdf2_def Let_def hmac_length [OF assms(1)])

text \<open>Both ends derive the same session keys.\<close>

lemma keys_agree:
  assumes "x25519_commutes P" "x25519_size P" "GenerateX25519KeyPair P (Some r) = Some eph" "length r = 32"
    and "w_prims W = P" "activate_keys W n req = Inr (pub, c2p, p2c)" "ar_ClientDHPub req = kp_PublicB64 eph"
  shows "\<exists>shared. DeriveSharedSecretB64 P (kp_PrivateB64 eph) pub = Some shared \<and> DeriveSessionKeys P shared = Some (c2p, p2c)"
proof -
  from assms(6) obtain pair shared where g: "GenerateX25519KeyPair P (w_rand W n) = Some pair" "pub = kp_PublicB64 pair"
    and d: "DeriveSharedSecretB64 P (kp_PrivateB64 pair) (ar_ClientDHPub req) = Some shared" "DeriveSessionKeys P shared = Some (c2p, p2c)"
    by (rule keys_elim) (use assms(5) in simp)
  from g(1) obtain r' Y where y: "curve25519_X25519 P (ClampX25519Private r') curve25519_Basepoint = Some Y"
    "pair = \<lparr>kp_PrivateB64 = base64_EncodeToString (ClampX25519Private r'), kp_PublicB64 = base64_EncodeToString Y\<rparr>"
    by (auto simp: GenerateX25519KeyPair_def Let_def split: option.splits)
  from assms(3) obtain X where x: "curve25519_X25519 P (ClampX25519Private r) curve25519_Basepoint = Some X"
    "eph = \<lparr>kp_PrivateB64 = base64_EncodeToString (ClampX25519Private r), kp_PublicB64 = base64_EncodeToString X\<rparr>"
    by (auto simp: GenerateX25519KeyPair_def Let_def split: option.splits)
  have len: "length X = 32" "length Y = 32" using x(1) y(1) assms(2) by (auto simp: x25519_size_def)
  have "curve25519_X25519 P (ClampX25519Private r') X = curve25519_X25519 P (ClampX25519Private r) Y"
    by (rule x25519_commutesD [OF assms(1) x(1) y(1)])
  with d x(2) y(2) len assms(4,7) have "DeriveSharedSecretB64 P (kp_PrivateB64 eph) (kp_PublicB64 pair) = Some shared"
    by (simp add: DeriveSharedSecretB64_def split: if_splits option.splits)
  with d(2) g(2) show ?thesis by blast
qed

lemma inner_ip_nonempty: "clientInnerIPFromOffset c off = Some ip \<Longrightarrow> ip \<noteq> ''''"
  by (auto simp: clientInnerIPFromOffset_def netip_String4_def be32_put_def Let_def split: option.splits if_splits)

text \<open>The input of the client's plan: the tunnel's parameters and the keys of a session.\<close>

definition plan_input :: "TunnelParams \<Rightarrow> string \<Rightarrow> u32 \<Rightarrow> Session \<Rightarrow> TunnelPlanInput" where
  "plan_input t outer reqID s =
     \<lparr>ti_ClientOuterIP = outer, ti_ClientInnerIP = tp_ClientInnerIP t, ti_PEPOuterIP = tp_PEPAddress t,
      ti_ServiceIP = tp_ServiceIP t, ti_NATTPort = (if tp_PEPPort t = 0 then 4500 else tp_PEPPort t), ti_ClientInSPI = tp_ClientInSPI t,
      ti_PEPInSPI = tp_PEPInSPI t, ti_ReqID = reqID, ti_C2PKeyB64 = ss_C2PKey s, ti_P2CKeyB64 = ss_P2CKey s\<rparr>"

lemma session_keys_base64: "DeriveSessionKeys P shared = Some (c2p, p2c) \<Longrightarrow>
    \<exists>a b. c2p = base64_EncodeToString a \<and> p2c = base64_EncodeToString b"
  by (auto simp: DeriveSessionKeys_def Let_def split: option.splits)

lemma client_plan_matches:
  assumes "DeriveSharedSecretB64 (cw_prims W) (kp_PrivateB64 (rq_eph rq)) (tp_PEPDHPub t) = Some shared"
    and "DeriveSessionKeys (cw_prims W) shared = Some (ss_C2PKey s, ss_P2CKey s)" "GenerateReqID (cw_rand W 3) = Some reqID"
    and "tp_ServiceIP t \<noteq> ''''" "tp_ClientInnerIP t \<noteq> ''''" "tp_PEPAddress t \<noteq> ''''"
    and "cw_localIP W (tp_PEPAddress t) (if tp_PEPPort t = 0 then 4500 else tp_PEPPort t) = Inr outer"
  shows "\<exists>plan. client_plan W rq t = Inr plan \<and> BuildClientXFRMTunnelPlan (cw_prims W) (plan_input t outer reqID s) = Some plan"
proof -
  from session_keys_base64 [OF assms(2)] obtain plan where "BuildClientXFRMTunnelPlan (cw_prims W) (plan_input t outer reqID s) = Some plan"
    by (auto simp: BuildClientXFRMTunnelPlan_def DeriveXFRMAEADKey_def plan_input_def Let_def)
  with assms show ?thesis by (auto simp: client_plan_def buildClientXFRMPlan_def plan_input_def Let_def split: if_splits)
qed

subsection \<open>Properties\<close>

text \<open>A client, a PDP and a PEP set up for one another.\<close>

definition deployed :: "'k world \<Rightarrow> 'k pep pdp_config \<Rightarrow> 'c client_world \<Rightarrow> ClientConfig \<Rightarrow> ClientIdentity \<Rightarrow> bytes \<Rightarrow> ClientInfo \<Rightarrow> bool" where
  "deployed Wp D W cfg cid cpk info \<longleftrightarrow>
     crypto_ok (d_prims D) \<and> cw_prims W = d_prims D \<and> w_prims Wp = d_prims D \<and> d_pep D = pep_http Wp
     \<and> d_write D = (\<lambda>_. None) \<and> d_pepWANAddress D \<noteq> '''' \<and> enrolled D cid cpk info
     \<and> cc_PDPStaticPub cfg = pid_PDPStaticPub (d_identity D) \<and> cc_ServiceID cfg \<in> set (ci_AllowedServices info)"

text \<open>The PEP's request for a client's payload.\<close>

definition request_of :: "bytes \<Rightarrow> string \<Rightarrow> AccessPayload \<Rightarrow> ActivateRequest" where
  "request_of cpk ip pl = \<lparr>ar_ClientPubKey = base64_EncodeToString cpk, ar_ClientOuterIP = ip, ar_ServiceID = ap_ServiceID pl,
     ar_ClientInSPI = ap_ClientInSPI pl, ar_ClientDHPub = ap_ClientDHPub pl, ar_AEADSuites = ap_AEADSuites pl\<rparr>"

text \<open>The PDP's part of the handshake.\<close>

lemma pdp_side:
  assumes "deployed Wp D W cfg cid cpk info" "client_prepare W cfg cid = Inr rq"
    and "cw_marshal W (rq_payload rq) = Some pb" "length pb \<le> 1096" "d_unmarshal D pb = Some (rq_payload rq)"
    and "- (2 ^ 63) \<le> UnixMilli (cw_clock W 0)" "UnixMilli (cw_clock W 0) < 2 ^ 63"
    and "\<bar>now - time_UnixMilli (UnixMilli (cw_clock W 0))\<bar> \<le> spaSkew"
    and "\<not> fst (Seen (br_PacketHash (rq_spa rq)) now (pd_items st))"
    and "activateHandler Wp \<lparr>aq_Method = ''POST'', aq_Body = Some (request_of cpk ip (rq_payload rq))\<rparr> (pd_world st) = (Activated resp, p')"
    and "d_marshal D (access_response D resp) = Some rb"
  shows "\<exists>c st'. handleUDPPacket D ip (br_Packet (rq_spa rq)) now fin st = (Some c, st') \<and> pd_world st' = p'
    \<and> DecryptResponse (d_prims D) (Some (br_ResponseKey (rq_spa rq))) c = Some rb"
proof -
  note dep = assms(1) [unfolded deployed_def]
  from assms(2,3) have b: "BuildIKpsk1SPA (d_prims D) (cw_rand W 2) cid (pid_PDPStaticPub (d_identity D)) pb (cw_clock W 0) = Inr (rq_spa rq)"
    and sid: "ap_ServiceID (rq_payload rq) = cc_ServiceID cfg"
    using dep by (auto elim!: client_prepare_elim)
  have cr: "crypto_ok (d_prims D)" "enrolled D cid cpk info" using dep by auto
  let ?res = "\<lparr>or_ClientStaticPub = base64_EncodeToString cpk, or_TimestampMS = br_TimestampMS (rq_spa rq), or_Payload = pb,
      or_PacketHash = br_PacketHash (rq_spa rq), or_ResponseKey = br_ResponseKey (rq_spa rq)\<rparr>"
  have o: "handle_open D (br_Packet (rq_spa rq)) now (pd_items st) = (Inr (info, ?res), snd (Seen (br_PacketHash (rq_spa rq)) now (pd_items st)))"
    by (rule built_opens [OF cr b assms(4,6,7,8,9)])
  have len: "length (or_ResponseKey ?res) = 32" using response_key_length [OF _ b] cr(1) by (simp add: crypto_ok_def)
  have "activate_request ?res ip (rq_payload rq) = request_of cpk ip (rq_payload rq)" by (simp add: activate_request_def request_of_def)
  then have pep: "d_pep D (activate_request ?res ip (rq_payload rq)) (pd_world st) = (Response 200 (Some resp), p')"
    using dep assms(10) by (simp add: pep_http_def)
  have "pdp_contains (ci_AllowedServices info) (ap_ServiceID (rq_payload rq))" using dep sid by (simp add: pdp_contains_def list_ex_iff)
  from pdp_answers [OF o _ this pep assms(11) _ _ len] dep assms(5) show ?thesis by (simp add: crypto_ok_def)
qed

lemma reply_accepted:
  assumes "activateHandler W \<lparr>aq_Method = ''POST'', aq_Body = Some (request_of cpk ip pl)\<rparr> p = (Activated resp, p')"
    and "pr_CapacityToken resp = Some tok" "keeps_fitting (w_prims W) p" "p_attestation p = Some a"
    and "key_pair (w_prims W) (at_key a)" "at_maxSALifetime a \<le> 1000000" "clock_steady (w_clock W)"
    and "token_current now tok" "ct_CheckpointHash tok \<noteq> ''''" "ct_HistoryEpoch tok \<noteq> 0"
    and "Parse_RFC3339 (ct_ExpiresAt tok) = Some e" "e mod Second = 0" "ap_ServiceID pl \<in> set (slice (ct_Scope tok))"
    and "cc_VerifierPubKey cfg = at_verifierPubKey a" "at_verifierPubKey a \<noteq> ''''" "cc_ExpectedPolicyHash cfg \<in> {'''', at_policyHash a}"
    and "cid_ClientStaticPub cid = base64_EncodeToString cpk"
  shows "verifyTunnelAttestation (w_prims W) env now cfg cid pl (tunnel_params D resp) = Inr ()"
proof -
  from assms(1) obtain s x q p1 where act: "activate_resources W \<lparr>aq_Method = ''POST'', aq_Body = Some (request_of cpk ip pl)\<rparr> p = (Inr x, q)"
    "rs_req x = request_of cpk ip pl" "activate_session W x q = (Inr (s, resp), p1)" by (rule activation_elim) blast
  have ne: "ar_ClientDHPub (rs_req x) \<noteq> ''''" and att: "p_attestation q = p_attestation p" by (rule resources_elim [OF act(1)], simp)+
  have fit: "keeps_fitting (w_prims W) q" using assms(3) att by (simp add: keeps_fitting_def)
  have "attested_tunnel (w_prims W) now cfg cid pl (tunnel_params D resp)"
    by (rule passed_on_accepted [OF act(3) assms(2) fit _ assms(5-12)])
      (use assms(4,13-) att ne act(2) in \<open>simp_all add: request_of_def\<close>)
  then show ?thesis by (simp add: verify_iff)
qed

lemma handshake_run:
  assumes "deployed Wp D W cfg cid cpk info" "client_prepare W cfg cid = Inr rq"
    and "cw_marshal W (rq_payload rq) = Some pb" "length pb \<le> 1096" "d_unmarshal D pb = Some (rq_payload rq)"
    and "- (2 ^ 63) \<le> UnixMilli (cw_clock W 0)" "UnixMilli (cw_clock W 0) < 2 ^ 63"
    and "\<bar>now - time_UnixMilli (UnixMilli (cw_clock W 0))\<bar> \<le> spaSkew"
    and "\<not> fst (Seen (br_PacketHash (rq_spa rq)) now (pd_items st))"
    and "activateHandler Wp \<lparr>aq_Method = ''POST'', aq_Body = Some (request_of cpk ip (rq_payload rq))\<rparr> (pd_world st) = (Activated resp, p')"
    and "d_marshal D (access_response D resp) = Some rb" "cw_unmarshal W rb = Some (access_response D resp)"
    and "idle (pd_world st)" "cw_rand W 0 = Some r1" "length r1 = 32" "GenerateReqID (cw_rand W 3) = Some reqID"
    and "cw_localIP W (d_pepWANAddress D) (if d_pepNATTPort D = 0 then 4500 else d_pepNATTPort D) = Inr outer"
    and "cw_exchange W (cc_PDPUDPAddr cfg) (br_Packet (rq_spa rq))
           = of_opt ''timeout'' (fst (handleUDPPacket D ip (br_Packet (rq_spa rq)) now fin st))"
    and "verifyTunnelAttestation (cw_prims W) (cw_env W) (cw_clock W 1) cfg cid (rq_payload rq) (tunnel_params D resp) = Inr ()"
  shows "\<exists>s plan err k'. map_of (p_sessions p') (pr_PEPInSPI resp) = Some s
    \<and> BuildClientXFRMTunnelPlan (cw_prims W) (plan_input (tunnel_params D resp) outer reqID s) = Some plan
    \<and> client_install W plan (tunnel_params D resp) k = (err, k')
    \<and> benchmarkHandshakeOnce W cfg cid k
        = ((\<lparr>hr_Response = access_response D resp, hr_PacketHash = br_PacketHash (rq_spa rq)\<rparr>, err), k')"
proof -
  note dep = assms(1) [unfolded deployed_def]
  from pdp_side [OF assms(1-11), of fin] assms(12,18) have ex: "client_exchange W cfg rq = Inr (access_response D resp)"
    using dep by (auto simp: client_exchange_def)
  from assms(10) obtain s x q p1 where act: "activate_resources Wp \<lparr>aq_Method = ''POST'', aq_Body = Some (request_of cpk ip (rq_payload rq))\<rparr> (pd_world st) = (Inr x, q)"
    "rs_req x = request_of cpk ip (rq_payload rq)" "activate_session Wp x q = (Inr (s, resp), p1)" "activate_commit Wp (s, resp) p1 = (Activated resp, p')"
    by (rule activation_elim)
  note f = response_fields [OF act(3)]
  from act(1) obtain n where n: "activate_keys Wp n (rs_req x) = Inr (rs_keys x)" "rs_innerIP x \<noteq> ''''"
    by (rule resources_elim) (use inner_ip_nonempty in blast)
  have "durable q \<and> quiescent q" using resources_frame [OF act(1)] assms(13) by (auto simp: idle_def)
  then have "durable p1" using session_frame [OF act(3)] by blast
  from commit_ok(4) [OF act(4) this] f(6,7) have stored: "map_of (p_sessions p') (pr_PEPInSPI resp) = Some s" by (simp add: update_conv')
  have eph: "GenerateX25519KeyPair (d_prims D) (Some r1) = Some (rq_eph rq)" "ap_ClientDHPub (rq_payload rq) = kp_PublicB64 (rq_eph rq)"
    using assms(2,14) dep by (auto elim!: client_prepare_elim)
  obtain pub c2p p2c where ks: "rs_keys x = (pub, c2p, p2c)" by (metis prod.collapse)
  obtain shared where sh: "DeriveSharedSecretB64 (d_prims D) (kp_PrivateB64 (rq_eph rq)) pub = Some shared" "DeriveSessionKeys (d_prims D) shared = Some (c2p, p2c)"
    using keys_agree [OF _ _ eph(1) assms(15), of Wp n "rs_req x" pub c2p p2c] n ks dep act(2) eph(2) by (auto simp: crypto_ok_def request_of_def)
  obtain plan where plan: "client_plan W rq (tunnel_params D resp) = Inr plan"
    "BuildClientXFRMTunnelPlan (cw_prims W) (plan_input (tunnel_params D resp) outer reqID s) = Some plan"
    using client_plan_matches [of W rq "tunnel_params D resp" shared s reqID outer] sh f(3,4,5,8,9) ks n(2) dep assms(16,17) by (auto cong: if_cong)
  obtain err k' where k: "client_install W plan (tunnel_params D resp) k = (err, k')" by (metis prod.collapse)
  have "benchmarkHandshakeOnce W cfg cid k = ((\<lparr>hr_Response = access_response D resp, hr_PacketHash = br_PacketHash (rq_spa rq)\<rparr>, err), k')"
    using assms(2,19) ex plan(1) k by (simp add: benchmarkHandshakeOnce_def Let_def access_response_def)
  with stored plan(2) k show ?thesis by blast
qed


text \<open>
  (C11) An attested activation is accepted by the client: the token and the binding of the PEP's reply,
  passed on by the PDP, satisfy the client's check for its own request, whenever the client trusts
  the same verifier key and the token is still current, names the service and is bound to a
  checkpoint. The PEP's clock readings are less than a second apart.
\<close>
theorem attested_reply_accepted:
  assumes "activateHandler W \<lparr>aq_Method = ''POST'', aq_Body = Some (request_of cpk ip pl)\<rparr> p = (Activated resp, p')"
    and "pr_CapacityToken resp = Some tok" "keeps_fitting (w_prims W) p" "p_attestation p = Some a"
    and "key_pair (w_prims W) (at_key a)" "at_maxSALifetime a \<le> 1000000" "clock_steady (w_clock W)"
    and "token_current now tok" "ct_CheckpointHash tok \<noteq> ''''" "ct_HistoryEpoch tok \<noteq> 0"
    and "Parse_RFC3339 (ct_ExpiresAt tok) = Some e" "e mod Second = 0" "ap_ServiceID pl \<in> set (slice (ct_Scope tok))"
    and "cc_VerifierPubKey cfg = at_verifierPubKey a" "at_verifierPubKey a \<noteq> ''''" "cc_ExpectedPolicyHash cfg \<in> {'''', at_policyHash a}"
    and "cid_ClientStaticPub cid = base64_EncodeToString cpk"
  shows "verifyTunnelAttestation (w_prims W) env now cfg cid pl (tunnel_params D resp) = Inr ()"
  using assms by (rule reply_accepted)

subsection \<open>Examples\<close>

text \<open>An attested PEP in dry run, a PDP in front of it, and a client that trusts its verifier.\<close>

definition hs_tok :: CapacityToken where
  "hs_tok = att_tok\<lparr>ct_CheckpointHash := ''c'', ct_HistoryEpoch := 1, ct_Scope := Some [''svc-http'']\<rparr>"

definition hs_att :: pepAttestationState where
  "hs_att = att_state\<lparr>at_scope := [''svc-http''], at_token := Some hs_tok\<rparr>"

definition hs_pep :: "unit pep" where
  "hs_pep = dry_pep\<lparr>p_attestation := Some hs_att, p_nextClientInnerID := 4\<rparr>"

definition hs_world :: "unit world" where
  "hs_world = dry_world\<lparr>w_env := [''PEP_REQUIRED_OBSERVER_PROFILE'' \<mapsto> ''dry-run'', ''PEP_LOCAL_ENDPOINT_IP'' \<mapsto> ''192.0.2.1'',
       ''CLIENT_TUNNEL_CIDR'' \<mapsto> ''10.0.0.8/29''],
     w_rand := (\<lambda>n. Some (if n = 0 then replicate 32 7 else [1, 2, 3, 4]))\<rparr>"

definition hs_payload :: AccessPayload where
  "hs_payload = \<lparr>ap_ServiceID = ''svc-http'', ap_ClientInSPI = ''0x'' @ hex08 (be32_get [1, 2, 3, 4]), ap_ClientDHPub = base64_EncodeToString (replicate 32 1), ap_AEADSuites = []\<rparr>"

definition hs_cfg :: ClientConfig where
  "hs_cfg = \<lparr>cc_PDPUDPAddr = ''pdp:4000'', cc_PDPStaticPub = pid_PDPStaticPub ex_pdp, cc_ServiceID = ''svc-http'', cc_AEADSuites = [],
     cc_VerifierPubKey = ex_pub, cc_ExpectedPolicyHash = '''', cc_AttestationRequired = True\<rparr>"

lemma hs_world_facts:
  "getenv (w_env hs_world) ''XFRM_MODE'' ''dry-run'' = ''dry-run''" "w_os hs_world n = os_fine"
  "strings_ToLower (getenv (w_env hs_world) ''PEP_REQUIRED_OBSERVER_PROFILE'' ''posthoc'') = ''dry-run''"
  "w_prims hs_world = demo_prims" "w_clock hs_world = (\<lambda>_. ex_now)" "getenv (w_env hs_world) ''PEP_LOCAL_ENDPOINT_IP'' '''' = ''192.0.2.1''"
  "getenv (w_env hs_world) ''CLIENT_TUNNEL_CIDR'' ''10.200.0.0/16'' = ''10.0.0.8/29''" "pep_getenvInt (w_env hs_world) ''SA_LIFETIME_SECONDS'' 60 = 60"
  using dry_env_facts(2) by (simp_all add: hs_world_def dry_env_facts getenv_def os_Getenv_def pep_getenvInt_def)

lemma hs_rand: "w_rand hs_world 0 = Some (replicate 32 7)" "w_rand hs_world (Suc 0) = Some [1, 2, 3, 4]"
  by (simp_all add: hs_world_def)

lemma demo_kdfs:
  "length a = 32 \<Longrightarrow> DeriveSharedSecretB64 demo_prims (base64_EncodeToString a) (base64_EncodeToString (replicate 32 1)) = Some (base64_EncodeToString (replicate 32 1))"
  "DeriveSessionKeys demo_prims (base64_EncodeToString (replicate 32 1)) = Some (base64_EncodeToString (replicate 32 5), base64_EncodeToString (replicate 32 5))"
  "GenerateX25519KeyPair demo_prims (Some r) = Some \<lparr>kp_PrivateB64 = base64_EncodeToString (ClampX25519Private r), kp_PublicB64 = base64_EncodeToString (replicate 32 1)\<rparr>"
proof -
  have x: "curve25519_X25519 demo_prims u v = Some (replicate 32 1)" "hkdf_Read demo_prims u v w n = Some (replicate n 5)" for u v w n
    by (simp_all add: demo_prims_def)
  show "length a = 32 \<Longrightarrow> DeriveSharedSecretB64 demo_prims (base64_EncodeToString a) (base64_EncodeToString (replicate 32 1)) = Some (base64_EncodeToString (replicate 32 1))"
    by (simp add: DeriveSharedSecretB64_def x)
  show "DeriveSessionKeys demo_prims (base64_EncodeToString (replicate 32 1)) = Some (base64_EncodeToString (replicate 32 5), base64_EncodeToString (replicate 32 5))"
    by (simp add: DeriveSessionKeys_def x Let_def)
  show "GenerateX25519KeyPair demo_prims (Some r) = Some \<lparr>kp_PrivateB64 = base64_EncodeToString (ClampX25519Private r), kp_PublicB64 = base64_EncodeToString (replicate 32 1)\<rparr>"
    by (simp add: GenerateX25519KeyPair_def x Let_def)
qed

lemma hs_resources:
  "\<exists>x q. activate_resources hs_world \<lparr>aq_Method = ''POST'', aq_Body = Some (request_of cpk ''198.51.100.7'' hs_payload)\<rparr> hs_pep = (Inr x, q)
     \<and> p_attestation q = Some hs_att \<and> p_healthy q \<and> rs_keys x = (base64_EncodeToString (replicate 32 1), base64_EncodeToString (replicate 32 5), base64_EncodeToString (replicate 32 5))"
proof -
  let ?r = "\<lparr>aq_Method = ''POST'', aq_Body = Some (request_of cpk ''198.51.100.7'' hs_payload)\<rparr>"
  have p: "p_healthy hs_pep" "p_attestation hs_pep = Some hs_att" "p_tick hs_pep = 0" "p_nextClientInnerID hs_pep = 4"
    by (simp_all add: hs_pep_def dry_pep_def att_pep_def ex_pep_def)
  have g: "activate_guards ?r hs_pep = Inr (request_of cpk ''198.51.100.7'' hs_payload)"
    using base64_Encode_nonempty [of "replicate 32 1"] p by (simp add: activate_guards_def request_of_def hs_payload_def)
  have k: "activate_keys hs_world 0 (request_of cpk ''198.51.100.7'' hs_payload)
      = Inr (base64_EncodeToString (replicate 32 1), base64_EncodeToString (replicate 32 5), base64_EncodeToString (replicate 32 5))"
    by (simp add: activate_keys_def hs_world_facts hs_rand demo_kdfs request_of_def hs_payload_def)
  obtain spi where s: "GenerateSPI (w_rand hs_world (Suc 0)) = Some spi" by (simp add: hs_rand GenerateSPI_def Let_def)
  show ?thesis
    by (simp add: activate_resources_def g k s p allocateReqID_def allocateClientInnerIP_def hs_world_facts ex_address Let_def)
qed

lemma hs_tok_facts:
  "token_fits demo_prims hs_att hs_tok" "token_usable ex_now hs_tok" "boundLifetime ex_now 60 hs_tok = Inr 30" "token_current ex_now hs_tok"
  "Parse_RFC3339 (ct_ExpiresAt hs_tok) = Some (1735689720 * Second)" "ct_CheckpointHash hs_tok = ''c''" "ct_HistoryEpoch hs_tok = 1"
  "slice (ct_Scope hs_tok) = [''svc-http'']"
proof -
  have e: "Parse_RFC3339 (ct_ExpiresAt hs_tok) = Some (1735689720 * Second)" by (simp add: hs_tok_def att_tok_def att_tok_expiry)
  then show "Parse_RFC3339 (ct_ExpiresAt hs_tok) = Some (1735689720 * Second)" .
  show "token_usable ex_now hs_tok" using e by (simp add: token_usable_def time_Sub_def Second_def min_duration_def max_duration_def)
  show "boundLifetime ex_now 60 hs_tok = Inr 30"
    using e by (simp add: boundLifetime_def Let_def time_Sub_def Second_def min_duration_def max_duration_def whole_seconds_def)
      (simp add: hs_tok_def att_tok_def)
  show "token_current ex_now hs_tok" using e by (simp add: token_current_def Second_def) (simp add: hs_tok_def att_tok_def zero_token_def)
  show "token_fits demo_prims hs_att hs_tok"
    using att_tok_fits by (simp add: token_fits_def hs_att_def hs_tok_def sig_ok_def) (simp add: demo_prims_def)
qed (simp_all add: hs_tok_def)

lemma hs_session:
  assumes "p_attestation q = Some hs_att" "p_healthy q"
    and "rs_keys x = (base64_EncodeToString (replicate 32 1), base64_EncodeToString (replicate 32 5), base64_EncodeToString (replicate 32 5))"
  shows "\<exists>s resp p1. activate_session hs_world x q = (Inr (s, resp), p1) \<and> pr_CapacityToken resp = Some hs_tok"
proof -
  have att: "at_enabled hs_att" "at_token hs_att = Some hs_tok" "at_key hs_att = ex_ident" by (simp_all add: hs_att_def att_state_def)
  have e: "ensureCapacityToken hs_world q = (Inr hs_tok, tick q)"
    using assms(1,2) att hs_tok_facts(2) by (simp add: ensureCapacityToken_def hs_world_facts)
  have l: "activate_lifetime hs_world q = (Inr (30, Some hs_tok), tick (tick q))"
    using assms(1) att e hs_tok_facts(3) by (simp add: activate_lifetime_def attested_def hs_world_facts Let_def)
  define s0 where "s0 = made_session hs_world x ex_now 30"
  have "\<exists>b. signSABinding demo_prims hs_att (rs_req x) (new_response s0 30) hs_tok = Inr b"
    using ex_keys(1) att(3) by (simp add: signSABinding_def SignSABinding_def Let_def)
  then obtain b where b: "signSABinding demo_prims hs_att (rs_req x) (new_response s0 30) hs_tok = Inr b" ..
  have "ss_C2PKey s0 = base64_EncodeToString (replicate 32 5)" "ss_P2CKey s0 = base64_EncodeToString (replicate 32 5)"
    by (simp_all add: s0_def made_session_def new_session_def assms(3))
  then obtain plan where plan: "buildXFRMPlan demo_prims s0 = Some plan"
    by (simp add: buildXFRMPlan_def BuildXFRMTunnelPlan_def BuildPEPXFRMTunnelPlan_def DeriveXFRMAEADKey_def Let_def)
  have a: "attach_binding hs_world (tick (tick (tick q))) (rs_req x) (Some hs_tok) (new_response s0 30)
      = Inr ((new_response s0 30)\<lparr>pr_CapacityToken := Some hs_tok, pr_SABinding := Some b\<rparr>)"
    using assms(1) b by (simp add: attach_binding_def hs_world_facts)
  show ?thesis using l a plan by (simp add: activate_session_def made_session_def [symmetric] hs_world_facts s0_def [symmetric] Let_def)
qed

lemma hs_activates:
  "\<exists>resp p'. activateHandler hs_world \<lparr>aq_Method = ''POST'', aq_Body = Some (request_of cpk ''198.51.100.7'' hs_payload)\<rparr> hs_pep = (Activated resp, p')
     \<and> pr_CapacityToken resp = Some hs_tok"
proof -
  from hs_resources [of cpk] obtain x q where x: "activate_resources hs_world \<lparr>aq_Method = ''POST'', aq_Body = Some (request_of cpk ''198.51.100.7'' hs_payload)\<rparr> hs_pep = (Inr x, q)"
    "p_attestation q = Some hs_att" "p_healthy q" "rs_keys x = (base64_EncodeToString (replicate 32 1), base64_EncodeToString (replicate 32 5), base64_EncodeToString (replicate 32 5))"
    by blast
  from hs_session [OF x(2-4)] obtain s resp p1 where s: "activate_session hs_world x q = (Inr (s, resp), p1)" "pr_CapacityToken resp = Some hs_tok" by blast
  obtain p' where "activate_commit hs_world (s, resp) p1 = (Activated resp, p')"
    using dry_run_commits [of hs_world s resp p1] hs_world_facts by auto
  with x(1) s show ?thesis by (auto simp: activateHandler_def activate_prepare_def)
qed

lemma hs_year:
  assumes "0 < l" "l \<le> 1000000"
  shows "four_digit_year (ex_now + dur_seconds l)"
proof -
  have "ex_now + dur_seconds l = (1735689600 + l) * Second" using assms by (simp add: dur_seconds_small algebra_simps)
  then have "(ex_now + dur_seconds l) div Second = 1735689600 + l" by (simp add: Second_def)
  with assms show ?thesis by (simp add: four_digit_year_def)
qed

lemma hs_accepted:
  assumes "activateHandler hs_world \<lparr>aq_Method = ''POST'', aq_Body = Some (request_of (replicate 32 1) ''198.51.100.7'' hs_payload)\<rparr> hs_pep = (Activated resp, p')"
    "pr_CapacityToken resp = Some hs_tok"
  shows "keeps_fitting (w_prims hs_world) hs_pep" "p_attestation hs_pep = Some hs_att" "key_pair (w_prims hs_world) (at_key hs_att)"
    "at_maxSALifetime hs_att \<le> 1000000" "clock_steady (w_clock hs_world)" "at_verifierPubKey hs_att = ex_pub" "ex_pub \<noteq> ''''"
    "cid_ClientStaticPub ex_client = base64_EncodeToString (replicate 32 1)" "1735689720 * Second mod Second = 0"
  using hs_tok_facts(1) ex_keys(2) base64_Encode_nonempty [of "replicate 32 1"] hs_year
  by (simp_all add: keeps_fitting_def hs_pep_def hs_world_facts hs_att_def att_state_def ex_req_def clock_steady_def ex_pub_def ex_client_def)
    (simp_all add: Second_def)

theorem attested_reply_accepted_witness:
  "\<exists>resp p'. activateHandler hs_world \<lparr>aq_Method = ''POST'', aq_Body = Some (request_of (replicate 32 1) ''198.51.100.7'' hs_payload)\<rparr> hs_pep = (Activated resp, p')
     \<and> verifyTunnelAttestation demo_prims Map.empty ex_now hs_cfg ex_client hs_payload (tunnel_params ex_D resp) = Inr ()"
proof -
  from hs_activates [of "replicate 32 1"] obtain resp p' where r: "activateHandler hs_world
      \<lparr>aq_Method = ''POST'', aq_Body = Some (request_of (replicate 32 1) ''198.51.100.7'' hs_payload)\<rparr> hs_pep = (Activated resp, p')"
    "pr_CapacityToken resp = Some hs_tok" by blast
  note f = hs_accepted [OF r]
  have "verifyTunnelAttestation (w_prims hs_world) Map.empty ex_now hs_cfg ex_client hs_payload (tunnel_params ex_D resp) = Inr ()"
    by (rule attested_reply_accepted [OF r f(1-5) hs_tok_facts(4) _ _ hs_tok_facts(5) f(9)])
      (use f(6-8) in \<open>simp_all add: hs_tok_facts hs_payload_def hs_cfg_def\<close>)
  with r(1) show ?thesis by (auto simp: hs_world_facts)
qed

text \<open>The PDP in front of this PEP, and the client.\<close>

definition hs_D :: "unit pep pdp_config" where
  "hs_D = \<lparr>d_prims = demo_prims, d_identity = ex_pdp,
     d_pip = (\<lambda>_. Response 200 (Some (ex_info\<lparr>ci_PSK := base64_EncodeToString (replicate 32 5)\<rparr>))),
     d_pep = pep_http hs_world, d_pepWANAddress = ''192.0.2.1'', d_pepNATTPort = 4500,
     d_unmarshal = (\<lambda>_. Some hs_payload), d_marshal = (\<lambda>_. Some [7]), d_write = (\<lambda>_. None)\<rparr>"

definition hs_state :: "unit pep pdp_state" where
  "hs_state = \<lparr>pd_items = [], pd_metrics = globalSPAMetrics, pd_world = hs_pep\<rparr>"

definition hs_client :: "PEPActivationResponse \<Rightarrow> unit client_world" where
  "hs_client resp = \<lparr>cw_prims = demo_prims, cw_env = Map.empty, cw_kernel = w_kernel ex_world,
     cw_rand = (\<lambda>n. Some (if n = 1 \<or> n = 3 then [1, 2, 3, 4] else replicate 32 7)), cw_clock = (\<lambda>_. ex_now),
     cw_marshal = (\<lambda>_. Some [1, 2]), cw_unmarshal = (\<lambda>_. Some (access_response hs_D resp)),
     cw_exchange = (\<lambda>_ packet. of_opt ''timeout'' (fst (handleUDPPacket hs_D ''198.51.100.7'' packet ex_now 0 hs_state))),
     cw_localIP = (\<lambda>_ _. Inr ''198.51.100.7''), cw_start = (\<lambda>_. None)\<rparr>"

lemma hs_deployed: "deployed hs_world hs_D (hs_client resp) hs_cfg ex_client (replicate 32 1) (ex_info\<lparr>ci_PSK := base64_EncodeToString (replicate 32 5)\<rparr>)"
proof -
  have "curve25519_X25519 demo_prims x y = Some (replicate 32 1)" for x y by (simp add: demo_prims_def)
  then have "enrolled hs_D ex_client (replicate 32 1) (ex_info\<lparr>ci_PSK := base64_EncodeToString (replicate 32 5)\<rparr>)"
    by (simp add: enrolled_def static_pair_def hs_D_def ex_client_def ex_pdp_def fetchClient_def http_result_def ex_info_def)
  then show ?thesis
    by (simp add: deployed_def crypto_ok_def hs_cfg_def hs_world_facts ex_info_def) (simp add: hs_D_def hs_client_def)
qed

lemma hs_prepares: "\<exists>rq. client_prepare (hs_client resp) hs_cfg ex_client = Inr rq \<and> rq_payload rq = hs_payload"
proof -
  have spi: "GenerateSPI (Some [1, 2, 3, 4]) = Some (''0x'' @ hex08 (be32_get [1, 2, 3, 4]))" by (simp add: GenerateSPI_def Let_def)
  have x: "curve25519_X25519 demo_prims u v = Some (replicate 32 1)" for u v by (simp add: demo_prims_def)
  have "\<exists>b. BuildIKpsk1SPA demo_prims (Some (replicate 32 7)) ex_client (pid_PDPStaticPub ex_pdp) [1, 2] ex_now = Inr b"
    by (rule build_succeeds) (auto simp: ex_client_def ex_pdp_def x)
  then obtain b where b: "BuildIKpsk1SPA demo_prims (Some (replicate 32 7)) ex_client (pid_PDPStaticPub ex_pdp) [1, 2] ex_now = Inr b" ..
  have w: "cw_prims (hs_client resp) = demo_prims" "cw_rand (hs_client resp) 0 = Some (replicate 32 7)" "cw_rand (hs_client resp) (Suc 0) = Some [1, 2, 3, 4]"
    "cw_rand (hs_client resp) 2 = Some (replicate 32 7)" "cw_marshal (hs_client resp) pl = Some [1, 2]" "cw_clock (hs_client resp) 0 = ex_now" for pl
    by (simp_all add: hs_client_def)
  have c: "cc_PDPStaticPub hs_cfg = pid_PDPStaticPub ex_pdp" "cc_ServiceID hs_cfg = ''svc-http''" "cc_AEADSuites hs_cfg = []" by (simp_all add: hs_cfg_def)
  show ?thesis by (simp add: client_prepare_def w c demo_kdfs spi b Let_def hs_payload_def)
qed

lemma hs_run:
  obtains resp p' rq where "activateHandler hs_world \<lparr>aq_Method = ''POST'', aq_Body = Some (request_of (replicate 32 1) ''198.51.100.7'' hs_payload)\<rparr> hs_pep = (Activated resp, p')"
    "pr_CapacityToken resp = Some hs_tok" "client_prepare (hs_client resp) hs_cfg ex_client = Inr rq" "rq_payload rq = hs_payload"
    "verifyTunnelAttestation (cw_prims (hs_client resp)) (cw_env (hs_client resp)) (cw_clock (hs_client resp) 1) hs_cfg ex_client (rq_payload rq) (tunnel_params hs_D resp) = Inr ()"
proof -
  from hs_activates [of "replicate 32 1"] obtain resp p' where r: "activateHandler hs_world
      \<lparr>aq_Method = ''POST'', aq_Body = Some (request_of (replicate 32 1) ''198.51.100.7'' hs_payload)\<rparr> hs_pep = (Activated resp, p')"
    "pr_CapacityToken resp = Some hs_tok" by blast
  note f = hs_accepted [OF r]
  have v: "verifyTunnelAttestation (w_prims hs_world) Map.empty ex_now hs_cfg ex_client hs_payload (tunnel_params hs_D resp) = Inr ()"
    by (rule reply_accepted [OF r f(1-5) hs_tok_facts(4) _ _ hs_tok_facts(5) f(9)])
      (use f(6-8) in \<open>simp_all add: hs_tok_facts hs_payload_def hs_cfg_def\<close>)
  from hs_prepares [of resp] obtain rq where q: "client_prepare (hs_client resp) hs_cfg ex_client = Inr rq" "rq_payload rq = hs_payload" by blast
  show thesis by (rule that [OF r q]) (use v q(2) in \<open>simp add: hs_client_def hs_world_facts\<close>)
qed

lemma hs_conditions:
  obtains resp p' rq where "client_prepare (hs_client resp) hs_cfg ex_client = Inr rq"
    "cw_marshal (hs_client resp) (rq_payload rq) = Some [1, 2]" "d_unmarshal hs_D [1, 2] = Some (rq_payload rq)"
    "- (2 ^ 63) \<le> UnixMilli (cw_clock (hs_client resp) 0)" "UnixMilli (cw_clock (hs_client resp) 0) < 2 ^ 63"
    "\<bar>ex_now - time_UnixMilli (UnixMilli (cw_clock (hs_client resp) 0))\<bar> \<le> spaSkew"
    "\<not> fst (Seen (br_PacketHash (rq_spa rq)) ex_now (pd_items hs_state))"
    "activateHandler hs_world \<lparr>aq_Method = ''POST'', aq_Body = Some (request_of (replicate 32 1) ''198.51.100.7'' (rq_payload rq))\<rparr> (pd_world hs_state) = (Activated resp, p')"
    "d_marshal hs_D (access_response hs_D resp) = Some [7]" "cw_unmarshal (hs_client resp) [7] = Some (access_response hs_D resp)"
    "idle (pd_world hs_state)" "cw_rand (hs_client resp) 0 = Some (replicate 32 7)"
    "GenerateReqID (cw_rand (hs_client resp) 3) = Some (be32_get [1, 2, 3, 4])"
    "cw_localIP (hs_client resp) (d_pepWANAddress hs_D) (if d_pepNATTPort hs_D = 0 then 4500 else d_pepNATTPort hs_D) = Inr ''198.51.100.7''"
    "cw_exchange (hs_client resp) (cc_PDPUDPAddr hs_cfg) (br_Packet (rq_spa rq))
       = of_opt ''timeout'' (fst (handleUDPPacket hs_D ''198.51.100.7'' (br_Packet (rq_spa rq)) ex_now 0 hs_state))"
    "verifyTunnelAttestation (cw_prims (hs_client resp)) (cw_env (hs_client resp)) (cw_clock (hs_client resp) 1) hs_cfg ex_client (rq_payload rq)
       (tunnel_params hs_D resp) = Inr ()"
proof -
  obtain resp p' rq where r: "activateHandler hs_world \<lparr>aq_Method = ''POST'', aq_Body = Some (request_of (replicate 32 1) ''198.51.100.7'' hs_payload)\<rparr> hs_pep = (Activated resp, p')"
    "pr_CapacityToken resp = Some hs_tok" and q: "client_prepare (hs_client resp) hs_cfg ex_client = Inr rq" "rq_payload rq = hs_payload"
    and v: "verifyTunnelAttestation (cw_prims (hs_client resp)) (cw_env (hs_client resp)) (cw_clock (hs_client resp) 1) hs_cfg ex_client (rq_payload rq) (tunnel_params hs_D resp) = Inr ()"
    by (rule hs_run)
  have d: "d_unmarshal hs_D m = Some hs_payload" "d_marshal hs_D a = Some [7]" "pd_world hs_state = hs_pep" "pd_items hs_state = []" for m a
    by (simp_all add: hs_D_def hs_state_def)
  have reqid: "GenerateReqID (cw_rand (hs_client resp) 3) = Some (be32_get [1, 2, 3, 4])"
    by (simp add: hs_client_def GenerateReqID_def be32_get_def Let_def)
  have idle: "idle (pd_world hs_state)"
    using dry_pep_idle by (simp add: d idle_def hs_pep_def durable_def quiescent_def)
  have clock: "cw_clock (hs_client resp) n = ex_now" for n by (simp add: hs_client_def)
  show thesis
    by (rule that [OF q(1) _ _ _ _ _ _ _ _ _ idle _ reqid _ _ v])
      (use r(1) in \<open>simp_all add: d q(2) clock\<close>, simp_all add: hs_client_def UnixMilli_def time_UnixMilli_def spaSkew_def Seen_def, simp_all add: Second_def)
qed

lemma hs_install: "client_install (hs_client resp) plan t () = (None, ())"
  using dry_run_kernel [of "hs_client resp" plan t "()"] by (simp add: hs_client_def getenv_def os_Getenv_def)

lemma hs_benchmark:
  "\<exists>resp rq. client_prepare (hs_client resp) hs_cfg ex_client = Inr rq
     \<and> benchmarkHandshakeOnce (hs_client resp) hs_cfg ex_client ()
         = ((\<lparr>hr_Response = access_response hs_D resp, hr_PacketHash = br_PacketHash (rq_spa rq)\<rparr>, None), ())"
proof (rule hs_conditions, goal_cases)
  case (1 resp p' rq)
  have "length [1::8 word, 2] \<le> 1096" "length (replicate 32 (7::8 word)) = 32" by simp_all
  with handshake_run [OF hs_deployed 1(1,2) _ 1(3-12) _ 1(13-16), of "()"] 1(1) show ?case by (auto simp: hs_install)
qed


theorem client_no_downgrade_witness:
  "\<exists>resp rq t. client_prepare (hs_client resp) hs_cfg ex_client = Inr rq \<and> attested_tunnel demo_prims ex_now hs_cfg ex_client (rq_payload rq) t"
proof -
  obtain resp rq where "client_prepare (hs_client resp) hs_cfg ex_client = Inr rq" and b: "benchmarkHandshakeOnce (hs_client resp) hs_cfg ex_client ()
      = ((\<lparr>hr_Response = access_response hs_D resp, hr_PacketHash = br_PacketHash (rq_spa rq)\<rparr>, None), ())" using hs_benchmark by blast
  have "attestation_required (cw_env (hs_client resp)) hs_cfg" by (simp add: attestation_required_def hs_client_def hs_cfg_def)
  from client_no_downgrade [OF b this] show ?thesis by (auto simp: hs_client_def access_response_def)
qed

end
