(* ===== verification/Bench.thy ===== *)
theory Bench
  imports Handshake
begin

text \<open>
  The benchmarks of the client, \<^verbatim>\<open>client/bench.go\<close> and \<^verbatim>\<open>client/bench_rate.go\<close>: a sequence of handshakes, and
  a pool of concurrent runs behind a semaphore. Every run has a world of its own (its random draws,
  its clock readings, its replies) and a duration in microseconds; the results are rows of a CSV
  file. The pace of the launches is not modelled: a launch may happen whenever a slot is free.
\<close>

text \<open>
  \<^verbatim>\<open>fmt.Sprintf("%.3f", float64(us)/1000.0)\<close>: below \<open>2 ^ 53\<close> microseconds the conversion is exact and the
  quotient is off by less than half of the last digit printed.
\<close>

definition ms3 :: "int \<Rightarrow> string" where
  "ms3 us = (let a = nat \<bar>us\<bar>; d = dec_nat (a mod 1000) in
     (if us < 0 then ''-'' else '''') @ dec_nat (a div 1000) @ ''.'' @ replicate (3 - length d) (CHR ''0'') @ d)"

subsection \<open>Sequential handshakes\<close>

text \<open>The status of a run and its error text.\<close>

definition run_status :: "benchmarkHandshakeResult \<times> string option \<Rightarrow> string \<times> string" where
  "run_status = (\<lambda>(res, err).
     (case err of Some e \<Rightarrow> (''error'', e)
      | None \<Rightarrow>
        if \<not> rs_Authorized (hr_Response res) \<or> rs_Tunnel (hr_Response res) = None then (''denied'', rs_Reason (hr_Response res))
        else (''ok'', '''')))"

definition bench_header :: "string list" where
  "bench_header = [''run'', ''status'', ''duration_ms'', ''packet_hash'', ''client_inner_ip'', ''service_ip'', ''pep_in_spi'', ''client_in_spi'', ''error'']"

definition bench_row :: "nat \<Rightarrow> int \<Rightarrow> benchmarkHandshakeResult \<times> string option \<Rightarrow> string list" where
  "bench_row i us r =
     (let (status, errMsg) = run_status r;
          field = (\<lambda>f. if status = ''ok'' then f (the (rs_Tunnel (hr_Response (fst r)))) else '''') in
      [itoa (int i), status, ms3 us, hr_PacketHash (fst r), field tp_ClientInnerIP, field tp_ServiceIP, field tp_PEPInSPI,
       field tp_ClientInSPI, errMsg])"

text \<open>\<open>csv i\<close> is the error of writing and flushing row \<open>i\<close>, if any; row 0 is the header.\<close>

fun bench_loop ::
  "(nat \<Rightarrow> 'k client_world) \<Rightarrow> (nat \<Rightarrow> int) \<Rightarrow> (nat \<Rightarrow> string option) \<Rightarrow> ClientConfig \<Rightarrow> ClientIdentity
    \<Rightarrow> nat \<Rightarrow> nat \<Rightarrow> nat \<Rightarrow> 'k \<Rightarrow> (string + nat) \<times> string list list \<times> 'k" where
  "bench_loop W dur csv cfg cid i 0 failures k = (Inr failures, [], k)"
| "bench_loop W dur csv cfg cid i (Suc left) failures k =
     (case benchmarkHandshakeOnce (W i) cfg cid k of (r, k) \<Rightarrow>
        let failures = (if fst (run_status r) \<noteq> ''ok'' then failures + 1 else failures) in
        (case csv i of Some err \<Rightarrow> (Inl err, [], k)
         | None \<Rightarrow>
           (case bench_loop W dur csv cfg cid (Suc i) left failures k of (e, rows, k) \<Rightarrow> (e, bench_row i (dur i) r # rows, k))))"

definition benchHandshake ::
  "(nat \<Rightarrow> 'k client_world) \<Rightarrow> (nat \<Rightarrow> int) \<Rightarrow> string option \<Rightarrow> (nat \<Rightarrow> string option) \<Rightarrow> int \<Rightarrow> ClientConfig \<Rightarrow> ClientIdentity
    \<Rightarrow> 'k \<Rightarrow> exit \<times> string list list \<times> 'k" where
  "benchHandshake W dur create csv n cfg cid k =
     (if n \<le> 0 then (Fatal ''-n must be > 0'', [], k)
      else case create of Some err \<Rightarrow> (Fatal err, [], k)
      | None \<Rightarrow>
        (case csv 0 of Some err \<Rightarrow> (Fatal err, [], k)
         | None \<Rightarrow>
           (case bench_loop W dur csv cfg cid 1 (nat n) 0 k of
              (Inl err, rows, k) \<Rightarrow> (Fatal err, bench_header # rows, k)
            | (Inr failures, rows, k) \<Rightarrow> (if failures > 0 then Exit1 else Finished, bench_header # rows, k))))"

subsection \<open>Runs that must be dropped\<close>

datatype udp_read = ReadTimeout | ReadError string | ReadReply bytes

text \<open>A datagram: an error before it is written, or the result of the read into 4096 bytes.\<close>

definition sendUDPExpectNoResponse :: "(string \<Rightarrow> bytes \<Rightarrow> string + udp_read) \<Rightarrow> string \<Rightarrow> bytes \<Rightarrow> string option" where
  "sendUDPExpectNoResponse net addr packet =
     (case net addr packet of Inl err \<Rightarrow> Some err
      | Inr ReadTimeout \<Rightarrow> None
      | Inr (ReadError err) \<Rightarrow> Some err
      | Inr (ReadReply reply) \<Rightarrow> Some (''unexpected PDP response size='' @ itoa (int (length (take 4096 reply)))))"

record 'k rate_world =
  rw_client :: "'k client_world"
  rw_psk :: "bytes option" \<comment> \<open>the draw of the wrong PSK\<close>
  rw_packet :: "bytes option" \<comment> \<open>the draw of the random packet, 251 bytes\<close>
  rw_net :: "string \<Rightarrow> bytes \<Rightarrow> string + udp_read"
  rw_startOffset :: int
  rw_duration :: int

text \<open>The packet hash, empty when no packet was built, and the error.\<close>

definition benchmarkWrongPSKDropOnce :: "'k rate_world \<Rightarrow> ClientConfig \<Rightarrow> ClientIdentity \<Rightarrow> string \<times> string option" where
  "benchmarkWrongPSKDropOnce W cfg cid =
     (case GeneratePSK (rw_psk W) of None \<Rightarrow> ('''', Some ''rand'')
      | Some wrongPSK \<Rightarrow>
        (case client_prepare (rw_client W) cfg (cid\<lparr>cid_SPAPSK := wrongPSK\<rparr>) of
           Inl err \<Rightarrow> ('''', Some err)
         | Inr rq \<Rightarrow> (br_PacketHash (rq_spa rq), sendUDPExpectNoResponse (rw_net W) (cc_PDPUDPAddr cfg) (br_Packet (rq_spa rq)))))"

definition benchmarkRandomDropOnce :: "'k rate_world \<Rightarrow> ClientConfig \<Rightarrow> string \<times> string option" where
  "benchmarkRandomDropOnce W cfg =
     (case rw_packet W of None \<Rightarrow> ('''', Some ''rand'')
      | Some packet \<Rightarrow>
        (PacketHash (cw_prims (rw_client W)) packet, sendUDPExpectNoResponse (rw_net W) (cc_PDPUDPAddr cfg) packet))"

subsection \<open>Concurrent runs\<close>

text \<open>The flags; of the rate only its sign and its rendering matter here.\<close>

record rate_flags =
  rf_n :: int
  rf_ratePositive :: bool
  rf_rateText :: string
  rf_scenario :: string
  rf_maxInflight :: int

definition rate_guards :: "env \<Rightarrow> rate_flags \<Rightarrow> string + string" where
  "rate_guards env fl =
     (if rf_n fl \<le> 0 then Inl ''-n must be > 0''
      else if \<not> rf_ratePositive fl then Inl ''-rate-sps must be > 0''
      else if rf_maxInflight fl \<le> 0 then Inl ''-max-inflight must be > 0''
      else let sc = strings_ToLower (rf_scenario fl) in
      if sc \<notin> {''valid'', ''wrong-psk'', ''random''} then Inl ''unsupported scenario''
      else if strings_ToLower (os_Getenv env ''XFRM_MODE'') \<noteq> ''dry-run''
      then Inl ''bench-handshake-rate must be run with XFRM_MODE=dry-run''
      else Inr sc)"

record rateRunResult =
  rr_Run :: nat
  rr_Scenario :: string
  rr_TargetRate :: string
  rr_Status :: string
  rr_StartOffset :: int \<comment> \<open>microseconds, as is the duration\<close>
  rr_Duration :: int
  rr_PacketHash :: string
  rr_ClientInnerIP :: string
  rr_ServiceIP :: string
  rr_Error :: string

definition zero_run :: rateRunResult where
  "zero_run = \<lparr>rr_Run = 0, rr_Scenario = '''', rr_TargetRate = '''', rr_Status = '''', rr_StartOffset = 0, rr_Duration = 0,
     rr_PacketHash = '''', rr_ClientInnerIP = '''', rr_ServiceIP = '''', rr_Error = ''''\<rparr>"

text \<open>The body of the goroutine.\<close>

definition drop_result :: "string \<times> string option \<Rightarrow> rateRunResult \<Rightarrow> rateRunResult" where
  "drop_result = (\<lambda>(hash, err) r.
     let r = r\<lparr>rr_PacketHash := hash\<rparr> in
     case err of None \<Rightarrow> r | Some e \<Rightarrow> r\<lparr>rr_Status := ''error'', rr_Error := e\<rparr>)"

definition valid_result :: "benchmarkHandshakeResult \<times> string option \<Rightarrow> rateRunResult \<Rightarrow> rateRunResult" where
  "valid_result = (\<lambda>(res, err) r.
     let r = r\<lparr>rr_PacketHash := hr_PacketHash res\<rparr> in
     case err of Some e \<Rightarrow> r\<lparr>rr_Status := ''error'', rr_Error := e\<rparr>
     | None \<Rightarrow>
       (case rs_Tunnel (hr_Response res) of
          Some t \<Rightarrow>
            if \<not> rs_Authorized (hr_Response res) then r\<lparr>rr_Status := ''denied'', rr_Error := rs_Reason (hr_Response res)\<rparr>
            else r\<lparr>rr_ClientInnerIP := tp_ClientInnerIP t, rr_ServiceIP := tp_ServiceIP t\<rparr>
        | None \<Rightarrow> r\<lparr>rr_Status := ''denied'', rr_Error := rs_Reason (hr_Response res)\<rparr>))"

definition rate_run ::
  "rate_flags \<Rightarrow> string \<Rightarrow> ClientConfig \<Rightarrow> ClientIdentity \<Rightarrow> (nat \<Rightarrow> 'k rate_world) \<Rightarrow> nat \<Rightarrow> 'k \<Rightarrow> rateRunResult \<times> 'k" where
  "rate_run fl sc cfg cid Ws i k =
     (let W = Ws i;
          r = zero_run\<lparr>rr_Run := i, rr_Scenario := sc, rr_TargetRate := rf_rateText fl, rr_Status := ''ok'',
                       rr_StartOffset := rw_startOffset W, rr_Duration := rw_duration W\<rparr> in
      if sc = ''valid'' then
        (case benchmarkHandshakeOnce (rw_client W) cfg cid k of (x, k) \<Rightarrow> (valid_result x r, k))
      else if sc = ''wrong-psk'' then (drop_result (benchmarkWrongPSKDropOnce W cfg cid) r, k)
      else (drop_result (benchmarkRandomDropOnce W cfg) r, k))"

text \<open>
  The pool: the loop launches a run when the semaphore has a free slot, and a running goroutine
  stores its result and frees its slot, in any order.
\<close>

record 'k rate_state =
  rt_next :: nat
  rt_inflight :: "nat list"
  rt_results :: "rateRunResult list"
  rt_kernel :: 'k

inductive rate_step :: "(nat \<Rightarrow> 'k \<Rightarrow> rateRunResult \<times> 'k) \<Rightarrow> nat \<Rightarrow> nat \<Rightarrow> 'k rate_state \<Rightarrow> 'k rate_state \<Rightarrow> bool"
  for run n maxInflight where
  launch: "rt_next s \<le> n \<Longrightarrow> length (rt_inflight s) < maxInflight \<Longrightarrow>
    rate_step run n maxInflight s (s\<lparr>rt_next := Suc (rt_next s), rt_inflight := rt_inflight s @ [rt_next s]\<rparr>)"
| finish: "i \<in> set (rt_inflight s) \<Longrightarrow> run i (rt_kernel s) = (r, k) \<Longrightarrow>
    rate_step run n maxInflight s (s\<lparr>rt_inflight := remove1 i (rt_inflight s), rt_results := (rt_results s)[i - 1 := r], rt_kernel := k\<rparr>)"

inductive_cases rate_step_elim: "rate_step run n maxInflight s s'"

definition rate_init :: "nat \<Rightarrow> 'k \<Rightarrow> 'k rate_state" where
  "rate_init n k = \<lparr>rt_next = 1, rt_inflight = [], rt_results = replicate n zero_run, rt_kernel = k\<rparr>"

text \<open>\<^verbatim>\<open>wg.Wait\<close> returns.\<close>

definition rate_done :: "nat \<Rightarrow> 'k rate_state \<Rightarrow> bool" where
  "rate_done n s \<longleftrightarrow> rt_next s = Suc n \<and> rt_inflight s = []"

definition rate_header :: "string list" where
  "rate_header = [''run'', ''scenario'', ''target_rate_sps'', ''status'', ''start_offset_ms'', ''duration_ms'', ''packet_hash'', ''client_inner_ip'', ''service_ip'', ''error'']"

definition rate_row :: "rateRunResult \<Rightarrow> string list" where
  "rate_row r = [itoa (int (rr_Run r)), rr_Scenario r, rr_TargetRate r, rr_Status r, ms3 (rr_StartOffset r), ms3 (rr_Duration r),
     rr_PacketHash r, rr_ClientInnerIP r, rr_ServiceIP r, rr_Error r]"

text \<open>The end of \<^verbatim>\<open>benchHandshakeRate\<close>: the results in the order of their numbers; \<open>io\<close> is an error of the file.\<close>

definition rate_report :: "string option \<Rightarrow> rateRunResult list \<Rightarrow> exit \<times> string list list" where
  "rate_report io results =
     (let results = sort_key rr_Run results in
      case io of Some err \<Rightarrow> (Fatal err, [])
      | None \<Rightarrow>
        (if length (filter (\<lambda>r. rr_Status r \<noteq> ''ok'') results) > 0 then Exit1 else Finished, rate_header # map rate_row results))"

subsection \<open>Lemmas\<close>

text \<open>In dry-run mode a handshake neither depends on the kernel nor changes it.\<close>

lemma handshake_dry:
  assumes "getenv (cw_env W) ''XFRM_MODE'' ''dry-run'' \<noteq> ''apply''"
  shows "benchmarkHandshakeOnce W cfg cid k = (fst (benchmarkHandshakeOnce W cfg cid k0), k)"
  using dry_run_kernel [OF assms]
  by (simp add: benchmarkHandshakeOnce_def Let_def split: sum.split option.split)

lemma guards_dry:
  assumes "rate_guards env fl = Inr sc"
  shows "getenv env ''XFRM_MODE'' ''dry-run'' \<noteq> ''apply''" "0 < rf_n fl" "0 < rf_maxInflight fl"
proof -
  have "strings_ToLower (os_Getenv env ''XFRM_MODE'') = ''dry-run''" using assms by (auto simp: rate_guards_def Let_def split: if_splits)
  moreover have "strings_ToLower ''apply'' = ''apply''" "strings_ToLower '''' = ''''" by code_simp+
  ultimately show "getenv env ''XFRM_MODE'' ''dry-run'' \<noteq> ''apply''" by (auto simp: getenv_def Let_def)
  show "0 < rf_n fl" "0 < rf_maxInflight fl" using assms by (auto simp: rate_guards_def Let_def split: if_splits)
qed

lemma run_dry:
  assumes "rate_guards env fl = Inr sc" "cw_env (rw_client (Ws i)) = env"
  shows "rate_run fl sc cfg cid Ws i k = (fst (rate_run fl sc cfg cid Ws i k0), k)"
  using handshake_dry [of "rw_client (Ws i)" cfg cid k k0] guards_dry(1) [OF assms(1)] assms(2)
  by (simp add: rate_run_def Let_def case_prod_beta)

lemma run_number [simp]: "rr_Run (fst (rate_run fl sc cfg cid Ws i k)) = i"
  by (simp add: rate_run_def drop_result_def valid_result_def Let_def case_prod_beta split: option.split)

text \<open>The invariant of the pool, for runs that neither depend on the kernel nor change it.\<close>

definition pool_inv :: "(nat \<Rightarrow> rateRunResult) \<Rightarrow> 'k \<Rightarrow> nat \<Rightarrow> nat \<Rightarrow> 'k rate_state \<Rightarrow> bool" where
  "pool_inv result k n maxInflight s \<longleftrightarrow>
     1 \<le> rt_next s \<and> rt_next s \<le> Suc n \<and> distinct (rt_inflight s) \<and> set (rt_inflight s) \<subseteq> {1..<rt_next s}
     \<and> length (rt_inflight s) \<le> maxInflight \<and> length (rt_results s) = n \<and> rt_kernel s = k
     \<and> (\<forall>i\<in>{1..<rt_next s} - set (rt_inflight s). rt_results s ! (i - 1) = result i)"

lemma pool_inv_init: "pool_inv result k n maxInflight (rate_init n k)"
  by (simp add: pool_inv_def rate_init_def)

lemma pool_inv_step:
  assumes "rate_step run n maxInflight s s'" "pool_inv result k n maxInflight s" and run: "\<And>i. run i k = (result i, k)"
  shows "pool_inv result k n maxInflight s'"
  using assms(1)
proof (rule rate_step_elim)
  assume "rt_next s \<le> n" "length (rt_inflight s) < maxInflight"
    "s' = s\<lparr>rt_next := Suc (rt_next s), rt_inflight := rt_inflight s @ [rt_next s]\<rparr>"
  with assms(2) show ?thesis by (auto simp: pool_inv_def less_Suc_eq)
next
  fix i r k'
  assume i: "i \<in> set (rt_inflight s)" and r: "run i (rt_kernel s) = (r, k')"
    and s': "s' = s\<lparr>rt_inflight := remove1 i (rt_inflight s), rt_results := (rt_results s)[i - Suc 0 := r], rt_kernel := k'\<rparr>"
  have k: "r = result i" "k' = k" using r run assms(2) by (auto simp: pool_inv_def)
  from i assms(2) have b: "1 \<le> i" "i < rt_next s" "rt_next s \<le> Suc n" "length (rt_results s) = n" "distinct (rt_inflight s)"
    by (auto simp: pool_inv_def)
  have "rt_results s' ! (j - 1) = result j" if "j \<in> {1..<rt_next s} - set (remove1 i (rt_inflight s))" for j
  proof (cases "j = i")
    case True
    with b show ?thesis by (simp add: s' k)
  next
    case False
    with that b assms(2) show ?thesis by (auto simp: s' pool_inv_def nth_list_update)
  qed
  with assms(2) b show ?thesis by (auto simp: pool_inv_def s' k length_remove1 dest: set_remove1_subset [THEN subsetD])
qed

text \<open>Every step uses up one of the \<open>2 * n\<close> launches and completions.\<close>

definition pool_left :: "nat \<Rightarrow> 'k rate_state \<Rightarrow> nat" where
  "pool_left n s = 2 * (Suc n - rt_next s) + length (rt_inflight s)"

lemma pool_left_step: "rate_step run n maxInflight s s' \<Longrightarrow> pool_left n s = Suc (pool_left n s')"
  by (erule rate_step_elim) (auto simp: pool_left_def length_remove1 Suc_diff_le dest: length_pos_if_in_set)

lemma pool_left_zero: "pool_inv result k n maxInflight s \<Longrightarrow> pool_left n s = 0 \<longleftrightarrow> rate_done n s"
  by (auto simp: pool_left_def rate_done_def pool_inv_def)

lemma pool_progress:
  assumes "pool_inv result k n maxInflight s" "0 < maxInflight" "pool_left n s \<noteq> 0"
  shows "\<exists>s'. rate_step run n maxInflight s s'"
proof (cases "rt_inflight s")
  case Nil
  with assms show ?thesis by (auto simp: pool_left_def intro!: exI launch)
next
  case (Cons i js)
  obtain r k' where "run i (rt_kernel s) = (r, k')" by (cases "run i (rt_kernel s)")
  with Cons show ?thesis by (intro exI) (rule finish [of i], simp_all)
qed

text \<open>The pool counts its steps down: \<open>metered_system\<close>.\<close>

definition pool_good :: "(nat \<Rightarrow> 'k \<Rightarrow> rateRunResult \<times> 'k) \<Rightarrow> (nat \<Rightarrow> rateRunResult) \<Rightarrow> 'k \<Rightarrow> nat \<Rightarrow> nat \<Rightarrow> 'k rate_state \<Rightarrow> bool" where
  "pool_good run result k n maxInflight s \<longleftrightarrow>
     0 < maxInflight \<and> (\<forall>i. run i k = (result i, k)) \<and> pool_inv result k n maxInflight s"

interpretation pool: metered_system "rate_step run n maxInflight" "pool_good run result k n maxInflight" "pool_left n"
  for run result k n maxInflight
  by unfold_locales (auto simp: pool_good_def intro: pool_inv_step pool_left_step pool_progress)

lemma pool_results:
  assumes "pool_inv result k n maxInflight s" "rate_done n s"
  shows "rt_results s = map result [1..<Suc n]"
proof (rule nth_equalityI)
  fix i assume "i < length (rt_results s)"
  with assms show "rt_results s ! i = map result [1..<Suc n] ! i"
    by (auto simp: pool_inv_def rate_done_def simp del: upt_Suc dest: bspec [of _ _ "Suc i"])
qed (use assms in \<open>simp add: pool_inv_def\<close>)

text \<open>The kernel after the first runs of the sequence, and the row of a run.\<close>

primrec kernel_after :: "(nat \<Rightarrow> 'k client_world) \<Rightarrow> ClientConfig \<Rightarrow> ClientIdentity \<Rightarrow> 'k \<Rightarrow> nat \<Rightarrow> 'k" where
  "kernel_after W cfg cid k 0 = k"
| "kernel_after W cfg cid k (Suc i) = snd (benchmarkHandshakeOnce (W (Suc i)) cfg cid (kernel_after W cfg cid k i))"

definition nth_run :: "(nat \<Rightarrow> 'k client_world) \<Rightarrow> ClientConfig \<Rightarrow> ClientIdentity \<Rightarrow> 'k \<Rightarrow> nat \<Rightarrow> benchmarkHandshakeResult \<times> string option" where
  "nth_run W cfg cid k i = fst (benchmarkHandshakeOnce (W i) cfg cid (kernel_after W cfg cid k (i - 1)))"

lemma bench_loop_exact:
  "bench_loop W dur (\<lambda>_. None) cfg cid (Suc i) left failures (kernel_after W cfg cid k i)
    = (Inr (failures + length (filter (\<lambda>j. fst (run_status (nth_run W cfg cid k j)) \<noteq> ''ok'') [Suc i..<Suc (i + left)])),
       map (\<lambda>j. bench_row j (dur j) (nth_run W cfg cid k j)) [Suc i..<Suc (i + left)], kernel_after W cfg cid k (i + left))"
proof (induction left arbitrary: i failures)
  case 0
  then show ?case by simp
next
  case (Suc left)
  have "benchmarkHandshakeOnce (W (Suc i)) cfg cid (kernel_after W cfg cid k i) = (nth_run W cfg cid k (Suc i), kernel_after W cfg cid k (Suc i))"
    by (simp add: nth_run_def)
  moreover have "[Suc i..<Suc (i + Suc left)] = Suc i # [Suc (Suc i)..<Suc (Suc i + left)]" by (simp add: upt_rec [of "Suc i"])
  ultimately show ?case using Suc [of "Suc i"] by (simp add: Let_def del: upt_Suc kernel_after.simps)
qed

text \<open>A run counts as \<open>ok\<close> exactly when the handshake ended without an error and with an authorized tunnel.\<close>

lemma run_status_ok: "fst (run_status (res, err)) = ''ok'' \<longleftrightarrow> err = None \<and> rs_Authorized (hr_Response res) \<and> rs_Tunnel (hr_Response res) \<noteq> None"
  by (auto simp: run_status_def split: option.split)

lemma ok_attested:
  assumes "fst (run_status (nth_run W cfg cid k i)) = ''ok''"
  shows "\<exists>rq t. client_prepare (W i) cfg cid = Inr rq \<and> rs_Tunnel (hr_Response (fst (nth_run W cfg cid k i))) = Some t
    \<and> verifyTunnelAttestation (cw_prims (W i)) (cw_env (W i)) (cw_clock (W i) 1) cfg cid (rq_payload rq) t = Inr ()"
proof -
  obtain res err k' where b: "benchmarkHandshakeOnce (W i) cfg cid (kernel_after W cfg cid k (i - 1)) = ((res, err), k')" by (metis prod.collapse)
  then have r: "nth_run W cfg cid k i = (res, err)" by (simp add: nth_run_def)
  have "k' \<noteq> kernel_after W cfg cid k (i - 1) \<or> err = None \<and> rs_Authorized (hr_Response res) \<and> rs_Tunnel (hr_Response res) \<noteq> None"
    using assms run_status_ok [of res err] by (simp add: r)
  with b show ?thesis by (rule handshake_kernel) (use r in auto)
qed

lemma sort_results: "sort_key rr_Run (map (\<lambda>i. fst (rate_run fl sc cfg cid Ws i k)) [1..<Suc n]) = map (\<lambda>i. fst (rate_run fl sc cfg cid Ws i k)) [1..<Suc n]"
proof (rule sort_key_id_if_sorted)
  have "map rr_Run (map (\<lambda>i. fst (rate_run fl sc cfg cid Ws i k)) [1..<Suc n]) = [1..<Suc n]" by (simp add: comp_def del: upt_Suc)
  then show "sorted (map rr_Run (map (\<lambda>i. fst (rate_run fl sc cfg cid Ws i k)) [1..<Suc n]))" using sorted_upt by (simp del: upt_Suc)
qed

subsection \<open>Properties\<close>

text \<open>
  The sequential benchmark reports what happened: when the file can be written, it holds the
  header and one row for every run in order, each made from the handshake in the kernel that the
  runs before left, and the exit status is 0 exactly when every run is \<open>ok\<close>; a run that is \<open>ok\<close>
  passed the attestation check of the client.
\<close>
theorem bench_report_exact:
  assumes "0 < n"
  shows "benchHandshake W dur None (\<lambda>_. None) n cfg cid k
      = (if \<forall>i\<in>{1..nat n}. fst (run_status (nth_run W cfg cid k i)) = ''ok'' then Finished else Exit1,
         bench_header # map (\<lambda>i. bench_row i (dur i) (nth_run W cfg cid k i)) [1..<Suc (nat n)], kernel_after W cfg cid k (nat n))
    \<and> (\<forall>i. fst (run_status (nth_run W cfg cid k i)) = ''ok'' \<longrightarrow>
        (\<exists>rq t. client_prepare (W i) cfg cid = Inr rq \<and> rs_Tunnel (hr_Response (fst (nth_run W cfg cid k i))) = Some t
          \<and> verifyTunnelAttestation (cw_prims (W i)) (cw_env (W i)) (cw_clock (W i) 1) cfg cid (rq_payload rq) t = Inr ()))"
proof -
  have "length (filter (\<lambda>j. fst (run_status (nth_run W cfg cid k j)) \<noteq> ''ok'') [1..<Suc (nat n)]) > 0
    \<longleftrightarrow> \<not> (\<forall>i\<in>{1..nat n}. fst (run_status (nth_run W cfg cid k i)) = ''ok'')"
    by (auto simp: filter_empty_conv simp del: upt_Suc)
  with bench_loop_exact [where i = 0 and k = k and failures = 0 and left = "nat n" and W = W and cfg = cfg and cid = cid and dur = dur] assms
  show ?thesis using ok_attested [of W cfg cid k] by (simp add: benchHandshake_def del: upt_Suc)
qed

theorem bench_report_exact_witness:
  "\<exists>resp. fst (benchHandshake (\<lambda>_. hs_client resp) (\<lambda>_. 1500) None (\<lambda>_. None) 1 hs_cfg ex_client ()) = Finished"
proof -
  obtain resp rq where "client_prepare (hs_client resp) hs_cfg ex_client = Inr rq" and b: "benchmarkHandshakeOnce (hs_client resp) hs_cfg ex_client ()
      = ((\<lparr>hr_Response = access_response hs_D resp, hr_PacketHash = br_PacketHash (rq_spa rq)\<rparr>, None), ())" using hs_benchmark by blast
  then have "\<forall>i\<in>{1..nat 1}. fst (run_status (nth_run (\<lambda>_. hs_client resp) hs_cfg ex_client () i)) = ''ok''"
    by (simp add: nth_run_def run_status_ok access_response_def)
  then have "fst (benchHandshake (\<lambda>_. hs_client resp) (\<lambda>_. 1500) None (\<lambda>_. None) 1 hs_cfg ex_client ()) = Finished"
    using bench_report_exact [of 1 "\<lambda>_. hs_client resp" "\<lambda>_. 1500" hs_cfg ex_client "()"] by simp
  then show ?thesis by blast
qed

text \<open>
  (C32) The pool completes: with valid flags, under any interleaving of launches and completions, the
  runs in flight never exceed the semaphore, the kernel is not touched, every execution that has not
  made \<open>2 * n\<close> steps can go on and none makes more, and after \<open>2 * n\<close> steps every slot of the results
  holds the outcome of its own run, in the order of the runs.
\<close>
theorem rate_pool_complete:
  assumes "rate_guards env fl = Inr sc" "\<And>i. cw_env (rw_client (Ws i)) = env"
    and "(rate_step (rate_run fl sc cfg cid Ws) (nat (rf_n fl)) (nat (rf_maxInflight fl)) ^^ m) (rate_init (nat (rf_n fl)) k) s"
  shows "length (rt_inflight s) \<le> nat (rf_maxInflight fl) \<and> rt_kernel s = k \<and> m \<le> 2 * nat (rf_n fl)
    \<and> (m < 2 * nat (rf_n fl) \<longrightarrow> (\<exists>s'. rate_step (rate_run fl sc cfg cid Ws) (nat (rf_n fl)) (nat (rf_maxInflight fl)) s s'))
    \<and> (m = 2 * nat (rf_n fl) \<longrightarrow> rate_done (nat (rf_n fl)) s
         \<and> rt_results s = map (\<lambda>i. fst (rate_run fl sc cfg cid Ws i k)) [1..<Suc (nat (rf_n fl))])"
proof -
  let ?result = "\<lambda>i. fst (rate_run fl sc cfg cid Ws i k)" and ?n = "nat (rf_n fl)" and ?M = "nat (rf_maxInflight fl)"
  let ?good = "pool_good (rate_run fl sc cfg cid Ws) ?result k ?n ?M"
  have init: "?good (rate_init ?n k)" "pool_left ?n (rate_init ?n k) = 2 * ?n"
    using guards_dry(3) [OF assms(1)] run_dry [OF assms(1,2)]
    by (simp_all add: pool_good_def pool_inv_init) (simp add: pool_left_def rate_init_def)
  have p: "pool_inv ?result k ?n ?M s" "pool_left ?n s + m = 2 * ?n"
    using pool.inv_run [OF assms(3) init(1)] pool.left_run [OF assms(3) init(1)] init(2) by (simp_all add: pool_good_def)
  have "m < 2 * ?n \<longrightarrow> (\<exists>s'. rate_step (rate_run fl sc cfg cid Ws) ?n ?M s s')"
    using pool.continues [OF assms(3) init(1)] init(2) by simp
  moreover have "m = 2 * ?n \<longrightarrow> rate_done ?n s \<and> rt_results s = map ?result [1..<Suc ?n]"
    using p(2) pool_left_zero [OF p(1)] pool_results [OF p(1)] by (auto simp del: upt_Suc)
  ultimately show ?thesis using p by (simp add: pool_inv_def del: upt_Suc)
qed

definition ex_flags :: rate_flags where
  "ex_flags = \<lparr>rf_n = 1, rf_ratePositive = True, rf_rateText = ''10.000'', rf_scenario = ''random'', rf_maxInflight = 1\<rparr>"

definition ex_rate :: "unit rate_world" where
  "ex_rate = \<lparr>rw_client = (hs_client dry_response)\<lparr>cw_env := [''XFRM_MODE'' \<mapsto> ''dry-run'']\<rparr>, rw_psk = None, rw_packet = Some (replicate 251 0),
     rw_net = (\<lambda>_ _. Inr ReadTimeout), rw_startOffset = 0, rw_duration = 100000\<rparr>"

theorem rate_pool_complete_witness:
  "\<exists>s. (rate_step (rate_run ex_flags ''random'' hs_cfg ex_client (\<lambda>_. ex_rate)) 1 1 ^^ 2) (rate_init 1 ()) s \<and> rate_done 1 s
     \<and> rt_results s = [fst (rate_run ex_flags ''random'' hs_cfg ex_client (\<lambda>_. ex_rate) 1 ())]"
proof -
  let ?run = "rate_run ex_flags ''random'' hs_cfg ex_client (\<lambda>_. ex_rate)"
  have g: "rate_guards [''XFRM_MODE'' \<mapsto> ''dry-run''] ex_flags = Inr ''random''" by code_simp
  obtain s1 where s1: "rate_step ?run 1 1 (rate_init 1 ()) s1" "1 \<in> set (rt_inflight s1)"
    using launch [of "rate_init 1 ()" 1 1 ?run] by (auto simp: rate_init_def)
  obtain r k' where "?run 1 (rt_kernel s1) = (r, k')" by (cases "?run 1 (rt_kernel s1)")
  from finish [where run = ?run and n = 1 and maxInflight = 1, OF s1(2) this] s1(1) obtain s2 where s2: "(rate_step ?run 1 1 ^^ 2) (rate_init 1 ()) s2"
    by (auto simp: numeral_2_eq_2)
  have n: "nat (rf_n ex_flags) = 1" "nat (rf_maxInflight ex_flags) = 1" by (simp_all add: ex_flags_def)
  have "rate_done 1 s2 \<and> rt_results s2 = map (\<lambda>i. fst (?run i ())) [1..<Suc 1]"
    using rate_pool_complete [where Ws = "\<lambda>_. ex_rate" and cfg = hs_cfg and cid = ex_client and k = "()" and m = 2, OF g, of s2] s2
    by (simp add: n del: upt_Suc) (simp add: ex_rate_def)
  with s2 show ?thesis by auto
qed

text \<open>
  The report of the pool: the rows come in the order of the runs, and the exit status is 0
  exactly when every run is \<open>ok\<close>.
\<close>
theorem rate_report_exact:
  "rate_report None (map (\<lambda>i. fst (rate_run fl sc cfg cid Ws i k)) [1..<Suc n])
    = (if \<forall>i\<in>{1..n}. rr_Status (fst (rate_run fl sc cfg cid Ws i k)) = ''ok'' then Finished else Exit1,
       rate_header # map (\<lambda>i. rate_row (fst (rate_run fl sc cfg cid Ws i k))) [1..<Suc n])"
proof -
  have "filter (\<lambda>i. rr_Status (fst (rate_run fl sc cfg cid Ws i k)) \<noteq> ''ok'') [1..<Suc n] = []
    \<longleftrightarrow> (\<forall>i\<in>{1..n}. rr_Status (fst (rate_run fl sc cfg cid Ws i k)) = ''ok'')"
    by (auto simp: filter_empty_conv simp del: upt_Suc)
  then show ?thesis unfolding rate_report_def sort_results Let_def by (simp add: comp_def filter_map del: upt_Suc One_nat_def)
qed


end
