(* ===== verification/Spa_Send.thy ===== *)
theory Spa_Send
  imports Handshake
begin

unbundle bit_operations_syntax

text \<open>
  The packet tool, \<^verbatim>\<open>tools/spa-send/main.go\<close>: it builds, stores, replays, corrupts and invents SPA packets
  and sends them to the PDP. The random source, the clock and \<^verbatim>\<open>encoding/json\<close> are those of
  \<open>client_world\<close>, the network is a function of the address and the datagram. \<^verbatim>\<open>log.Fatal\<close> is \<open>None\<close>.
\<close>

record sender_config =
  sc_PDPUDPAddr :: string
  sc_PDPStaticPub :: string
  sc_ServiceID :: string
  sc_AEADSuites :: "string list option" \<comment> \<open>\<open>None\<close>: the nil slice\<close>

subsection \<open>Packets\<close>

definition buildPacket :: "'k client_world \<Rightarrow> sender_config \<Rightarrow> ClientIdentity \<Rightarrow> duration \<Rightarrow> bytes option" where
  "buildPacket W cfg cid offset =
     (case GenerateX25519KeyPair (cw_prims W) (cw_rand W 0) of None \<Rightarrow> None
      | Some eph \<Rightarrow>
        (case GenerateSPI (cw_rand W 1) of None \<Rightarrow> None
         | Some clientInSPI \<Rightarrow>
           let payload = \<lparr>ap_ServiceID = sc_ServiceID cfg, ap_ClientInSPI = clientInSPI, ap_ClientDHPub = kp_PublicB64 eph,
                          ap_AEADSuites = slice (sc_AEADSuites cfg)\<rparr> in
           (case cw_marshal W payload of None \<Rightarrow> None
            | Some payloadBytes \<Rightarrow>
              let spaTime = cw_clock W 0 + offset in
              (case BuildIKpsk1SPA (cw_prims W) (cw_rand W 2) cid (sc_PDPStaticPub cfg) payloadBytes spaTime of
                 Inl err \<Rightarrow> None | Inr spa \<Rightarrow> Some (br_Packet spa)))))"

text \<open>The request in the clear: \<^verbatim>\<open>encoding/json\<close> prints the keys of a map in order.\<close>

definition buildClearJSON :: "'k client_world \<Rightarrow> sender_config \<Rightarrow> ClientIdentity \<Rightarrow> bytes option" where
  "buildClearJSON W cfg cid =
     (case GenerateX25519KeyPair (cw_prims W) (cw_rand W 0) of None \<Rightarrow> None
      | Some eph \<Rightarrow>
        (case GenerateSPI (cw_rand W 1) of None \<Rightarrow> None
         | Some clientInSPI \<Rightarrow>
           Some (str_bytes (json_print (JObj
             [(''aead_suites'', case sc_AEADSuites cfg of None \<Rightarrow> JNull | Some xs \<Rightarrow> json_strs xs), (''client_dh_pub'', JStr (kp_PublicB64 eph)),
              (''client_in_spi'', JStr clientInSPI), (''client_pubkey'', JStr (cid_ClientStaticPub cid)),
              (''service_id'', JStr (sc_ServiceID cfg))])))))"

text \<open>The byte range of a part of a packet of \<open>n\<close> bytes.\<close>

definition part_range :: "string \<Rightarrow> int \<Rightarrow> (int \<times> int) option" where
  "part_range part n =
     (if part = ''epub'' then Some (0, min 32 n)
      else if part = ''ns'' then Some (32, min 88 n)
      else if part = ''nm'' then Some (min 88 n, n)
      else if part = ''random'' then Some (0, n)
      else None)"

text \<open>A huge index wraps around and is negative: the assignment panics.\<close>

definition corruptPacket :: "bytes \<Rightarrow> string \<Rightarrow> int \<Rightarrow> bytes option" where
  "corruptPacket packet part index =
     (if packet = [] then None
      else case part_range part (int (length packet)) of None \<Rightarrow> None
      | Some (start, limit) \<Rightarrow>
        if start \<ge> limit then None
        else let pos = (if index \<ge> 0 then wrap64 (start + index) else start) in
          if index \<ge> 0 \<and> pos \<ge> limit then None
          else if pos < 0 then None
          else Some (packet[nat pos := packet ! nat pos XOR 1]))"

definition randomPacket :: "(nat \<Rightarrow> bytes option) \<Rightarrow> int \<Rightarrow> bytes option" where
  "randomPacket rand n = (if n < 0 then None else rand (nat n))"

subsection \<open>Sending\<close>

text \<open>
  The network: an error before the datagram is written, or the result of the read (an error or a
  reply). What the tool prints is the end of a transmission.
\<close>

type_synonym network = "string \<Rightarrow> bytes \<Rightarrow> string + (string + bytes)"

datatype send_end = SendFailed string | NotWaiting | Silent string | Answered nat string

definition sendPacket :: "network \<Rightarrow> string \<Rightarrow> bytes \<Rightarrow> bool \<Rightarrow> send_end" where
  "sendPacket net addr packet wait =
     (case net addr packet of Inl err \<Rightarrow> SendFailed err
      | Inr reply \<Rightarrow>
        if \<not> wait then NotWaiting
        else (case reply of Inl err \<Rightarrow> Silent err | Inr buf \<Rightarrow> Answered (length buf) (base64_EncodeToString buf)))"

record spa_flags =
  fl_mode :: string
  fl_packet :: string
  fl_timestampOffset :: duration
  fl_service :: string
  fl_psk :: string
  fl_count :: int
  fl_randomSize :: int
  fl_wait :: bool
  fl_corruptPart :: string
  fl_corruptIndex :: int

text \<open>A run: the transmissions, the files, and whether it ended without \<^verbatim>\<open>log.Fatal\<close>.\<close>

type_synonym spa_run = "(bytes \<times> send_end) list \<times> (string \<Rightarrow> bytes option) \<times> bool"

definition send_run :: "network \<Rightarrow> string \<Rightarrow> bool \<Rightarrow> (string \<Rightarrow> bytes option) \<Rightarrow> bytes option \<Rightarrow> spa_run" where
  "send_run net addr wait files packet =
     (case packet of None \<Rightarrow> ([], files, False)
      | Some packet \<Rightarrow>
        let e = sendPacket net addr packet wait in
        ([(packet, e)], files, case e of SendFailed _ \<Rightarrow> False | _ \<Rightarrow> True))"

text \<open>The draws of the loop: \<open>rand i n\<close> fills the buffer of \<open>n\<close> bytes of iteration \<open>i\<close>.\<close>

fun random_loop :: "(nat \<Rightarrow> nat \<Rightarrow> bytes option) \<Rightarrow> int \<Rightarrow> network \<Rightarrow> string \<Rightarrow> bool \<Rightarrow> nat \<Rightarrow> nat \<Rightarrow> (bytes \<times> send_end) list \<times> bool" where
  "random_loop rand n net addr wait i 0 = ([], True)"
| "random_loop rand n net addr wait i (Suc left) =
     (case randomPacket (rand i) n of None \<Rightarrow> ([], False)
      | Some packet \<Rightarrow>
        (case sendPacket net addr packet wait of
           SendFailed err \<Rightarrow> ([(packet, SendFailed err)], False)
         | e \<Rightarrow> (case random_loop rand n net addr wait (Suc i) left of (ps, ok) \<Rightarrow> ((packet, e) # ps, ok))))"

text \<open>\<open>wr\<close> is \<^verbatim>\<open>os.WriteFile\<close>: whether the write succeeds.\<close>

definition spa_send_main ::
  "'k client_world \<Rightarrow> (nat \<Rightarrow> nat \<Rightarrow> bytes option) \<Rightarrow> network \<Rightarrow> bool \<Rightarrow> spa_flags \<Rightarrow> sender_config \<Rightarrow> ClientIdentity
    \<Rightarrow> (string \<Rightarrow> bytes option) \<Rightarrow> spa_run" where
  "spa_send_main W rand net wr fl cfg cid files =
     (let cfg = (if fl_service fl \<noteq> '''' then cfg\<lparr>sc_ServiceID := fl_service fl\<rparr> else cfg);
          cid = (if fl_psk fl \<noteq> '''' then cid\<lparr>cid_SPAPSK := fl_psk fl\<rparr> else cid);
          send = send_run net (sc_PDPUDPAddr cfg) (fl_wait fl) files in
      if fl_mode fl = ''build'' then
        (case buildPacket W cfg cid (fl_timestampOffset fl) of None \<Rightarrow> ([], files, False)
         | Some packet \<Rightarrow> if wr then ([], files(fl_packet fl \<mapsto> packet), True) else ([], files, False))
      else if fl_mode fl = ''send'' then send (buildPacket W cfg cid (fl_timestampOffset fl))
      else if fl_mode fl = ''replay'' then send (files (fl_packet fl))
      else if fl_mode fl = ''random'' then
        (case random_loop rand (fl_randomSize fl) net (sc_PDPUDPAddr cfg) (fl_wait fl) 0 (nat (fl_count fl)) of
           (ps, ok) \<Rightarrow> (ps, files, ok))
      else if fl_mode fl = ''corrupt'' then
        send (case files (fl_packet fl) of None \<Rightarrow> None | Some packet \<Rightarrow> corruptPacket packet (fl_corruptPart fl) (fl_corruptIndex fl))
      else if fl_mode fl = ''json'' then send (buildClearJSON W cfg cid)
      else ([], files, False))"

subsection \<open>Lemmas\<close>

text \<open>The position that \<open>corruptPacket\<close> changes depends on the length of the packet only.\<close>

definition corrupt_pos :: "string \<Rightarrow> int \<Rightarrow> nat \<Rightarrow> nat option" where
  "corrupt_pos part index n =
     (case part_range part (int n) of None \<Rightarrow> None
      | Some (start, limit) \<Rightarrow>
        let pos = (if index \<ge> 0 then wrap64 (start + index) else start) in
        if start \<ge> limit \<or> index \<ge> 0 \<and> pos \<ge> limit \<or> pos < 0 then None else Some (nat pos))"

lemma corruptPacket_alt:
  "corruptPacket packet part index =
     (if packet = [] then None
      else map_option (\<lambda>pos. packet[pos := packet ! pos XOR 1]) (corrupt_pos part index (length packet)))"
  by (auto simp: corruptPacket_def corrupt_pos_def Let_def split: option.split)

lemma part_range_bounds: "part_range part n = Some (start, limit) \<Longrightarrow> 0 \<le> n \<Longrightarrow> 0 \<le> start \<and> start \<le> max 88 n \<and> limit \<le> n \<and> start \<le> 88"
  by (auto simp: part_range_def split: if_splits)

lemma wrap64_add:
  assumes "0 \<le> a" "a \<le> 88" "0 \<le> i" "i < 2 ^ 63"
  shows "wrap64 (a + i) = a + i \<or> wrap64 (a + i) < 0"
proof (cases "a + i < 2 ^ 63")
  case True
  with assms show ?thesis by (simp add: wrap64_id)
next
  case False
  have "(a + i + 2 ^ 63) mod 2 ^ 64 = ((a + i - 2 ^ 63) + 2 ^ 64) mod (2 ^ 64 :: int)" by (simp add: add.commute)
  also have "\<dots> = (a + i - 2 ^ 63) mod 2 ^ 64" by (rule mod_add_self2)
  also have "\<dots> = a + i - 2 ^ 63" using assms False by (intro mod_pos_pos_trivial) simp_all
  finally have "(a + i + 2 ^ 63) mod 2 ^ 64 = a + i - 2 ^ 63" .
  with assms show ?thesis by (simp add: wrap64_def)
qed

lemma corrupt_pos_range:
  assumes "corrupt_pos part index n = Some pos" "index < 2 ^ 63"
  shows "\<exists>start limit. part_range part (int n) = Some (start, limit) \<and> start \<le> int pos \<and> int pos < limit \<and> pos < n"
proof -
  from assms(1) obtain start limit where r: "part_range part (int n) = Some (start, limit)" by (auto simp: corrupt_pos_def split: option.splits)
  note b = part_range_bounds [OF r]
  have "start \<le> int pos \<and> int pos < limit"
    using assms b r wrap64_add [of start index] by (auto simp: corrupt_pos_def Let_def split: if_splits)
  with r b show ?thesis by force
qed

lemma flip_flip: "(x XOR 1) XOR 1 = (x :: byte)" by (simp add: xor.assoc)

lemma flip_other: "x XOR 1 \<noteq> (x :: byte)"
proof
  assume e: "x XOR 1 = x"
  have "x XOR (x XOR 1) = 1" by (simp add: xor.assoc [symmetric])
  with e show False by simp
qed

text \<open>The tool builds the packet of the client, with its clock moved by the offset.\<close>

definition config_of :: "sender_config \<Rightarrow> ClientConfig" where
  "config_of cfg = \<lparr>cc_PDPUDPAddr = sc_PDPUDPAddr cfg, cc_PDPStaticPub = sc_PDPStaticPub cfg, cc_ServiceID = sc_ServiceID cfg,
     cc_AEADSuites = slice (sc_AEADSuites cfg), cc_VerifierPubKey = '''', cc_ExpectedPolicyHash = '''', cc_AttestationRequired = False\<rparr>"

lemma buildPacket_client:
  "buildPacket W cfg cid offset =
     (case client_prepare (W\<lparr>cw_clock := (\<lambda>n. cw_clock W n + offset)\<rparr>) (config_of cfg) cid of
        Inl _ \<Rightarrow> None | Inr rq \<Rightarrow> Some (br_Packet (rq_spa rq)))"
  by (simp add: buildPacket_def client_prepare_def config_of_def rbind_def of_opt_def Let_def split: option.split sum.split)

lemma buildPacket_elim:
  assumes "buildPacket W cfg cid offset = Some packet"
  obtains pl pb b where "cw_marshal W pl = Some pb"
    "BuildIKpsk1SPA (cw_prims W) (cw_rand W 2) cid (sc_PDPStaticPub cfg) pb (cw_clock W 0 + offset) = Inr b" "packet = br_Packet b"
  using assms by (auto simp: buildPacket_def Let_def split: option.splits sum.splits)

text \<open>A packet whose header the PDP refuses has no effect on the PEP.\<close>

lemma header_refused:
  assumes "OpenIKpsk1SPAHeader (d_prims D) packet (d_identity D) now spaSkew = Inl err"
  shows "fst (handleUDPPacket D ip packet now fin s) = None \<and> pd_world (snd (handleUDPPacket D ip packet now fin s)) = pd_world s"
  using assms by (simp add: handleUDPPacket_def handle_open_def Let_def case_prod_beta)

subsection \<open>Properties\<close>

text \<open>
  A corruption flips one bit: the result has the length of the packet and differs from it in the
  lowest bit of one byte, which lies in the chosen part; the same corruption applied again gives the
  packet back. The index is an \<^verbatim>\<open>int\<close> of 64 bits.
\<close>
theorem corrupt_one_bit:
  assumes "corruptPacket packet part index = Some out" "index < 2 ^ 63"
  shows "\<exists>pos start limit. part_range part (int (length packet)) = Some (start, limit) \<and> start \<le> int pos \<and> int pos < limit
    \<and> pos < length packet \<and> out = packet[pos := packet ! pos XOR 1] \<and> out \<noteq> packet \<and> corruptPacket out part index = Some packet"
proof -
  from assms(1) obtain pos where pos: "corrupt_pos part index (length packet) = Some pos" "packet \<noteq> []"
    and out: "out = packet[pos := packet ! pos XOR 1]"
    by (auto simp: corruptPacket_alt split: if_splits)
  from corrupt_pos_range [OF pos(1) assms(2)] obtain start limit where
    r: "part_range part (int (length packet)) = Some (start, limit)" "start \<le> int pos" "int pos < limit" "pos < length packet" by blast
  have "out ! pos \<noteq> packet ! pos" using r(4) flip_other by (simp add: out)
  then have "out \<noteq> packet" by metis
  moreover have "corruptPacket out part index = Some packet" using pos r(4) by (auto simp: corruptPacket_alt out flip_flip)
  ultimately show ?thesis using r out by blast
qed

theorem corrupt_one_bit_witness:
  "corruptPacket [1, 2, 3] ''epub'' 1 = Some [1, 3, 3] \<and> corruptPacket [1, 3, 3] ''epub'' 1 = Some [1, 2, 3]"
proof -
  have c: "corruptPacket [1, 2, 3] ''epub'' 1 = Some [1, 3, 3]"
    by (simp add: corruptPacket_def part_range_def wrap64_def Let_def)
  from corrupt_one_bit [OF c] c show ?thesis by auto
qed

text \<open>
  A datagram of the wrong size is dropped whatever it holds: with fewer than 104 or more than 1200
  bytes, in the buffer of 2048 bytes too, nothing is answered and the PEP is not asked.
\<close>
theorem wrong_size_dropped:
  assumes "length datagram < 104 \<or> length datagram > 1200"
  shows "fst (receiveUDP D ip datagram now fin s) = None \<and> pd_world (snd (receiveUDP D ip datagram now fin s)) = pd_world s"
proof -
  have "OpenIKpsk1SPAHeader (d_prims D) (take 2048 datagram) (d_identity D) now spaSkew = Inl ErrInvalidPacket"
    using assms by (auto simp: OpenIKpsk1SPAHeader_def spa_lens)
  from header_refused [OF this] show ?thesis by (simp add: receiveUDP_def)
qed

theorem wrong_size_dropped_witness: "fst (receiveUDP hs_D ''192.0.2.9'' (replicate 3000 0) 0 0 hs_state) = None"
  using wrong_size_dropped [of "replicate 3000 0" hs_D "''192.0.2.9''" 0 0 hs_state] by simp

text \<open>
  (C35) A packet from the wrong time is dropped: when the tool moves the timestamp by more than the
  allowed skew, beyond the distance of the two clocks and the millisecond that is cut off, the PDP
  neither answers nor asks the PEP, although keys, service and PSK are right.
\<close>
theorem stale_packet_dropped:
  assumes "crypto_ok (d_prims D)" "cw_prims W = d_prims D" "enrolled D cid cpk info"
    and "sc_PDPStaticPub cfg = pid_PDPStaticPub (d_identity D)" "buildPacket W cfg cid offset = Some packet"
    and "\<forall>pl pb. cw_marshal W pl = Some pb \<longrightarrow> length pb \<le> 1096"
    and "- (2 ^ 63) \<le> UnixMilli (cw_clock W 0 + offset)" "UnixMilli (cw_clock W 0 + offset) < 2 ^ 63"
    and "\<bar>offset\<bar> > spaSkew + \<bar>now - cw_clock W 0\<bar> + 1000000"
  shows "fst (handleUDPPacket D ip packet now fin s) = None \<and> pd_world (snd (handleUDPPacket D ip packet now fin s)) = pd_world s"
proof -
  let ?t = "cw_clock W 0 + offset"
  obtain pl pb b where b: "cw_marshal W pl = Some pb"
    "BuildIKpsk1SPA (cw_prims W) (cw_rand W 2) cid (sc_PDPStaticPub cfg) pb ?t = Inr b" "packet = br_Packet b"
    using assms(5) by (rule buildPacket_elim)
  from assms(3) obtain csk ppk psk where k: "decodeB64 (cid_ClientStaticPub cid) 32 = Inr cpk" "decodeB64 (cid_ClientStaticPriv cid) 32 = Inr csk"
      "curve25519_X25519 (d_prims D) csk curve25519_Basepoint = Some cpk"
      "decodeB64 (pid_PDPStaticPub (d_identity D)) 32 = Inr ppk" "decodeB64 (pid_PDPStaticPriv (d_identity D)) 32 = Inr psk"
      "curve25519_X25519 (d_prims D) psk curve25519_Basepoint = Some ppk"
    by (auto simp: enrolled_def static_pair_def)
  have "0 \<le> ?t mod 1000000" "?t mod 1000000 < 1000000" by simp_all
  moreover have "time_UnixMilli (UnixMilli ?t) = ?t - ?t mod 1000000" by (simp add: time_UnixMilli_def UnixMilli_def minus_mod_eq_div_mult)
  ultimately have far: "\<bar>now - time_UnixMilli (UnixMilli ?t)\<bar> > spaSkew" using assms(9) by linarith
  have skew: "spaSkew < max_duration" by (simp add: spaSkew_def Second_def max_duration_def)
  have "length pb \<le> 1096" using assms(6) b(1) by blast
  from open_stale [OF b(2) [unfolded assms(2,4)] _ _ _ _ k this assms(7,8) skew far] assms(1)
  have "OpenIKpsk1SPAHeader (d_prims D) packet (d_identity D) now spaSkew = Inl SPAInvalidTime" by (simp add: crypto_ok_def b(3))
  then show ?thesis by (rule header_refused)
qed

definition hs_sender :: sender_config where
  "hs_sender = \<lparr>sc_PDPUDPAddr = ''192.0.2.2:4000'', sc_PDPStaticPub = pid_PDPStaticPub ex_pdp, sc_ServiceID = ''svc-http'', sc_AEADSuites = None\<rparr>"

lemma hs_buildPacket: "\<exists>packet. buildPacket (hs_client resp) hs_sender ex_client offset = Some packet"
proof -
  have spi: "GenerateSPI (Some [1, 2, 3, 4]) = Some (''0x'' @ hex08 (be32_get [1, 2, 3, 4]))" by (simp add: GenerateSPI_def Let_def)
  have x: "curve25519_X25519 demo_prims u v = Some (replicate 32 1)" for u v by (simp add: demo_prims_def)
  have "\<exists>b. BuildIKpsk1SPA demo_prims (Some (replicate 32 7)) ex_client (pid_PDPStaticPub ex_pdp) [1, 2] (ex_now + offset) = Inr b"
    by (rule build_succeeds) (auto simp: ex_client_def ex_pdp_def x)
  then obtain b where b: "BuildIKpsk1SPA demo_prims (Some (replicate 32 7)) ex_client (pid_PDPStaticPub ex_pdp) [1, 2] (ex_now + offset) = Inr b" ..
  show ?thesis by (simp add: buildPacket_def hs_client_def hs_sender_def demo_kdfs spi b Let_def)
qed

theorem stale_packet_dropped_witness:
  "\<exists>packet. buildPacket (hs_client dry_response) hs_sender ex_client (30 * Second) = Some packet
     \<and> fst (handleUDPPacket hs_D ''192.0.2.9'' packet ex_now 0 hs_state) = None"
proof -
  obtain packet where b: "buildPacket (hs_client dry_response) hs_sender ex_client (30 * Second) = Some packet" using hs_buildPacket by blast
  have d: "crypto_ok (d_prims hs_D)" "enrolled hs_D ex_client (replicate 32 1) (ex_info\<lparr>ci_PSK := base64_EncodeToString (replicate 32 5)\<rparr>)"
    using hs_deployed [of dry_response] by (simp_all add: deployed_def)
  have w: "cw_prims (hs_client dry_response) = d_prims hs_D" "sc_PDPStaticPub hs_sender = pid_PDPStaticPub (d_identity hs_D)"
    "cw_clock (hs_client dry_response) 0 = ex_now" "cw_marshal (hs_client dry_response) pl = Some [1, 2]" for pl
    by (simp_all add: hs_client_def hs_D_def hs_sender_def)
  have "fst (handleUDPPacket hs_D ''192.0.2.9'' packet ex_now 0 hs_state) = None"
    using stale_packet_dropped [OF d(1) w(1) d(2) w(2) b, of ex_now "''192.0.2.9''" 0 hs_state]
    by (simp add: w UnixMilli_def spaSkew_def Second_def)
  with b show ?thesis by blast
qed

end
