(* ===== verification/Natt.thy ===== *)
theory Natt
  imports Go_Strings
begin

text \<open>
  \<^verbatim>\<open>common/nattutil\<close> and \<^verbatim>\<open>tools/natt-listener\<close>: the UDP socket that hands ESP packets to the kernel. The
  descriptors that are open in the process are a table, indexed by the descriptor; \<^verbatim>\<open>socket\<close> takes the
  lowest free one. Every system call may fail for a reason outside the process, which the parameter
  \<open>flt\<close> gives, or because its descriptor is not open; \<^verbatim>\<open>close\<close> releases the descriptor even if it reports
  an error, as Linux does, and \<^verbatim>\<open>syscall.Bind\<close> refuses a port outside 16 bits.
\<close>

record usocket =
  us_reuse :: bool
  us_encap :: "int option"
  us_bound :: "(byte list \<times> int) option"

type_synonym fdtable = "usocket option list"

datatype syscall = SysSocket | SysSetsockopt int int int int | SysBind int "byte list" int | SysClose int

type_synonym faults = "syscall \<Rightarrow> string option"

definition SOL_SOCKET :: int where "SOL_SOCKET = 1"
definition SO_REUSEADDR :: int where "SO_REUSEADDR = 2"
definition IPPROTO_UDP :: int where "IPPROTO_UDP = 17"

definition fd_get :: "fdtable \<Rightarrow> int \<Rightarrow> usocket option" where
  "fd_get tab fd = (if 0 \<le> fd \<and> nat fd < length tab then tab ! nat fd else None)"

definition fd_put :: "int \<Rightarrow> usocket option \<Rightarrow> fdtable \<Rightarrow> fdtable" where
  "fd_put fd v tab = tab[nat fd := v]"

fun lowest_free :: "fdtable \<Rightarrow> nat" where
  "lowest_free [] = 0"
| "lowest_free (v # tab) = (if v = None then 0 else Suc (lowest_free tab))"

definition new_usocket :: usocket where
  "new_usocket = \<lparr>us_reuse = False, us_encap = None, us_bound = None\<rparr>"

subsection \<open>System calls\<close>

definition syscall_Socket :: "faults \<Rightarrow> fdtable \<Rightarrow> (string + int) \<times> fdtable" where
  "syscall_Socket flt tab =
     (case flt SysSocket of Some e \<Rightarrow> (Inl e, tab)
      | None \<Rightarrow> let n = lowest_free tab in
          (Inr (int n), if n < length tab then tab[n := Some new_usocket] else tab @ [Some new_usocket]))"

definition syscall_SetsockoptInt :: "faults \<Rightarrow> int \<Rightarrow> int \<Rightarrow> int \<Rightarrow> int \<Rightarrow> fdtable \<Rightarrow> string option \<times> fdtable" where
  "syscall_SetsockoptInt flt fd level opt v tab =
     (case fd_get tab fd of None \<Rightarrow> (Some ''bad file descriptor'', tab)
      | Some s \<Rightarrow>
        (case flt (SysSetsockopt fd level opt v) of Some e \<Rightarrow> (Some e, tab)
         | None \<Rightarrow>
           (None, fd_put fd (Some (if level = SOL_SOCKET \<and> opt = SO_REUSEADDR then s\<lparr>us_reuse := (v \<noteq> 0)\<rparr>
                                   else if level = IPPROTO_UDP \<and> opt = 100 then s\<lparr>us_encap := Some v\<rparr>
                                   else s)) tab)))"

definition syscall_Bind :: "faults \<Rightarrow> int \<Rightarrow> byte list \<Rightarrow> int \<Rightarrow> fdtable \<Rightarrow> string option \<times> fdtable" where
  "syscall_Bind flt fd addr port tab =
     (if port < 0 \<or> port > 65535 then (Some ''invalid argument'', tab)
      else case fd_get tab fd of None \<Rightarrow> (Some ''bad file descriptor'', tab)
      | Some s \<Rightarrow>
        (case flt (SysBind fd addr port) of Some e \<Rightarrow> (Some e, tab)
         | None \<Rightarrow> (None, fd_put fd (Some (s\<lparr>us_bound := Some (addr, port)\<rparr>)) tab)))"

definition syscall_Close :: "faults \<Rightarrow> int \<Rightarrow> fdtable \<Rightarrow> string option \<times> fdtable" where
  "syscall_Close flt fd tab =
     (case fd_get tab fd of None \<Rightarrow> (Some ''bad file descriptor'', tab)
      | Some s \<Rightarrow> (flt (SysClose fd), fd_put fd None tab))"

subsection \<open>The socket\<close>

definition udpEncap :: int where "udpEncap = 100"
definition udpEncapESPInUDP :: int where "udpEncapESPInUDP = 2"

record Socket =
  sk_fd :: int
  sk_Port :: int

definition ListenESPInUDP :: "faults \<Rightarrow> int \<Rightarrow> fdtable \<Rightarrow> (string + Socket) \<times> fdtable" where
  "ListenESPInUDP flt port tab =
     (case syscall_Socket flt tab of
        (Inl err, tab) \<Rightarrow> (Inl (''socket udp/'' @ itoa port @ '': '' @ err), tab)
      | (Inr fd, tab) \<Rightarrow>
        (case syscall_SetsockoptInt flt fd SOL_SOCKET SO_REUSEADDR 1 tab of
           (Some err, tab) \<Rightarrow>
             (Inl (''setsockopt reuseaddr udp/'' @ itoa port @ '': '' @ err), snd (syscall_Close flt fd tab))
         | (None, tab) \<Rightarrow>
           (case syscall_SetsockoptInt flt fd IPPROTO_UDP udpEncap udpEncapESPInUDP tab of
              (Some err, tab) \<Rightarrow>
                (Inl (''setsockopt UDP_ENCAP_ESPINUDP udp/'' @ itoa port @ '': '' @ err), snd (syscall_Close flt fd tab))
            | (None, tab) \<Rightarrow>
              (case syscall_Bind flt fd [0, 0, 0, 0] port tab of
                 (Some err, tab) \<Rightarrow> (Inl (''bind udp/'' @ itoa port @ '': '' @ err), snd (syscall_Close flt fd tab))
               | (None, tab) \<Rightarrow> (Inr \<lparr>sk_fd = fd, sk_Port = port\<rparr>, tab)))))"

text \<open>\<^verbatim>\<open>Close\<close> has a pointer receiver, \<open>None\<close> for nil.\<close>

definition Close :: "faults \<Rightarrow> Socket option \<Rightarrow> fdtable \<Rightarrow> string option \<times> Socket option \<times> fdtable" where
  "Close flt s tab =
     (case s of None \<Rightarrow> (None, s, tab)
      | Some sk \<Rightarrow>
        if sk_fd sk < 0 then (None, s, tab)
        else let (err, tab) = syscall_Close flt (sk_fd sk) tab in (err, Some (sk\<lparr>sk_fd := - 1\<rparr>), tab))"

subsection \<open>The listener tool\<close>

text \<open>
  The signals that the process gets; \<^verbatim>\<open>SIGINT\<close> and \<^verbatim>\<open>SIGTERM\<close> end the wait, and the deferred call closes
  the socket. \<open>Listening\<close> is the process that got neither yet.
\<close>

datatype signal = SIGINT | SIGTERM | OtherSignal nat
datatype listener = ListenFailed string | Listening Socket | ListenerStopped

definition natt_listener :: "faults \<Rightarrow> int option \<Rightarrow> signal list \<Rightarrow> fdtable \<Rightarrow> listener \<times> fdtable" where
  "natt_listener flt portFlag signals tab =
     (let port = (case portFlag of None \<Rightarrow> 4500 | Some p \<Rightarrow> p) in
      case ListenESPInUDP flt port tab of
        (Inl err, tab) \<Rightarrow> (ListenFailed err, tab)
      | (Inr sock, tab) \<Rightarrow>
        if SIGINT \<in> set signals \<or> SIGTERM \<in> set signals
        then (ListenerStopped, snd (snd (Close flt (Some sock) tab)))
        else (Listening sock, tab))"

subsection \<open>The table as a map\<close>

lemma lowest_free_le: "lowest_free tab \<le> length tab"
  by (induction tab) auto

lemma lowest_free_None: "lowest_free tab < length tab \<Longrightarrow> tab ! lowest_free tab = None"
  by (induction tab) auto

lemma fd_get_free: "fd_get tab (int (lowest_free tab)) = None"
  by (simp add: fd_get_def lowest_free_None)

lemma fd_get_put: "fd_get tab fd \<noteq> None \<Longrightarrow> fd_get (fd_put fd v tab) = (fd_get tab)(fd := v)"
  by (rule ext) (auto simp: fd_get_def fd_put_def nth_list_update split: if_splits)

lemma socket_get:
  "flt SysSocket = None \<Longrightarrow> \<exists>tab'. syscall_Socket flt tab = (Inr (int (lowest_free tab)), tab')
     \<and> fd_get tab' = (fd_get tab)(int (lowest_free tab) \<mapsto> new_usocket)"
  using lowest_free_le [of tab]
  by (auto simp: syscall_Socket_def Let_def fun_eq_iff fd_get_def nth_list_update nth_append)

lemma socket_fault: "flt SysSocket = Some e \<Longrightarrow> syscall_Socket flt tab = (Inl e, tab)"
  by (simp add: syscall_Socket_def)

lemma close_get:
  "fd_get tab fd \<noteq> None \<Longrightarrow> fd_get (snd (syscall_Close flt fd tab)) = (fd_get tab)(fd := None)"
  by (auto simp: syscall_Close_def fd_get_put)

text \<open>A call on an open socket either reports its fault and changes nothing, or sets the field.\<close>

lemma setsockopt_get:
  assumes "fd_get tab fd = Some s"
  shows "flt (SysSetsockopt fd level opt v) = Some e \<Longrightarrow> syscall_SetsockoptInt flt fd level opt v tab = (Some e, tab)"
    "flt (SysSetsockopt fd level opt v) = None \<Longrightarrow> \<exists>tab'. syscall_SetsockoptInt flt fd level opt v tab = (None, tab')
       \<and> fd_get tab' = (fd_get tab)(fd \<mapsto>
          (if level = SOL_SOCKET \<and> opt = SO_REUSEADDR then s\<lparr>us_reuse := (v \<noteq> 0)\<rparr>
           else if level = IPPROTO_UDP \<and> opt = 100 then s\<lparr>us_encap := Some v\<rparr> else s))"
  using assms by (simp_all add: syscall_SetsockoptInt_def fd_get_put)

lemma bind_get:
  assumes "fd_get tab fd = Some s"
  shows "port < 0 \<or> 65535 < port \<Longrightarrow> syscall_Bind flt fd addr port tab = (Some ''invalid argument'', tab)"
    "\<not> (port < 0 \<or> 65535 < port) \<Longrightarrow> flt (SysBind fd addr port) = Some e \<Longrightarrow> syscall_Bind flt fd addr port tab = (Some e, tab)"
    "\<not> (port < 0 \<or> 65535 < port) \<Longrightarrow> flt (SysBind fd addr port) = None \<Longrightarrow>
       \<exists>tab'. syscall_Bind flt fd addr port tab = (None, tab')
         \<and> fd_get tab' = (fd_get tab)(fd \<mapsto> s\<lparr>us_bound := Some (addr, port)\<rparr>)"
  using assms by (simp_all add: syscall_Bind_def fd_get_put)

text \<open>The calls that must not fail for the socket to come up on descriptor \<open>fd\<close>.\<close>

definition listen_calls :: "int \<Rightarrow> int \<Rightarrow> syscall list" where
  "listen_calls fd port =
     [SysSocket, SysSetsockopt fd SOL_SOCKET SO_REUSEADDR 1, SysSetsockopt fd IPPROTO_UDP udpEncap udpEncapESPInUDP,
      SysBind fd [0, 0, 0, 0] port]"

definition natt_socket :: "int \<Rightarrow> usocket" where
  "natt_socket port = \<lparr>us_reuse = True, us_encap = Some 2, us_bound = Some ([0, 0, 0, 0], port)\<rparr>"

lemma listen_cases:
  fixes tab :: fdtable
  defines "fd \<equiv> int (lowest_free tab)"
  obtains (up) tab' where "ListenESPInUDP flt port tab = (Inr \<lparr>sk_fd = fd, sk_Port = port\<rparr>, tab')"
      "0 \<le> port" "port \<le> 65535" "list_all (\<lambda>c. flt c = None) (listen_calls fd port)"
      "fd_get tab' = (fd_get tab)(fd \<mapsto> natt_socket port)"
  | (down) e tab' where "ListenESPInUDP flt port tab = (Inl e, tab')" "fd_get tab' = fd_get tab"
      "\<not> (0 \<le> port \<and> port \<le> 65535 \<and> list_all (\<lambda>c. flt c = None) (listen_calls fd port))"
proof (cases "flt SysSocket")
  case (Some e)
  then show ?thesis
    by (intro down [of "''socket udp/'' @ itoa port @ '': '' @ e" tab])
       (simp_all add: ListenESPInUDP_def socket_fault listen_calls_def)
next
  case None
  note free = fd_get_free [of tab, folded fd_def]
  from socket_get [where flt = flt and tab = tab, OF None, folded fd_def] obtain t1 where
    t1: "syscall_Socket flt tab = (Inr fd, t1)" "fd_get t1 = (fd_get tab)(fd \<mapsto> new_usocket)" by blast
  then have g1: "fd_get t1 fd = Some new_usocket" by simp
  have close: "fd_get (snd (syscall_Close flt fd t)) = fd_get tab" if "fd_get t = (fd_get tab)(fd \<mapsto> s)" for t s
    using close_get [of t fd flt] that free by (simp add: fun_upd_idem)
  show ?thesis
  proof (cases "flt (SysSetsockopt fd SOL_SOCKET SO_REUSEADDR 1)")
    case (Some e)
    with t1(1) show ?thesis
      by (intro down [OF _ close [OF t1(2)]]) (auto simp: ListenESPInUDP_def setsockopt_get(1) [where flt = flt, OF g1 Some] listen_calls_def)
  next
    case reuse: None
    from setsockopt_get(2) [where flt = flt, OF g1 reuse] t1(2) obtain t2 where
      t2: "syscall_SetsockoptInt flt fd SOL_SOCKET SO_REUSEADDR 1 t1 = (None, t2)"
        "fd_get t2 = (fd_get tab)(fd \<mapsto> new_usocket\<lparr>us_reuse := True\<rparr>)" by auto
    then have g2: "fd_get t2 fd = Some (new_usocket\<lparr>us_reuse := True\<rparr>)" by simp
    show ?thesis
    proof (cases "flt (SysSetsockopt fd IPPROTO_UDP udpEncap udpEncapESPInUDP)")
      case (Some e)
      with t1(1) t2(1) show ?thesis
        by (intro down [OF _ close [OF t2(2)]]) (auto simp: ListenESPInUDP_def setsockopt_get(1) [where flt = flt, OF g2 Some] listen_calls_def)
    next
      case encap: None
      from setsockopt_get(2) [where flt = flt, OF g2 encap] t2(2) obtain t3 where
        t3: "syscall_SetsockoptInt flt fd IPPROTO_UDP udpEncap udpEncapESPInUDP t2 = (None, t3)"
          "fd_get t3 = (fd_get tab)(fd \<mapsto> new_usocket\<lparr>us_reuse := True, us_encap := Some 2\<rparr>)"
        by (auto simp: udpEncap_def udpEncapESPInUDP_def SOL_SOCKET_def IPPROTO_UDP_def)
      then have g3: "fd_get t3 fd = Some (new_usocket\<lparr>us_reuse := True, us_encap := Some 2\<rparr>)" by simp
      note run = ListenESPInUDP_def t1(1) t2(1) t3(1)
      consider (range) "port < 0 \<or> 65535 < port"
        | (busy) e where "\<not> (port < 0 \<or> 65535 < port)" "flt (SysBind fd [0, 0, 0, 0] port) = Some e"
        | (ok) "\<not> (port < 0 \<or> 65535 < port)" "flt (SysBind fd [0, 0, 0, 0] port) = None" by blast
      then show ?thesis
      proof cases
        case range
        then show ?thesis by (intro down [OF _ close [OF t3(2)]]) (auto simp: run bind_get(1) [OF g3 range])
      next
        case busy
        then show ?thesis
          by (intro down [OF _ close [OF t3(2)]]) (auto simp: run bind_get(2) [where flt = flt, OF g3 busy] listen_calls_def)
      next
        case ok
        from bind_get(3) [where flt = flt, OF g3 ok] t3(2) None reuse encap ok show ?thesis
          by (auto intro!: up simp: run listen_calls_def natt_socket_def new_usocket_def)
      qed
    qed
  qed
qed

subsection \<open>Properties\<close>

text \<open>
  (C34) The socket comes up exactly if none of its four calls fails and the port is one. It then is the
  only new descriptor, has the ESP-in-UDP option and is bound to the port on every address; if it
  does not come up, the open descriptors are those of before, whichever call failed.
\<close>
theorem listen_all_or_nothing:
  assumes "ListenESPInUDP flt port tab = (r, tab')"
  shows "(is_ok r \<longleftrightarrow> 0 \<le> port \<and> port \<le> 65535 \<and> list_all (\<lambda>c. flt c = None) (listen_calls (int (lowest_free tab)) port))
    \<and> (case r of Inl e \<Rightarrow> fd_get tab' = fd_get tab
       | Inr s \<Rightarrow> sk_Port s = port \<and> fd_get tab (sk_fd s) = None \<and> fd_get tab' = (fd_get tab)(sk_fd s \<mapsto> natt_socket port))"
  using assms fd_get_free [of tab] by (cases rule: listen_cases [of flt port tab]) auto

text \<open>
  A listener that ended, by an error or by a signal, leaves the descriptors as they were; one that
  waits holds one more, its socket.
\<close>
theorem listener_releases:
  assumes "natt_listener flt portFlag signals tab = (out, tab')"
  shows "case out of Listening s \<Rightarrow> fd_get tab (sk_fd s) = None \<and> fd_get tab' = (fd_get tab)(sk_fd s \<mapsto> natt_socket (sk_Port s))
    | _ \<Rightarrow> fd_get tab' = fd_get tab"
proof -
  let ?port = "case portFlag of None \<Rightarrow> 4500 | Some p \<Rightarrow> p"
  show ?thesis
  proof (cases rule: listen_cases [of flt ?port tab])
    case (up tab1)
    have "fd_get tab1 (int (lowest_free tab)) \<noteq> None" using up(5) by simp
    from close_get [OF this, of flt] up assms fd_get_free [of tab] show ?thesis
      by (auto simp: natt_listener_def Let_def Close_def case_prod_beta fun_upd_idem split: if_splits)
  next
    case (down e tab1)
    with assms show ?thesis by (auto simp: natt_listener_def Let_def)
  qed
qed

text \<open>
  Closing twice is harmless: a closed socket forgets its descriptor, so that a second call does
  nothing, even when the number was given to another socket in between.
\<close>
theorem close_once:
  assumes "Close flt s tab = (e, s', tab')"
  shows "Close flt2 s' tab2 = (None, s', tab2)"
  using assms by (auto simp: Close_def Let_def split: option.splits if_splits prod.splits)

subsection \<open>Examples\<close>

theorem listen_all_or_nothing_witness:
  "\<exists>s tab'. ListenESPInUDP (\<lambda>_. None) 4500 [None] = (Inr s, tab') \<and> fd_get tab' = (fd_get [None])(sk_fd s \<mapsto> natt_socket 4500)"
proof -
  obtain r tab' where r: "ListenESPInUDP (\<lambda>_. None) 4500 [None] = (r, tab')" by (cases "ListenESPInUDP (\<lambda>_. None) 4500 [None]")
  from listen_all_or_nothing [OF r] r show ?thesis by (cases r) (auto simp: listen_calls_def)
qed

theorem listener_releases_witness:
  "fd_get (snd (natt_listener (\<lambda>_. None) None [OtherSignal 1, SIGTERM] [])) = fd_get [] \<and> fst (natt_listener (\<lambda>_. None) None [OtherSignal 1, SIGTERM] []) = ListenerStopped"
proof -
  obtain out tab' where r: "natt_listener (\<lambda>_. None) None [OtherSignal 1, SIGTERM] [] = (out, tab')"
    by (cases "natt_listener (\<lambda>_. None) None [OtherSignal 1, SIGTERM] []")
  have "fst (natt_listener (\<lambda>_. None) None [OtherSignal 1, SIGTERM] []) = ListenerStopped" by code_simp
  with listener_releases [OF r] r show ?thesis by simp
qed

theorem close_once_witness:
  "Close (\<lambda>_. None) (Some \<lparr>sk_fd = - 1, sk_Port = 4500\<rparr>) [Some new_usocket] = (None, Some \<lparr>sk_fd = - 1, sk_Port = 4500\<rparr>, [Some new_usocket])"
  by (rule close_once [of "\<lambda>_. None" "Some \<lparr>sk_fd = 0, sk_Port = 4500\<rparr>" "[Some new_usocket]" None _ "[None]"]) code_simp


end
