(* ===== verification/Pep_Run.thy ===== *)
theory Pep_Run
  imports Pep_Main Natt
begin

text \<open>
  The life of a PEP, \<^verbatim>\<open>main\<close> of \<^verbatim>\<open>pep/main.go\<close>: the start (\<open>pep_main\<close>), the background loops, and runs in which
  the process may be stopped and started again any number of times (\<open>psys\<close>). A process starts with the
  zero values of its variables (\<open>pep_boot\<close>); the disk and the kernel are what the last one left.
\<close>

subsection \<open>The start of the service\<close>

text \<open>
  \<^verbatim>\<open>sessionReaper\<close>: the interval, and the cleanup at every tick, whose times are given. \<open>None\<close> is the panic
  of \<^verbatim>\<open>time.NewTicker\<close> for an interval that is not positive.
\<close>

definition reaper_interval :: "env \<Rightarrow> duration option" where
  "reaper_interval env =
     (let interval = dur_seconds (pep_getenvInt env ''SESSION_REAPER_INTERVAL_SECONDS'' 5) in
      if interval \<le> 0 then None else Some interval)"

definition sessionReaper :: "'k world \<Rightarrow> time list \<Rightarrow> 'k pep \<Rightarrow> 'k pep option" where
  "sessionReaper W ticks p =
     (case reaper_interval (w_env W) of None \<Rightarrow> None | Some _ \<Rightarrow> Some (fold (cleanupExpiredSessions W) ticks p))"

text \<open>\<^verbatim>\<open>refreshLoop\<close>: one renewal per tick, errors are logged.\<close>

primrec refreshLoop :: "'k world \<Rightarrow> nat \<Rightarrow> 'k pep \<Rightarrow> 'k pep" where
  "refreshLoop W 0 p = p"
| "refreshLoop W (Suc n) p = refreshLoop W n (snd (ensureCapacityToken W p))"

text \<open>
  \<^verbatim>\<open>main\<close> up to the point where it serves requests; \<open>None\<close> is \<^verbatim>\<open>log.Fatal\<close> or a panic, or a start that still
  waits for the kernel monitor. The descriptors of the process are those of \<open>tab\<close>.
\<close>

definition pep_start :: "'k world \<Rightarrow> Ed25519Identity option \<Rightarrow> monitor \<Rightarrow> 'k pep \<Rightarrow> 'k pep option" where
  "pep_start W key mo p =
     (case initAttestation W key p of None \<Rightarrow> None
      | Some p \<Rightarrow>
        let p = initAllocators (w_env W) p in
        (case initXFRMObserver (w_env W) mo of None \<Rightarrow> None | Some (Inl _) \<Rightarrow> None
         | Some (Inr ob) \<Rightarrow>
           let p = p\<lparr>p_observer := Some ob\<rparr> in
           (case validateXFRMObserverConfiguration (w_env W) (attested p) (p_observer p) of Inl _ \<Rightarrow> None
            | Inr _ \<Rightarrow>
              (case validateRestoredSessions W (p\<lparr>p_healthy := True\<rparr>) of (Inl _, _) \<Rightarrow> None
               | (Inr _, p) \<Rightarrow>
                 (case startAttestation W p of None \<Rightarrow> None
                  | Some p \<Rightarrow>
                    (case sessionReaper W [] p of None \<Rightarrow> None
                     | Some p \<Rightarrow> (case setupPEPFirewall W p of (Some _, _) \<Rightarrow> None | (None, p) \<Rightarrow> Some p)))))))"

definition pep_main ::
  "'k world \<Rightarrow> Ed25519Identity option \<Rightarrow> monitor \<Rightarrow> faults \<Rightarrow> fdtable \<Rightarrow> 'k pep \<Rightarrow> ('k pep \<times> Socket \<times> fdtable) option" where
  "pep_main W key mo flt tab p =
     (case pep_start W key mo p of None \<Rightarrow> None
      | Some p \<Rightarrow>
        (case ListenESPInUDP flt 4500 tab of (Inl _, _) \<Rightarrow> None | (Inr nattSocket, tab) \<Rightarrow> Some (p, nattSocket, tab)))"

definition pep_boot :: "'k pep \<Rightarrow> 'k pep" where
  "pep_boot p =
     \<lparr>p_history = None, p_sessions = [], p_pending = None, p_pendingCapacity = None, p_statePath = '''', p_nextReqID = 0,
      p_nextClientInnerID = 0, p_healthy = False, p_attestation = None, p_observer = None,
      p_disk = p_disk p, p_kernel = p_kernel p, p_tick = p_tick p\<rparr>"

subsection \<open>Runs with restarts\<close>

text \<open>Requests that were waiting when the process stopped are gone.\<close>

inductive psys :: "'k world \<Rightarrow> 'k pep \<times> (Session \<times> PEPActivationResponse) list \<Rightarrow> 'k pep \<times> (Session \<times> PEPActivationResponse) list \<Rightarrow> bool"
  for W where
  running: "pstep W x y \<Longrightarrow> psys W x y"
| restart: "pep_main W key mo flt tab (pep_boot p) = Some (p', sock, tab') \<Longrightarrow> psys W (p, ts) (p', [])"

inductive_cases psys_elim: "psys W (p, ts) (p', ts')"

text \<open>The configuration with attestation and a state file.\<close>

definition attesting :: "env \<Rightarrow> bool" where
  "attesting env \<longleftrightarrow> getenvBool env ''PEP_ATTESTATION_ENABLED'' False \<and> getenvBool env ''PEP_STATE_PERSISTENCE_ENABLED'' True"

definition state_path :: "env \<Rightarrow> string" where
  "state_path env = getenv env ''PEP_STATE_PATH'' ''/data/state.json''"

definition run_inv :: "'k world \<Rightarrow> 'k pep \<Rightarrow> bool" where
  "run_inv W p \<longleftrightarrow> attesting (w_env W) \<and> p_statePath p = state_path (w_env W) \<and> sound_file (stored p) \<and> pep_inv (w_prims W) p"

lemma run_inv_steady: "steady (w_prims W) p p' \<Longrightarrow> run_inv W p \<Longrightarrow> pep_inv (w_prims W) p' \<Longrightarrow> run_inv W p'"
  by (auto simp: run_inv_def steady_def pep_inv_def)

lemma run_inv_pstep: "pstep W (p, ts) (p', ts') \<Longrightarrow> run_inv W p \<Longrightarrow> run_inv W p'"
  by (meson run_inv_steady pstep_steady pep_inv_step run_inv_def)

subsection \<open>The start establishes the invariant\<close>

lemma load_fresh:
  assumes "loadPEPState P path h0 p = (Inr u, p')" "path \<noteq> ''''" "p_sessions p = []" "p_pending p = None" "sound_file (p_disk p path)"
  shows "durable p'" "quiescent p'" "keyed p'" "p_statePath p' = path" "p_disk p' = p_disk p" "p_attestation p' = p_attestation p"
proof -
  have f: "p_history p' \<noteq> None \<and> p_pending p' = None \<and> p_statePath p' = path \<and> p_disk p' = p_disk p \<and> p_attestation p' = p_attestation p
    \<and> (p_disk p path = None \<and> p_sessions p' = []
       \<or> (\<exists>d. p_disk p path = Some (Doc d) \<and> ps_Version d = 1 \<and> ps_Pending d = None \<and> p_sessions p' = slice (ps_Sessions d)))"
    using assms(1-4)
    by (cases "p_disk p path") (auto simp: loadPEPState_def Let_def split: content.splits if_splits option.splits sum.splits)
  then have "durable p' \<and> quiescent p' \<and> keyed p' \<and> p_statePath p' = path \<and> p_disk p' = p_disk p \<and> p_attestation p' = p_attestation p"
    using assms(2,5) by (auto simp: durable_def quiescent_def holds_sessions_def keyed_def sound_file_def)
  then show "durable p'" "quiescent p'" "keyed p'" "p_statePath p' = path" "p_disk p' = p_disk p" "p_attestation p' = p_attestation p"
    by blast+
qed

lemma init_fresh:
  assumes "initAttestation W key (pep_boot p) = Some p'" "attesting (w_env W)" "sound_file (p_disk p (state_path (w_env W)))"
  shows "durable p' \<and> quiescent p' \<and> keyed p' \<and> p_statePath p' = state_path (w_env W) \<and> sound_file (stored p')
    \<and> (\<exists>a. p_attestation p' = Some a \<and> at_enabled a \<and> at_token a = None)"
proof -
  have ne: "state_path (w_env W) \<noteq> ''''" by (simp add: state_path_def getenv_nonempty)
  from assms(1,2) obtain a q md where a: "attestation_config (w_env W) key = Some a"
    and l: "loadPEPState (w_prims W) (state_path (w_env W)) (NewEnforcementHistory (at_pepID a)) ((pep_boot p)\<lparr>p_attestation := Some a\<rparr>) = (Inr (), q)"
    and p': "p' = pep_append W eventPEPStart None md q"
    by (auto simp: initAttestation_def attesting_def state_path_def Let_def split: option.splits prod.splits sum.splits if_splits)
  have "at_enabled a \<and> at_token a = None"
    using a by (auto simp: attestation_config_def Let_def split: option.splits if_splits)
  with load_fresh [OF l ne] assms(3) show ?thesis by (auto simp: p' pep_boot_def keyed_def)
qed

lemma run_inv_frame [simp]:
  "run_inv W (p\<lparr>p_kernel := k\<rparr>) = run_inv W p" "run_inv W (p\<lparr>p_tick := n\<rparr>) = run_inv W p"
  by (simp_all add: run_inv_def pep_inv_def idle_def keyed_def keeps_fitting_def)

lemma ensure_run_inv: "ensureCapacityToken W p = (r, p') \<Longrightarrow> run_inv W p \<Longrightarrow> run_inv W p'"
  by (rule run_inv_pstep [OF pstep.refresh])

lemma cleanup_run_inv: "run_inv W p \<Longrightarrow> run_inv W (cleanupExpiredSessions W now p)"
  by (rule run_inv_pstep [OF pstep.reap]) simp_all

lemma attempts_run_inv: "attempts W n p = Some p' \<Longrightarrow> run_inv W p \<Longrightarrow> run_inv W p'"
proof (induction n arbitrary: p)
  case (Suc n)
  obtain r q where "ensureCapacityToken W p = (r, q)" by (cases "ensureCapacityToken W p")
  with Suc ensure_run_inv [of W p r q] show ?case by (cases r) auto
qed simp

lemma validate_run_inv:
  assumes "validateRestoredSessions W p = (Inr u, p')" "run_inv W p" "idle p"
  shows "run_inv W p'"
proof -
  have i: "durable p" "quiescent p" using assms(3) by (simp_all add: idle_def)
  from assms(1) consider "p' = p"
    | "expire_all W (filter (session_expired (w_clock W (p_tick p))) (map snd (p_sessions p))) (tick p) = (Inr (), p')"
    by (auto simp: validateRestoredSessions_def cleanupExpiredSessionsUnderHistoryLock_def split: option.splits if_splits prod.splits sum.splits)
  then show ?thesis
  proof cases
    case 2
    from expire_all_fail_closed [OF 2] i have "idle p'" by (simp add: idle_def)
    moreover have st: "steady (w_prims W) p p'" using expire_all_steady [OF 2, of "w_prims W"] by simp
    ultimately have "pep_inv (w_prims W) p'" using assms(2) by (auto simp: pep_inv_def steady_def run_inv_def)
    with st assms(2) show ?thesis by (blast intro: run_inv_steady)
  qed (use assms(2) in simp)
qed

lemma start_elim:
  assumes "pep_start W key mo p = Some p'"
  obtains p1 ob p3 p4 k where "initAttestation W key p = Some p1"
    "initXFRMObserver (w_env W) mo = Some (Inr ob)"
    "validateXFRMObserverConfiguration (w_env W) (attested p1) (Some ob) = Inr ()"
    "validateRestoredSessions W ((initAllocators (w_env W) p1)\<lparr>p_observer := Some ob, p_healthy := True\<rparr>) = (Inr (), p3)"
    "startAttestation W p3 = Some p4" "reaper_interval (w_env W) \<noteq> None" "p' = p4\<lparr>p_kernel := k\<rparr>"
proof -
  from assms obtain p1 ob p3 p4 where s: "initAttestation W key p = Some p1" "initXFRMObserver (w_env W) mo = Some (Inr ob)"
    "validateXFRMObserverConfiguration (w_env W) (attested ((initAllocators (w_env W) p1)\<lparr>p_observer := Some ob\<rparr>)) (Some ob) = Inr ()"
    "validateRestoredSessions W ((initAllocators (w_env W) p1)\<lparr>p_observer := Some ob, p_healthy := True\<rparr>) = (Inr (), p3)"
    "startAttestation W p3 = Some p4" "reaper_interval (w_env W) \<noteq> None" "setupPEPFirewall W p4 = (None, p')"
    by (auto simp: pep_start_def sessionReaper_def Let_def split: option.splits sum.splits prod.splits)
  have "attested ((initAllocators (w_env W) p1)\<lparr>p_observer := Some ob\<rparr>) = attested p1"
    by (simp add: attested_def initAllocators_def Let_def case_prod_beta)
  moreover have "\<exists>k. p' = p4\<lparr>p_kernel := k\<rparr>"
    using s(7) by (cases "run_firewall (w_kernel W) (firewall_commands (w_env W)) (p_kernel p4)")
      (auto simp: setupPEPFirewall_def split: if_splits intro: exI [of _ "p_kernel p4"])
  ultimately show thesis using that s by metis
qed

lemma start_run_inv:
  assumes "pep_start W key mo (pep_boot p) = Some p'" "attesting (w_env W)" "sound_file (p_disk p (state_path (w_env W)))"
  shows "run_inv W p'"
  using assms(1)
proof (rule start_elim)
  fix p1 ob p3 p4 k
  assume i: "initAttestation W key (pep_boot p) = Some p1"
    and v: "validateRestoredSessions W ((initAllocators (w_env W) p1)\<lparr>p_observer := Some ob, p_healthy := True\<rparr>) = (Inr (), p3)"
    and a: "startAttestation W p3 = Some p4" and p': "p' = p4\<lparr>p_kernel := k\<rparr>"
  let ?p2 = "(initAllocators (w_env W) p1)\<lparr>p_observer := Some ob, p_healthy := True\<rparr>"
  have "idle ?p2 \<and> run_inv W ?p2"
    using init_fresh [OF i assms(2,3)] assms(2)
    by (auto simp: run_inv_def pep_inv_def idle_def durable_def quiescent_def keyed_def keeps_fitting_def initAllocators_def Let_def case_prod_beta)
  then have "run_inv W p3" using validate_run_inv [OF v] by blast
  then have "run_inv W p4" using a attempts_run_inv [of W 20 p3 p4] by (auto simp: startAttestation_def split: if_splits)
  then show ?thesis by (simp add: p')
qed

interpretation pep_run: transition_system "psys W" "\<lambda>(p, ts). run_inv W p" for W
proof
  fix s s' :: "'a pep \<times> (Session \<times> PEPActivationResponse) list"
  assume st: "psys W s s'" and inv: "case s of (p, ts) \<Rightarrow> run_inv W p"
  obtain p ts p' ts' where s: "s = (p, ts)" "s' = (p', ts')" by (cases s; cases s')
  from st [unfolded s] have "run_inv W p'"
  proof (rule psys_elim)
    assume "pstep W (p, ts) (p', ts')"
    with inv s show ?thesis by (auto intro: run_inv_pstep)
  next
    fix key mo flt tab sock tab'
    assume "pep_main W key mo flt tab (pep_boot p) = Some (p', sock, tab')"
    then have "pep_start W key mo (pep_boot p) = Some p'"
      by (auto simp: pep_main_def split: option.splits prod.splits sum.splits)
    moreover have "attesting (w_env W)" "sound_file (p_disk p (state_path (w_env W)))" using inv s by (auto simp: run_inv_def)
    ultimately show ?thesis by (rule start_run_inv)
  qed
  with s show "case s' of (p, ts) \<Rightarrow> run_inv W p" by simp
qed

text \<open>The background loops are runs.\<close>

lemma refreshLoop_run: "(psys W)\<^sup>*\<^sup>* (p, ts) (refreshLoop W n p, ts)"
proof (induction n arbitrary: p)
  case (Suc n)
  have "psys W (p, ts) (snd (ensureCapacityToken W p), ts)"
    by (rule running, rule pstep.refresh [of W p "fst (ensureCapacityToken W p)"]) simp
  with Suc show ?case by (auto intro: converse_rtranclp_into_rtranclp)
qed simp

lemma sessionReaper_run: "sessionReaper W ticks p = Some p' \<Longrightarrow> (psys W)\<^sup>*\<^sup>* (p, ts) (p', ts)"
proof -
  have "(psys W)\<^sup>*\<^sup>* (p, ts) (fold (cleanupExpiredSessions W) ticks p, ts)"
    by (induction ticks arbitrary: p) (auto intro: converse_rtranclp_into_rtranclp running pstep.reap)
  moreover assume "sessionReaper W ticks p = Some p'"
  ultimately show ?thesis by (auto simp: sessionReaper_def split: option.splits)
qed

end
