(* ===== verification/Enrolment.thy ===== *)
theory Enrolment
  imports Pep_Run
begin

text \<open>
  The first start of a PEP with the verifier of this repository: the request that \<^verbatim>\<open>startAttestation\<close> posts is
  handled by \<open>capacityHandler\<close> with a new state, and the PEP comes up with a token.
\<close>

text \<open>What the PEP sees of the verifier's reply.\<close>

fun seen_reply :: "http_reply \<Rightarrow> verifier_reply" where
  "seen_reply (HttpToken tok) = Reply tok"
| "seen_reply (HttpError c m) = Status (int c)"
| "seen_reply (HistoryRejected e) = Status 403"

text \<open>The configurations of the two sides fit together.\<close>

definition enrolled_at :: "verifierConfig \<Rightarrow> Ed25519Identity \<Rightarrow> enrolledPEP smap \<Rightarrow> pepAttestationState \<Rightarrow> bool" where
  "enrolled_at cfg ident enrolled a \<longleftrightarrow>
     (\<exists>e. map_of enrolled (at_pepID a) = Some e \<and> ep_SigningPublicKey e = id_PublicKey (at_key a)) \<and> id_PublicKey (at_key a) \<noteq> ''''
     \<and> at_verifierPubKey a = id_PublicKey ident \<and> 0 < at_maxSALifetime a
     \<and> vc_ExpectedMeasurement cfg \<in> {'''', at_measurement a} \<and> vc_ExpectedPolicyHash cfg \<in> {'''', at_policyHash a}
     \<and> scopeSubset (at_scope a) (vc_AllowedScope cfg) \<and> strings_ToLower (vc_RequiredObserver cfg) = at_requiredObserver a"

definition complete_config :: "pepAttestationState \<Rightarrow> bool" where
  "complete_config a \<longleftrightarrow> at_enabled a \<and> at_token a = None \<and> at_pepID a \<noteq> '''' \<and> at_measurement a \<noteq> '''' \<and> at_policyHash a \<noteq> '''' \<and> at_scope a \<noteq> []"

lemma config_complete: "attestation_config env (Some key) = Some a \<Longrightarrow> complete_config a \<and> at_key a = key"
  by (auto simp: attestation_config_def complete_config_def Let_def getenv_nonempty split: if_splits)

subsection \<open>The verifier answers\<close>

lemma enrolled_guards:
  assumes "enrolled_at cfg ident enrolled a" "complete_config a"
  obtains req where "capacity_guards cfg enrolled \<lparr>rq_Method = ''POST'', rq_Body = Some (capacity_request a ev)\<rparr>
      = Inr (req, id_PublicKey (at_key a), ev)"
    "cr_PEPID req = at_pepID a"
proof -
  let ?req = "capacity_request a ev"
  let ?clamped = "if vc_MaxSALifetime cfg > 0 \<and> cr_MaxSALifetime ?req > vc_MaxSALifetime cfg
     then ?req\<lparr>cr_MaxSALifetime := vc_MaxSALifetime cfg\<rparr> else ?req"
  from assms obtain e where e: "map_of enrolled (at_pepID a) = Some e" "ep_SigningPublicKey e = id_PublicKey (at_key a)"
    by (auto simp: enrolled_at_def)
  have f: "at_pepID a \<noteq> ''''" "at_measurement a \<noteq> ''''" "at_policyHash a \<noteq> ''''" "at_scope a \<noteq> []" "id_PublicKey (at_key a) \<noteq> ''''"
    "\<not> at_maxSALifetime a \<le> 0" "scopeSubset (at_scope a) (vc_AllowedScope cfg)"
    "\<not> (vc_ExpectedMeasurement cfg \<noteq> '''' \<and> at_measurement a \<noteq> vc_ExpectedMeasurement cfg)"
    "\<not> (vc_ExpectedPolicyHash cfg \<noteq> '''' \<and> at_policyHash a \<noteq> vc_ExpectedPolicyHash cfg)"
    using assms unfolding enrolled_at_def complete_config_def by auto
  have "capacity_guards cfg enrolled \<lparr>rq_Method = ''POST'', rq_Body = Some ?req\<rparr> = Inr (?clamped, id_PublicKey (at_key a), ev)"
    by (simp add: capacity_guards_def capacity_request_def f e Let_def)
  from that [OF this] show thesis by (simp add: capacity_request_def)
qed

text \<open>The events of a start are no session's, and leave the policy's state alone.\<close>

lemma idle_events_policy:
  assumes "list_all (\<lambda>e. ev_EventType e \<in> {''pep_start'', ''capacity_requested'', ''capacity_accepted''} \<and> ev_ServiceID e = '''') es"
  shows "policy_events scope maxL prof es st = Inr st"
  using assms by (induction es arbitrary: st) (auto simp: policy_event_def policy_switch_def allowedTypes_def)

lemma verifier_answers:
  assumes enr: "enrolled_at cfg ident enrolled a" "complete_config a" "key_pair P ident" "clock_ok cfg vnow"
    and ev: "evidence_ok P ev (at_pepID a) (id_PublicKey (at_key a)) None" "four_digit_year now" "cp_CreatedAt (he_Checkpoint ev) = Format_RFC3339 now"
      "list_all (\<lambda>e. ev_EventType e \<in> {''pep_start'', ''capacity_requested'', ''capacity_accepted''} \<and> ev_ServiceID e = '''') (he_Events ev)"
  obtains tok where "seen_reply (fst (capacityHandler P cfg ident enrolled vnow os_fine
      \<lparr>rq_Method = ''POST'', rq_Body = Some (capacity_request a ev)\<rparr> (new_verifier_state, vdisk))) = Reply tok"
    "\<forall>t. vnow - 5 * Second \<le> t \<and> t < (vnow + vc_TokenTTLSeconds cfg * Second) div Second * Second \<longrightarrow>
       validateCapacityToken P t a tok ev = Inr (HashEnforcementCheckpoint P (he_Checkpoint ev))"
proof -
  let ?r = "\<lparr>rq_Method = ''POST'', rq_Body = Some (capacity_request a ev)\<rparr>"
  obtain req where g: "capacity_guards cfg enrolled ?r = Inr (req, id_PublicKey (at_key a), ev)" "cr_PEPID req = at_pepID a"
    using enrolled_guards [OF enr(1,2)] by blast
  have none: "map_of (vs_checkpoints new_verifier_state) (cr_PEPID req) = None"
    "slice (map_of (vs_activeStates new_verifier_state) (cr_PEPID req)) = []" by (simp_all add: new_verifier_state_def)
  have pol: "verifyEnforcementPolicy ev req [] [vc_RequiredObserver cfg] = Inr []"
    using ev(2,3) by (simp add: verifyEnforcementPolicy_def idle_events_policy [OF ev(4)] Parse_Format)
  obtain priv where priv: "decodePrivateKey (id_PrivateKey ident) = Inr priv" using enr(3) by (auto simp: key_pair_def)
  obtain tk where tk: "capacity_prepare P cfg ident enrolled vnow ?r new_verifier_state = Inr tk" "tk_req tk = req" "tk_previous tk = None"
    using prepare_complete [OF g(1) none(1), of P "[]" ident priv vnow] ev(1) pol priv g(2) none(2) by auto
  have "map_of (vs_checkpoints new_verifier_state) (cr_PEPID (tk_req tk)) = tk_previous tk" using none tk by simp
  then obtain st' disk' where "capacity_commit P cfg ident os_fine tk (new_verifier_state, vdisk) = (HttpToken (tk_signed tk), st', disk')"
    by (rule commit_complete)
  with tk(1) have "seen_reply (fst (capacityHandler P cfg ident enrolled vnow os_fine ?r (new_verifier_state, vdisk))) = Reply (tk_signed tk)"
    by (simp add: capacityHandler_def)
  moreover have "validateCapacityToken P t a (tk_signed tk) ev = Inr (HashEnforcementCheckpoint P (he_Checkpoint ev))"
    if "vnow - 5 * Second \<le> t" "t < (vnow + vc_TokenTTLSeconds cfg * Second) div Second * Second" for t
    using fresh_token_validates [OF tk(1) enr(3,4) _ _ that] enr(1) by (simp add: enrolled_at_def)
  ultimately show thesis using that by blast
qed

subsection \<open>The PEP comes up\<close>

abbreviation idle_event :: "EnforcementEvent \<Rightarrow> bool" where
  "idle_event e \<equiv> ev_EventType e \<in> {''pep_start'', ''capacity_requested'', ''capacity_accepted''} \<and> ev_ServiceID e = ''''"

definition young :: "prims \<Rightarrow> string \<Rightarrow> EnforcementHistory \<Rightarrow> bool" where
  "young P pepID h \<longleftrightarrow> hist_ok P h \<and> agrees P h None \<and> eh_pepID h = pepID \<and> list_all idle_event (eh_events h) \<and> length (eh_events h) < 100"

lemma young_new: "young P pepID (NewEnforcementHistory pepID)"
  using hist_ok_new agrees_new by (simp add: young_def NewEnforcementHistory_def)

lemma append_young:
  assumes "p_history p = Some h" "young (w_prims W) pepID h" "length (eh_events h) < 99" "four_digit_year (w_clock W (p_tick p))"
    and "ty \<in> {''pep_start'', ''capacity_requested'', ''capacity_accepted''}"
  obtains h' where "p_history (pep_append W ty None md p) = Some h'" "young (w_prims W) pepID h'" "length (eh_events h') = Suc (length (eh_events h))"
proof -
  let ?now = "w_clock W (p_tick p)"
  obtain e h' where a: "AppendEvent (w_prims W) ?now ty None md (Some h) = Inr (e, h')" by (auto simp: AppendEvent_def Let_def)
  have "appends (w_prims W) h h'" using assms(3,4) a by (intro appends.intros [of ?now]) auto
  with assms(2) have "hist_ok (w_prims W) h'" "agrees (w_prims W) h' None" "eh_pepID h' = pepID"
    using appends_hist_ok appends_agrees appends_shape by (auto simp: young_def)
  moreover have ev: "eh_events h' = eh_events h @ [e]" "idle_event e" using a assms(5) by (auto simp: AppendEvent_Some new_event_def Let_def)
  ultimately have "young (w_prims W) pepID h'" using assms(2,3) by (auto simp: young_def)
  with that [of h'] a ev(1) assms(1) show thesis by (simp add: pep_append_def historyAppend_def)
qed

lemma evidence_young:
  assumes "young P pepID h" "four_digit_year now" "key_pair P key"
  obtains ev where "BuildEvidence P now (id_PrivateKey key) (Some h) = Inr ev" "evidence_ok P ev pepID (id_PublicKey key) None"
    "covers h (he_Checkpoint ev)" "cp_CreatedAt (he_Checkpoint ev) = Format_RFC3339 now" "list_all idle_event (he_Events ev)"
proof -
  obtain priv pub where k: "ed25519_pair P priv pub" "decodePrivateKey (id_PrivateKey key) = Inr priv" "decodePublicKey (id_PublicKey key) = Inr pub"
    using assms(3) by (auto simp: key_pair_def)
  have y: "hist_ok P h" "agrees P h None" "eh_pepID h = pepID" "list_all idle_event (eh_events h)" using assms(1) by (auto simp: young_def)
  obtain ev where b: "BuildEvidence P now (id_PrivateKey key) (Some h) = Inr ev" using BuildEvidence_total [OF y(1) k(2)] by blast
  let ?n = "unat (eh_lastAcceptedCheckpointIndex h)"
  define cp where "cp = \<lparr>cp_Version = 1, cp_PEPID = eh_pepID h, cp_Epoch = eh_lastAcceptedEpoch h + 1,
      cp_PreviousCheckpointHash = eh_lastAcceptedCheckpointHash h, cp_LastEventIndex = eh_lastIndex h,
      cp_LastEventHash = eh_lastEventHash h, cp_EventCount = int (length (drop ?n (eh_events h))),
      cp_CreatedAt = Format_RFC3339 now, cp_Signature = ''''\<rparr>"
  have "?n \<le> length (eh_events h)" using y(1) by (simp add: hist_ok_def)
  with b obtain c where c: "SignEnforcementCheckpoint P cp (id_PrivateKey key) = Inr c"
    and e: "ev = \<lparr>he_PreviousCheckpointHash = eh_lastAcceptedCheckpointHash h, he_Events = drop ?n (eh_events h), he_Checkpoint = c\<rparr>"
    by (auto simp: BuildEvidence_def Let_def cp_def split: sum.splits if_splits)
  obtain s where "c = cp\<lparr>cp_Signature := s\<rparr>" using checkpoint.sign_shape [OF c] by blast
  then have t: "cp_CreatedAt (he_Checkpoint ev) = Format_RFC3339 now" by (simp add: e cp_def)
  have "list_all P (drop n xs)" if "list_all P xs" for P n and xs :: "EnforcementEvent list"
    using that set_drop_subset [of n xs] by (auto simp: list_all_iff)
  with y(4) have i: "list_all idle_event (he_Events ev)" by (simp add: e)
  show thesis by (rule that [OF b BuildEvidence_ok [OF y(1,2) assms(2) k b, unfolded y(3)] t i])
qed

text \<open>The world of a start that nothing disturbs.\<close>

definition calm :: "'k world \<Rightarrow> verifierConfig \<Rightarrow> Ed25519Identity \<Rightarrow> enrolledPEP smap \<Rightarrow> time \<Rightarrow> persistentVerifierState disk \<Rightarrow> bool" where
  "calm W cfg ident enrolled vnow vdisk \<longleftrightarrow>
     (\<forall>n. w_os W n = os_fine) \<and> (\<forall>cmd k. fst (k_sh (w_kernel W) cmd k) = None)
     \<and> (\<forall>n. four_digit_year (w_clock W n) \<and> vnow - 5 * Second \<le> w_clock W n
          \<and> w_clock W n < (vnow + vc_TokenTTLSeconds cfg * Second) div Second * Second)
     \<and> (\<forall>n req. w_post W n req = seen_reply (fst (capacityHandler (w_prims W) cfg ident enrolled vnow os_fine
            \<lparr>rq_Method = ''POST'', rq_Body = Some req\<rparr> (new_verifier_state, vdisk))))"

lemma first_renewal:
  assumes W: "calm W cfg ident enrolled vnow vdisk" "clock_ok cfg vnow" "key_pair (w_prims W) ident"
    and a: "enrolled_at cfg ident enrolled a" "complete_config a" "key_pair (w_prims W) (at_key a)"
    and p: "p_history p = Some h" "young (w_prims W) (at_pepID a) h" "length (eh_events h) < 9" "p_sessions p = []" "p_pendingCapacity p = None"
  obtains tok p' where "renew_token W a p = (Inr tok, p')" "p_healthy p' = p_healthy p"
proof -
  have fine: "w_os W n = os_fine" and year: "four_digit_year (w_clock W n)"
    and valid: "vnow - 5 * Second \<le> w_clock W n" "w_clock W n < (vnow + vc_TokenTTLSeconds cfg * Second) div Second * Second" for n
    using W(1) by (auto simp: calm_def)
  let ?q = "pep_append W eventCapacityRequested None (Some [(''scope'', strings_Join '','' (at_scope a))]) (tick p)"
  obtain h1 where h1: "p_history ?q = Some h1" "young (w_prims W) (at_pepID a) h1" "length (eh_events h1) = Suc (length (eh_events h))"
    using append_young [of "tick p" h W "at_pepID a" eventCapacityRequested] p(1-3) year by (auto simp: eventCapacityRequested_def)
  obtain ev where ev: "BuildEvidence (w_prims W) (w_clock W (p_tick ?q)) (id_PrivateKey (at_key a)) (Some h1) = Inr ev"
    "evidence_ok (w_prims W) ev (at_pepID a) (id_PublicKey (at_key a)) None" "covers h1 (he_Checkpoint ev)"
    "cp_CreatedAt (he_Checkpoint ev) = Format_RFC3339 (w_clock W (p_tick ?q))" "list_all idle_event (he_Events ev)"
    using evidence_young [OF h1(2) year a(3)] by blast
  from put_fine(3) [of W "Some ev" "tick ?q", OF fine] obtain q2 where
    s: "setPendingCapacityEvidence W (Some ev) (tick ?q) = (Inr (), q2)" by blast
  have core: "p_history q2 = Some h1" "p_healthy q2 = p_healthy p" using setPendingCapacity_ok(1) [OF s] h1(1) by (simp_all add: same_core_def)
  have rev: "renewal_evidence W a (tick p) = (Inr ev, q2)"
    using p(5) ev(1) h1(1) s by (simp add: renewal_evidence_def getPendingCapacityEvidence_def)
  obtain tok where tok: "seen_reply (fst (capacityHandler (w_prims W) cfg ident enrolled vnow os_fine
      \<lparr>rq_Method = ''POST'', rq_Body = Some (capacity_request a ev)\<rparr> (new_verifier_state, vdisk))) = Reply tok"
    "\<forall>t. vnow - 5 * Second \<le> t \<and> t < (vnow + vc_TokenTTLSeconds cfg * Second) div Second * Second \<longrightarrow>
       validateCapacityToken (w_prims W) t a tok ev = Inr (HashEnforcementCheckpoint (w_prims W) (he_Checkpoint ev))"
    by (rule verifier_answers [where vdisk = vdisk, OF a(1,2) W(3,2) ev(2) year ev(4,5)])
  have post: "w_post W n (capacity_request a ev) = Reply tok" for n using W(1) tok(1) by (simp add: calm_def)
  obtain h2 where h2: "MarkCheckpointAccepted (w_prims W) (he_Checkpoint ev) (Some h1) = Inr h2"
    using MarkCheckpointAccepted_ok [OF _ ev(3), of "w_prims W"] h1(2) by (auto simp: young_def)
  let ?md = "Some [(''checkpoint_hash'', HashEnforcementCheckpoint (w_prims W) (he_Checkpoint ev)),
    (''history_epoch'', utoa (cp_Epoch (he_Checkpoint ev)))]"
  let ?q3 = "pep_append W eventCapacityAccepted None ?md (tick ((tick q2)\<lparr>p_history := Some h2\<rparr>))"
  from put_fine(3) [of W None ?q3, OF fine] obtain q4 where s2: "setPendingCapacityEvidence W None ?q3 = (Inr (), q4)" by blast
  have "accept_token W a ev tok (tick q2) = (Inr tok, q4\<lparr>p_attestation := Some (a\<lparr>at_token := Some tok\<rparr>)\<rparr>)"
    using tok(2) valid h2 core(1) s2 by (simp add: accept_token_def)
  then have "renew_token W a p = (Inr tok, q4\<lparr>p_attestation := Some (a\<lparr>at_token := Some tok\<rparr>)\<rparr>)"
    using p(4) rev post by (simp add: renew_token_def cleanupExpiredSessionsUnderHistoryLock_def)
  moreover have "p_healthy q4 = p_healthy p" using setPendingCapacity_ok(1) [OF s2] core(2) by (simp add: same_core_def)
  ultimately show thesis using that by simp
qed

lemma run_firewall_ok: "\<forall>cmd k. fst (k_sh K cmd k) = None \<Longrightarrow> \<exists>k'. run_firewall K cmds k = (None, k')"
proof (induction cmds arbitrary: k)
  case (Cons cmd cmds)
  obtain k1 where "k_sh K cmd k = (None, k1)" using Cons.prems by (metis prod.collapse)
  with Cons show ?case by simp
qed simp

lemma firewall_up:
  assumes "calm W cfg ident enrolled vnow vdisk"
  obtains k where "setupPEPFirewall W p = (None, p\<lparr>p_kernel := k\<rparr>)"
proof -
  from assms obtain k where "run_firewall (w_kernel W) (firewall_commands (w_env W)) (p_kernel p) = (None, k)"
    using run_firewall_ok [of "w_kernel W" "firewall_commands (w_env W)" "p_kernel p"] by (auto simp: calm_def)
  then have "setupPEPFirewall W p = (None, p\<lparr>p_kernel := p_kernel p\<rparr>) \<or> setupPEPFirewall W p = (None, p\<lparr>p_kernel := k\<rparr>)"
    by (simp add: setupPEPFirewall_def)
  with that show thesis by blast
qed

lemma init_up:
  assumes "attesting (w_env W)" "attestation_config (w_env W) (Some key) = Some a" "p_disk old (state_path (w_env W)) = None"
    and "four_digit_year (w_clock W (p_tick old))"
  obtains p1 h where "initAttestation W (Some key) (pep_boot old) = Some p1" "p_history p1 = Some h" "young (w_prims W) (at_pepID a) h"
    "length (eh_events h) = 1" "p_sessions p1 = []" "p_pendingCapacity p1 = None" "p_attestation p1 = Some a"
proof -
  let ?md = "Some [(''measurement'', at_measurement a), (''policy_hash'', at_policyHash a), (''history_mode'', ''hash-chain-xfrm-observation'')]"
  let ?q = "(pep_boot old)\<lparr>p_attestation := Some a, p_statePath := state_path (w_env W), p_history := Some (NewEnforcementHistory (at_pepID a))\<rparr>"
  have "loadPEPState (w_prims W) (state_path (w_env W)) (NewEnforcementHistory (at_pepID a)) ((pep_boot old)\<lparr>p_attestation := Some a\<rparr>) = (Inr (), ?q)"
    using assms(3) by (simp add: loadPEPState_def pep_boot_def Let_def)
  then have i: "initAttestation W (Some key) (pep_boot old) = Some (pep_append W eventPEPStart None ?md ?q)"
    using assms(1,2) by (simp add: initAttestation_def attesting_def state_path_def)
  obtain h where h: "p_history (pep_append W eventPEPStart None ?md ?q) = Some h" "young (w_prims W) (at_pepID a) h" "length (eh_events h) = 1"
    using append_young [of ?q "NewEnforcementHistory (at_pepID a)" W "at_pepID a" eventPEPStart ?md] young_new assms(4)
    by (auto simp: eventPEPStart_def NewEnforcementHistory_def pep_boot_def)
  show thesis by (rule that [OF i h]) (simp_all add: pep_boot_def)
qed

lemma first_start:
  assumes "attesting (w_env W)" "attestation_config (w_env W) (Some key) = Some a" "reaper_interval (w_env W) \<noteq> None"
    and "initXFRMObserver (w_env W) mo = Some (Inr ob)" "validateXFRMObserverConfiguration (w_env W) True (Some ob) = Inr ()"
    and "enrolled_at cfg ident enrolled a" "key_pair (w_prims W) key" "key_pair (w_prims W) ident"
    and "clock_ok cfg vnow" "calm W cfg ident enrolled vnow vdisk" "p_disk old (state_path (w_env W)) = None" "\<forall>c. flt c = None"
  shows "\<exists>p sock tab'. pep_main W (Some key) mo flt tab (pep_boot old) = Some (p, sock, tab') \<and> p_healthy p \<and> durable p \<and> quiescent p
    \<and> (\<exists>s tok. p_attestation p = Some s \<and> at_token s = Some tok \<and> token_fits (w_prims W) s tok)"
proof -
  have year: "four_digit_year (w_clock W n)" for n using assms(10) by (simp add: calm_def)
  note c = config_complete [OF assms(2)]
  obtain p1 h where i: "initAttestation W (Some key) (pep_boot old) = Some p1" "p_history p1 = Some h" "young (w_prims W) (at_pepID a) h"
    "length (eh_events h) = 1" "p_sessions p1 = []" "p_pendingCapacity p1 = None" "p_attestation p1 = Some a"
    using init_up [OF assms(1,2,11) year] by blast
  define p2 where "p2 = (initAllocators (w_env W) p1)\<lparr>p_observer := Some ob, p_healthy := True\<rparr>"
  have p2: "p_history p2 = Some h" "p_sessions p2 = []" "p_pendingCapacity p2 = None" "p_attestation p2 = Some a" "p_healthy p2"
    using i by (simp_all add: p2_def initAllocators_def Let_def case_prod_beta)
  have en: "at_enabled a" "at_token a = None" using c by (simp_all add: complete_config_def)
  have v: "validateRestoredSessions W p2 = (Inr (), tick p2)"
    using p2 en by (simp add: validateRestoredSessions_def cleanupExpiredSessionsUnderHistoryLock_def)
  obtain tok p3 where r: "renew_token W a (tick p2) = (Inr tok, p3)" "p_healthy p3"
    by (rule first_renewal [where p = "tick p2" and h = h, OF assms(10,9,8,6)]) (use c assms(7) i p2 in auto)
  then have s: "startAttestation W (tick p2) = Some p3"
    using p2 en attempts.simps(2) [of W 19 "tick p2"] by (simp add: startAttestation_def ensureCapacityToken_def)
  obtain k where f: "setupPEPFirewall W p3 = (None, p3\<lparr>p_kernel := k\<rparr>)" using firewall_up [OF assms(10)] by blast
  have at: "attested ((initAllocators (w_env W) p1)\<lparr>p_observer := Some ob\<rparr>)"
    using i(7) en by (simp add: attested_def initAllocators_def Let_def case_prod_beta)
  obtain iv where iv: "reaper_interval (w_env W) = Some iv" using assms(3) by blast
  have start: "pep_start W (Some key) mo (pep_boot old) = Some (p3\<lparr>p_kernel := k\<rparr>)"
    using i(1) assms(4,5) at v s f iv by (simp add: pep_start_def sessionReaper_def p2_def)
  have sf: "sound_file (p_disk old (state_path (w_env W)))" using assms(11) by (simp add: sound_file_def)
  from start_run_inv [OF start assms(1) sf] r(2) have idle: "durable p3" "quiescent p3" by (auto simp: run_inv_def pep_inv_def idle_def)
  obtain sock tab' where "ListenESPInUDP flt 4500 tab = (Inr sock, tab')"
    by (cases rule: listen_cases [of flt 4500 tab]) (use assms(12) in \<open>auto simp: listen_calls_def\<close>)
  with start have "pep_main W (Some key) mo flt tab (pep_boot old) = Some (p3\<lparr>p_kernel := k\<rparr>, sock, tab')" by (simp add: pep_main_def)
  with r(2) idle renew_token_ok(1,2) [OF r(1)] show ?thesis by auto
qed

subsection \<open>Properties\<close>


text \<open>
  (C6) A PEP gets into service: when its configuration fits the verifier's, on a disk without a state file
  and with nothing failing, \<^verbatim>\<open>main\<close> reaches the point where it serves requests. The evidence of its first
  two events is accepted by the verifier's handler, the token passes the PEP's checks, and the PEP is
  healthy, has nothing pending, and holds a token that fits its configuration.
\<close>
theorem pep_first_start:
  assumes "attesting (w_env W)" "attestation_config (w_env W) (Some key) = Some a" "reaper_interval (w_env W) \<noteq> None"
    and "initXFRMObserver (w_env W) mo = Some (Inr ob)" "validateXFRMObserverConfiguration (w_env W) True (Some ob) = Inr ()"
    and "enrolled_at cfg ident enrolled a" "key_pair (w_prims W) key" "key_pair (w_prims W) ident"
    and "clock_ok cfg vnow" "calm W cfg ident enrolled vnow vdisk" "p_disk old (state_path (w_env W)) = None" "\<forall>c. flt c = None"
  shows "\<exists>p sock tab'. pep_main W (Some key) mo flt tab (pep_boot old) = Some (p, sock, tab') \<and> p_healthy p \<and> durable p \<and> quiescent p
    \<and> (\<exists>s tok. p_attestation p = Some s \<and> at_token s = Some tok \<and> token_fits (w_prims W) s tok)"
  using assms by (rule first_start)

subsection \<open>Examples\<close>

text \<open>A PEP in the dry-run profile, and the verifier that it is enrolled with.\<close>

definition en_env :: env where
  "en_env = [''PEP_ATTESTATION_ENABLED'' \<mapsto> ''1'', ''PEP_VERIFIER_PUBLIC_KEY'' \<mapsto> ex_pub,
     ''PEP_REQUIRED_OBSERVER_PROFILE'' \<mapsto> ''dry-run'', ''PEP_ID'' \<mapsto> ''pep'', ''PEP_ATTESTATION_SCOPE'' \<mapsto> ''svc'']"

definition en_att :: pepAttestationState where
  "en_att = \<lparr>at_enabled = True, at_pepID = ''pep'', at_verifierURL = ''http://cryptna-verifier:8080'',
     at_measurement = ''cryptna-lab-pep-measurement-v1'', at_policyHash = ''cryptna-lab-policy-v1'', at_scope = [''svc''],
     at_maxSALifetime = 60, at_verifierPubKey = ex_pub, at_requiredObserver = ''dry-run'', at_key = ex_ident, at_token = None\<rparr>"

definition en_cfg :: verifierConfig where
  "en_cfg = ex_cfg\<lparr>vc_RequiredObserver := ''dry-run''\<rparr>"

definition en_world :: "unit world" where
  "en_world = ex_world\<lparr>w_env := en_env, w_clock := (\<lambda>_. ex_now),
     w_post := (\<lambda>_ req. seen_reply (fst (capacityHandler demo_prims en_cfg ex_ident ex_enrolled ex_now os_fine
       \<lparr>rq_Method = ''POST'', rq_Body = Some req\<rparr> (new_verifier_state, Map.empty))))\<rparr>"

definition en_pep :: "unit pep" where
  "en_pep = pep_boot (ex_pep\<lparr>p_disk := Map.empty\<rparr>)"

lemma en_config: "attestation_config en_env (Some ex_ident) = Some en_att" "attesting en_env" "reaper_interval en_env = Some (5 * Second)"
  by code_simp+

lemma en_observer:
  "initXFRMObserver en_env ex_monitor = Some (Inr (new_observer en_env))"
  "validateXFRMObserverConfiguration en_env True (Some (new_observer en_env)) = Inr ()"
proof -
  have "xo_mode (new_observer en_env) = xfrmObserverPosthoc" by code_simp
  then show "initXFRMObserver en_env ex_monitor = Some (Inr (new_observer en_env))" by (simp add: initXFRMObserver_def)
  have "strings_ToLower (strings_TrimSpace (getenv en_env ''PEP_REQUIRED_OBSERVER_PROFILE'' ''posthoc'')) = ''dry-run''"
    "getenv en_env ''XFRM_MODE'' ''dry-run'' \<noteq> ''apply''" by code_simp+
  then show "validateXFRMObserverConfiguration en_env True (Some (new_observer en_env)) = Inr ()"
    by (simp add: validateXFRMObserverConfiguration_def Let_def)
qed

lemma en_enrolled: "enrolled_at en_cfg ex_ident ex_enrolled en_att"
proof -
  have "strings_ToLower ''dry-run'' = ''dry-run''" by code_simp
  then show ?thesis
    by (simp add: enrolled_at_def en_cfg_def en_att_def ex_cfg_simps ex_enrolled_def ex_ident_def ex_pub_def base64_Encode_nonempty)
qed

lemma en_clock: "clock_ok en_cfg ex_now"
  using ex_clock by (simp add: clock_ok_def en_cfg_def)

lemma en_calm: "calm en_world en_cfg ex_ident ex_enrolled ex_now Map.empty"
  using ex_clock by (simp add: calm_def en_world_def ex_world_def en_cfg_def clock_ok_def ex_observer Second_def)

lemma en_worlds: "w_env en_world = en_env" "w_prims en_world = demo_prims" "p_disk en_pep (state_path en_env) = None"
  by (simp_all add: en_world_def ex_world_def en_pep_def pep_boot_def)

lemma en_start:
  "\<exists>p sock tab'. pep_main en_world (Some ex_ident) ex_monitor (\<lambda>_. None) [] (pep_boot en_pep) = Some (p, sock, tab') \<and> p_healthy p"
  using first_start [where W = en_world and key = ex_ident and a = en_att and mo = ex_monitor and ob = "new_observer en_env"
      and cfg = en_cfg and ident = ex_ident and enrolled = ex_enrolled and vnow = ex_now and vdisk = Map.empty and old = en_pep
      and flt = "\<lambda>_. None" and tab = "[]"]
  by (simp add: en_worlds en_config en_observer en_enrolled ex_keys en_clock en_calm) blast

theorem pep_first_start_witness:
  "\<exists>p sock tab'. pep_main en_world (Some ex_ident) ex_monitor (\<lambda>_. None) [] (pep_boot en_pep) = Some (p, sock, tab')
     \<and> p_healthy p \<and> durable p \<and> quiescent p"
  using pep_first_start [where W = en_world and key = ex_ident and a = en_att and mo = ex_monitor and ob = "new_observer en_env"
      and cfg = en_cfg and ident = ex_ident and enrolled = ex_enrolled and vnow = ex_now and vdisk = Map.empty and old = en_pep
      and flt = "\<lambda>_. None" and tab = "[]"]
  by (simp add: en_worlds en_config en_observer en_enrolled ex_keys en_clock en_calm) blast


end
