(* ===== verification/Services.thy ===== *)
theory Services
  imports Enrolment Pdp Client
begin

text \<open>
  The \<^verbatim>\<open>main\<close> functions of the verifier, the PDP, the PIP and the client, up to the point where they serve or
  run: their files and sockets, and what stops them. \<open>Inl\<close> is \<^verbatim>\<open>log.Fatal\<close>. A file that exists but cannot be
  opened or decoded is \<open>Torn\<close>, as in \<^verbatim>\<open>Go_Files\<close>.
\<close>

definition mustLoadJSON :: "'d disk \<Rightarrow> string \<Rightarrow> string + 'd" where
  "mustLoadJSON disk path =
     (case disk path of
        None \<Rightarrow> Inl (''open '' @ path)
      | Some Torn \<Rightarrow> Inl (''decode '' @ path)
      | Some (Doc out) \<Rightarrow> Inr out)"

lemma mustLoadJSON_iff [result_iffs]: "mustLoadJSON disk path = Inr d \<longleftrightarrow> disk path = Some (Doc d)"
  by (auto simp: mustLoadJSON_def split: option.splits content.splits)

definition health_ok :: "nat \<times> string" where
  "health_ok = (200, ''ok'')"

subsection \<open>Verifier\<close>

definition verifier_main ::
  "env \<Rightarrow> Ed25519Identity disk \<Rightarrow> enrolledPEP smap disk \<Rightarrow> persistentVerifierState disk
    \<Rightarrow> string + verifierConfig \<times> Ed25519Identity \<times> enrolledPEP smap \<times> verifierState" where
  "verifier_main env idFiles enrollmentFiles disk =
     (let cfg = verifier_config env in
      rbind (mustLoadJSON idFiles (vc_IdentityPath cfg)) (\<lambda>ident.
      rbind (mustLoadJSON enrollmentFiles (vc_EnrollmentPath cfg)) (\<lambda>peps.
      rbind (loadVerifierState (vc_StatePath cfg) disk new_verifier_state) (\<lambda>state.
      Inr (cfg, ident, peps, state)))))"

lemma verifier_main_iff:
  "verifier_main env ids enr disk = Inr (cfg, ident, peps, state) \<longleftrightarrow>
     cfg = verifier_config env \<and> ids (vc_IdentityPath cfg) = Some (Doc ident) \<and> enr (vc_EnrollmentPath cfg) = Some (Doc peps)
     \<and> loadVerifierState (vc_StatePath cfg) disk new_verifier_state = Inr state"
  by (auto simp: verifier_main_def Let_def result_iffs)

subsection \<open>PDP\<close>

definition spaListenAddr :: string where "spaListenAddr = '':4000''"

text \<open>\<open>resolve\<close> and \<open>listen\<close> are the errors of \<^verbatim>\<open>net.ResolveUDPAddr\<close> and \<^verbatim>\<open>net.ListenUDP\<close>, if any.\<close>

definition pdp_main ::
  "env \<Rightarrow> PDPIdentity disk \<Rightarrow> (string \<Rightarrow> string option) \<Rightarrow> (string \<Rightarrow> string option)
    \<Rightarrow> string + (string \<times> string \<times> string \<times> int) \<times> PDPIdentity \<times> time smap" where
  "pdp_main env files resolve listen =
     rbind (of_opt ''missing setting'' (pdp_settings env)) (\<lambda>settings.
     rbind (mustLoadJSON files (getenv env ''PDP_IDENTITY'' ''/app/identity.json'')) (\<lambda>pdpID.
     case resolve spaListenAddr of Some err \<Rightarrow> Inl err
     | None \<Rightarrow> (case listen spaListenAddr of Some err \<Rightarrow> Inl err | None \<Rightarrow> Inr (settings, pdpID, []))))"

text \<open>The loop over the socket: an error of a read is logged; a datagram starts its handler. One after the other here.\<close>

fun serve_udp :: "'w pdp_config \<Rightarrow> (string + string \<times> bytes \<times> time \<times> time) list \<Rightarrow> 'w pdp_state \<Rightarrow> bytes option list \<times> 'w pdp_state" where
  "serve_udp D [] s = ([], s)"
| "serve_udp D (Inl err # reads) s = serve_udp D reads s"
| "serve_udp D (Inr (remote, datagram, now, fin) # reads) s =
     (case receiveUDP D remote datagram now fin s of (out, s) \<Rightarrow>
        (case serve_udp D reads s of (outs, s) \<Rightarrow> (out # outs, s)))"

subsection \<open>PIP\<close>

text \<open>\<open>database\<close> is the database that \<^verbatim>\<open>sql.Open\<close> gives.\<close>

definition pip_main :: "'d sqlite \<Rightarrow> (string + 'd) \<Rightarrow> ClientInfo list option option \<Rightarrow> 'd option" where
  "pip_main S database seedFile =
     (case database of Inl err \<Rightarrow> None
      | Inr d \<Rightarrow> (case initDB S d of None \<Rightarrow> None | Some d \<Rightarrow> seedClients S seedFile d))"

subsection \<open>Client\<close>

datatype client_command = GenIdentity | BenchHandshake "string list" | BenchHandshakeRate "string list" | Connect

definition client_dispatch :: "string list \<Rightarrow> client_command" where
  "client_dispatch args =
     (if length args > 1 then
        (if args ! 1 = ''gen-identity'' then GenIdentity
         else if args ! 1 = ''bench-handshake'' then BenchHandshake (drop 2 args)
         else if args ! 1 = ''bench-handshake-rate'' then BenchHandshakeRate (drop 2 args)
         else Connect)
      else Connect)"

definition client_connect :: "'k client_world \<Rightarrow> ClientConfig disk \<Rightarrow> ClientIdentity disk \<Rightarrow> 'k \<Rightarrow> exit \<times> 'k" where
  "client_connect W configFiles idFiles k =
     (case mustLoadJSON configFiles ''/app/config.json'' of Inl err \<Rightarrow> (Fatal err, k)
      | Inr cfg \<Rightarrow>
        (case mustLoadJSON idFiles ''/app/identity.json'' of Inl err \<Rightarrow> (Fatal err, k)
         | Inr cid \<Rightarrow> client_main W cfg cid k))"

subsection \<open>Properties\<close>

text \<open>
  A restarted verifier continues where the last one was: after any run, \<^verbatim>\<open>main\<close> on the files as they are
  comes up, with the configuration, the identity, the enrolled PEPs and the state that the running
  verifier has in memory.
\<close>
theorem verifier_main_resumes:
  assumes "verifier_main env ids enr disk = Inr (cfg, ident, peps, new_verifier_state)"
    and "vc_StatePath cfg \<noteq> ''''" "disk (vc_StatePath cfg) = None"
    and "(vstep P cfg ident peps)\<^sup>*\<^sup>* (vinit disk) s" "length (sy_log s) < 2 ^ 64"
  shows "verifier_main env ids enr (sy_disk s) = Inr (cfg, ident, peps, sy_state s)"
  using reachable_vinv [OF assms(4,2,3,5)] assms(1) by (auto simp: verifier_main_iff vinv_def on_disk_def)

text \<open>
  A datagram that is too long for a packet is answered with nothing and reaches neither the PIP nor the
  PEP, also when the buffer cuts it off; errors of single reads change nothing.
\<close>
theorem pdp_serves_sized_packets:
  assumes "\<And>r. r \<in> set reads \<Longrightarrow> \<exists>err. r = Inl err \<or> (\<exists>remote datagram now fin. r = Inr (remote, datagram, now, fin) \<and> length datagram > MaxSPAPacket)"
    and "serve_udp D reads s = (outs, s')"
  shows "set outs \<subseteq> {None} \<and> pd_world s' = pd_world s"
  using assms
proof (induction D reads s arbitrary: outs s' rule: serve_udp.induct)
  case (2 D err reads s)
  then show ?case by (metis list.set_intros(2) serve_udp.simps(2))
next
  case (3 D remote datagram now fin reads s)
  from "3.prems"(1) [of "Inr (remote, datagram, now, fin)"] have l: "length (take 2048 datagram) > MaxSPAPacket" by (auto simp: spa_lens)
  obtain out s1 where r: "receiveUDP D remote datagram now fin s = (out, s1)" by (cases "receiveUDP D remote datagram now fin s")
  obtain outs1 s2 where o: "serve_udp D reads s1 = (outs1, s2)" by (cases "serve_udp D reads s1")
  have "OpenIKpsk1SPAHeader (d_prims D) (take 2048 datagram) (d_identity D) now spaSkew = Inl ErrInvalidPacket"
    using l by (simp add: OpenIKpsk1SPAHeader_def)
  then have "\<not> is_ok (fst (handle_open D (take 2048 datagram) now (pd_items s)))"
    by (auto simp: handle_open_def Let_def case_prod_beta is_ok_def split: sum.split)
  with r have "out = None \<and> pd_world s1 = pd_world s"
    by (auto simp: receiveUDP_def handleUDPPacket_def is_ok_def split: prod.splits sum.splits)
  moreover have "set outs1 \<subseteq> {None} \<and> pd_world s2 = pd_world s1"
    using "3.IH" [OF r [symmetric] _ o] "3.prems"(1) by auto
  ultimately show ?case using "3.prems"(2) r o by auto
qed simp

end
